(* ===== verification/Kernel_Base.thy ===== *)
theory Kernel_Base
  imports Main "HOL-Library.Word" "HOL-Library.Monad_Syntax" "HOL-Library.Multiset"
begin

text \<open>
  The prelude of the development: names for the machine types of
  \<^verbatim>\<open>include/types.h\<close>, the counted loop that the C \<^verbatim>\<open>for\<close> statements without an
  early exit become, and the facts on words, lists and options that several
  components share.

  The kernel is compiled for x86-64 with \<^verbatim>\<open>-O0\<close>: \<^verbatim>\<open>char\<close> is 8 bits, \<^verbatim>\<open>short\<close> 16,
  \<^verbatim>\<open>int\<close> 32, \<^verbatim>\<open>long\<close>, \<^verbatim>\<open>long long\<close> and pointers 64.  The C type \<^verbatim>\<open>bool\<close> of the
  kernel is a \<^verbatim>\<open>uint8_t\<close> that only ever holds 0 or 1 where it is modelled by HOL's
  \<open>bool\<close>.

  A computation that the C code leaves undefined (a read or write outside the memory of
  an array, a read past the terminator of a string, a function that reaches its closing
  brace without a return although its result is used) is the value \<open>None\<close> of an
  option type; \<open>Some\<close> carries the result and the new state.
\<close>

unbundle bit_operations_syntax

section \<open>Machine types\<close>

type_synonym u8 = "8 word"
type_synonym u16 = "16 word"
type_synonym u32 = "32 word"
type_synonym u64 = "64 word"

abbreviation null :: u64 where "null \<equiv> 0"

abbreviation PAGE_SIZE :: u64 where "PAGE_SIZE \<equiv> 4096"

named_theorems c_macros \<open>definitions of the preprocessor macros of the kernel\<close>
named_theorems inv_defs \<open>definitions of the invariants of the components\<close>

section \<open>The counted loop\<close>

text \<open>
  \<open>for_loop n f s\<close> is \<^verbatim>\<open>for (i = 0; i < n; i++) s = f(i, s);\<close> for a body without a
  \<^verbatim>\<open>break\<close>, \<^verbatim>\<open>return\<close> or assignment to \<^verbatim>\<open>i\<close>, and a bound that the counter's type
  can hold.
\<close>

primrec for_loop :: "nat \<Rightarrow> (nat \<Rightarrow> 's \<Rightarrow> 's) \<Rightarrow> 's \<Rightarrow> 's" where
  "for_loop 0 f s = s"
| "for_loop (Suc n) f s = f n (for_loop n f s)"

lemma for_loop_numeral [simp]:
  "for_loop (numeral k) f s = f (pred_numeral k) (for_loop (pred_numeral k) f s)"
  by (simp add: numeral_eq_Suc)

lemma for_loop_invariant:
  assumes "P 0 s" and "\<And>i t. i < n \<Longrightarrow> P i t \<Longrightarrow> P (Suc i) (f i t)"
  shows "P n (for_loop n f s)"
  using assms by (induction n) auto

lemma for_loop_cong:
  "(\<And>i t. i < n \<Longrightarrow> f i t = g i t) \<Longrightarrow> for_loop n f s = for_loop n g s"
  by (induction n) auto

section \<open>Words\<close>

text \<open>Bounds are written as numerals, the form in which the simplifier leaves a power of 2.\<close>

lemma unat_less_64 [simp]: "unat (x :: u64) < 18446744073709551616"
  using unsigned_less [of x] by simp

lemma unat_le_64 [simp]: "unat (x :: u64) \<le> 18446744073709551616"
  using unat_less_64 [of x] by (rule less_imp_le)

lemma unat_less_32 [simp]: "unat (x :: u32) < 4294967296"
  using unsigned_less [of x] by simp

lemma unat_less_16 [simp]: "unat (x :: u16) < 65536"
  using unsigned_less [of x] by simp

lemma unat_less_8 [simp]: "unat (x :: u8) < 256"
  using unsigned_less [of x] by simp

lemma unat_of_nat_64 [simp]: "n < 18446744073709551616 \<Longrightarrow> unat (of_nat n :: u64) = n"
  by (simp add: unat_of_nat take_bit_nat_eq_self)

lemma unat_of_nat_32 [simp]: "n < 4294967296 \<Longrightarrow> unat (of_nat n :: u32) = n"
  by (simp add: unat_of_nat take_bit_nat_eq_self)

lemma unat_of_nat_8 [simp]: "n < 256 \<Longrightarrow> unat (of_nat n :: u8) = n"
  by (simp add: unat_of_nat take_bit_nat_eq_self)

lemma unat_ucast_up:
  assumes "LENGTH('a) \<le> LENGTH('b)"
  shows "unat (ucast (x :: 'a::len word) :: 'b::len word) = unat x"
proof -
  have "unat x < 2 ^ LENGTH('a)" by (rule unsigned_less)
  also have "\<dots> \<le> 2 ^ LENGTH('b)" using assms by (simp add: power_increasing)
  finally show ?thesis by (simp add: unsigned_ucast_eq take_bit_nat_eq_self)
qed

lemma unat_ucast_32_64 [simp]: "unat (ucast (x :: u32) :: u64) = unat x"
  by (rule unat_ucast_up) simp

lemma unat_ucast_16_64 [simp]: "unat (ucast (x :: u16) :: u64) = unat x"
  by (rule unat_ucast_up) simp

lemma unat_ucast_8_64 [simp]: "unat (ucast (x :: u8) :: u64) = unat x"
  by (rule unat_ucast_up) simp

lemma unat_ucast_8_32 [simp]: "unat (ucast (x :: u8) :: u32) = unat x"
  by (rule unat_ucast_up) simp

lemma unat_eq_of_nat_iff:
  "n < 18446744073709551616 \<Longrightarrow> unat (x :: u64) = n \<longleftrightarrow> x = of_nat n"
  by (metis unat_of_nat_64 word_unat_eq_iff)

lemma unat_uminus_64: "x \<noteq> 0 \<Longrightarrow> unat (- x :: u64) = 18446744073709551616 - unat x"
  using unat_sub_if_size [of 0 x] by (simp add: word_size unat_eq_zero)

lemma unat_Suc_less: "(x :: u32) < y \<Longrightarrow> unat (x + 1) = Suc (unat x)"
proof -
  assume "x < y"
  then have "unat x < unat y" by (simp add: word_less_nat_alt)
  with unat_less_32 [of y] have "unat x + 1 < 4294967296" by linarith
  then show ?thesis by (simp add: unat_word_ariths(1))
qed

lemma unat_pred: "(x :: u32) \<noteq> 0 \<Longrightarrow> unat (x - 1) = unat x - 1"
  by (simp add: unat_minus_one)

lemma unat_add_64: "unat a + unat b < 18446744073709551616 \<Longrightarrow> unat (a + b :: u64) = unat a + unat b"
  by (simp add: unat_word_ariths(1))

text \<open>The signed value of a byte.\<close>

lemma sint_unat_8: "sint (x :: u8) = (if unat x < 128 then int (unat x) else int (unat x) - 256)"
proof -
  define n where "n = unat x"
  have n: "uint x = int n" "n < 256" by (simp_all add: n_def)
  have "sint x = take_bit 8 (uint x + 128) - 128"
    by (simp add: sint_uint signed_take_bit_eq_take_bit_shift)
  then have e: "sint x = (int n + 128) mod 256 - 128" by (simp add: take_bit_eq_mod n)
  have "sint x = (if n < 128 then int n else int n - 256)"
  proof (cases "n < 128")
    case True
    then have "(int n + 128) mod 256 = int n + 128" by (intro mod_pos_pos_trivial) auto
    with True e show ?thesis by simp
  next
    case False
    have "(int n + 128) mod 256 = (int n - 128) mod 256"
      using mod_add_self2 [of "int n - 128" 256] by (simp add: add.commute)
    also have "\<dots> = int n - 128" using False n by (intro mod_pos_pos_trivial) linarith+
    finally show ?thesis using False e by simp
  qed
  then show ?thesis by (simp only: n_def)
qed

text \<open>The C test \<^verbatim>\<open>(x >> j) & 1\<close> reads bit \<open>j\<close>.\<close>

lemma shift_and_one_bit: "(drop_bit j x AND 1 \<noteq> 0) = bit (x :: 'a::len word) j"
  by (simp add: and_one_eq odd_iff_mod_2_eq_one [symmetric] bit_iff_odd_drop_bit mod2_eq_if)

section \<open>Lists\<close>

lemma list_update_swap_mset:
  "i < length xs \<Longrightarrow> j < length xs \<Longrightarrow>
    mset (xs[i := xs ! j, j := xs ! i]) = mset xs"
  by (rule mset_swap)

lemma map_upt_add: "map f [0..<a + b] = map f [0..<a] @ map (\<lambda>k. f (a + k)) [0..<b]"
  by (induction b) auto

section \<open>Results as tuples\<close>

lemma triple_of: "fst p = a \<Longrightarrow> p = (a, fst (snd p), snd (snd p))"
  by (cases p) auto

lemma pair_of: "fst p = a \<Longrightarrow> p = (a, snd p)"
  by (cases p) auto

end
