(* ===== verification/Mem_Ops.thy ===== *)
theory Mem_Ops
  imports Kernel_Base
begin

text \<open>
  Byte memory and the routines of \<^verbatim>\<open>mem.c\<close>.  A memory maps every 64-bit address to a
  byte; pointer arithmetic on \<^verbatim>\<open>void *\<close> is 64-bit word addition and wraps.  Multi-byte
  loads and stores are little-endian.  The theory ends with the locale of word-sized
  load/store memories that the page-table code of \<^verbatim>\<open>paging.c\<close> relies on, interpreted on
  the byte memory.
\<close>

type_synonym memory = "u64 \<Rightarrow> u8"

section \<open>The routines of mem.c\<close>

definition memcpy :: "u64 \<Rightarrow> u64 \<Rightarrow> u64 \<Rightarrow> memory \<Rightarrow> memory" where
  "memcpy dst src sz m =
     for_loop (unat sz) (\<lambda>i m. m(dst + of_nat i := m (src + of_nat i))) m"

definition memmove :: "u64 \<Rightarrow> u64 \<Rightarrow> u64 \<Rightarrow> memory \<Rightarrow> memory" where
  "memmove dst src sz m =
     for_loop (unat sz)
       (\<lambda>i m. let m = m(dst + of_nat i := m (src + of_nat i)) in m(src + of_nat i := 0)) m"

definition memset :: "u64 \<Rightarrow> u64 \<Rightarrow> u8 \<Rightarrow> memory \<Rightarrow> memory" where
  "memset dst sz value m = for_loop (unat sz) (\<lambda>i m. m(dst + of_nat i := value)) m"

definition memclear :: "u64 \<Rightarrow> u64 \<Rightarrow> memory \<Rightarrow> memory" where
  "memclear dst sz m = memset dst sz 0 m"

fun memcmp_from :: "nat \<Rightarrow> nat \<Rightarrow> u64 \<Rightarrow> u64 \<Rightarrow> memory \<Rightarrow> bool" where
  "memcmp_from i 0 b1 b2 m = True"
| "memcmp_from i (Suc k) b1 b2 m =
     (if m (b1 + of_nat i) \<noteq> m (b2 + of_nat i) then False else memcmp_from (Suc i) k b1 b2 m)"

definition memcmp :: "u64 \<Rightarrow> u64 \<Rightarrow> u64 \<Rightarrow> memory \<Rightarrow> bool" where
  "memcmp buffer1 buffer2 len m = memcmp_from 0 (unat len) buffer1 buffer2 m"

text \<open>
  \<^verbatim>\<open>reverse_endianess\<close> counts with a \<^verbatim>\<open>uint32_t\<close> up to a 64-bit bound: with a bound of
  \<open>2 ^ 32\<close> or more the loop does not end, which is the value \<open>None\<close>.
\<close>

definition reverse_endianess :: "u64 \<Rightarrow> u64 \<Rightarrow> memory \<Rightarrow> memory option" where
  "reverse_endianess ptr len m =
     (if len < 2 then Some m
      else if 2 ^ 32 \<le> unat (len div 2) then None
      else Some (for_loop (unat (len div 2))
        (\<lambda>i m. let tmp = m (ptr + of_nat i);
                   m = m(ptr + of_nat i := m (ptr + (len - 1) - of_nat i))
               in m(ptr + (len - 1) - of_nat i := tmp)) m))"

section \<open>What they do\<close>

text \<open>
  \<open>unat (x - a) < n\<close> says that the address \<open>x\<close> is one of the \<open>n\<close> addresses from \<open>a\<close>
  on, wrap-around included.
\<close>

definition in_region :: "u64 \<Rightarrow> u64 \<Rightarrow> nat \<Rightarrow> bool" where
  "in_region x a n \<longleftrightarrow> unat (x - a) < n"

lemma offset_eq_iff: "x = a + of_nat i \<longleftrightarrow> unat (x - a) = i" if "i < 18446744073709551616" for x a :: u64
  using that by (auto simp: unat_eq_of_nat_iff algebra_simps)

lemma offset_inj:
  "i < 18446744073709551616 \<Longrightarrow> j < 18446744073709551616 \<Longrightarrow> (a :: u64) + of_nat i = a + of_nat j \<longleftrightarrow> i = j"
  by (metis add_left_cancel unat_of_nat_64)

lemma offset_collision:
  fixes a b :: u64
  assumes "a + of_nat j = b + of_nat i" and "i \<le> j" and "j < 18446744073709551616"
  shows "unat (b - a) = j - i"
proof -
  have "b - a = of_nat j - of_nat i" using assms(1) by (simp add: algebra_simps)
  also have "\<dots> = of_nat (j - i)" using assms(2) by (simp add: of_nat_diff)
  finally show ?thesis using assms(3) by simp
qed

lemma in_region_offset: "i < 18446744073709551616 \<Longrightarrow> in_region (a + of_nat i) a n \<longleftrightarrow> i < n"
  by (simp add: in_region_def unat_of_nat_64)

lemma memset_loop_apply:
  fixes dst x :: u64 and m :: memory shows
  "n \<le> 18446744073709551616 \<Longrightarrow>
    for_loop n (\<lambda>i m. m(dst + of_nat i := v)) m x = (if unat (x - dst) < n then v else m x)"
proof (induction n)
  case (Suc n)
  then show ?case using offset_eq_iff [of n x dst] by (auto simp: less_Suc_eq)
qed simp

lemma memset_apply: "memset dst sz v m x = (if in_region x dst (unat sz) then v else m x)"
  unfolding memset_def in_region_def
  by (rule memset_loop_apply) simp

lemma memclear_apply: "memclear dst sz m x = (if in_region x dst (unat sz) then 0 else m x)"
  by (simp add: memclear_def memset_apply)

text \<open>
  The forward byte copy is right unless the destination starts strictly inside the
  source, and then bytes are read after they were overwritten.
\<close>

lemma no_forward_hit:
  fixes dst src :: u64
  assumes "dst = src \<or> n \<le> unat (dst - src)" and "i < n" and "k < i" and "n \<le> 18446744073709551616"
  shows "dst + of_nat k \<noteq> src + of_nat i"
proof
  assume "dst + of_nat k = src + of_nat i"
  with offset_collision [of src i dst k] assms have "unat (dst - src) = i - k" by simp
  with assms show False by auto
qed

lemma memcpy_loop_apply:
  fixes dst src x :: u64 and m :: memory
  assumes "dst = src \<or> n \<le> unat (dst - src)" and "k \<le> n" and "n \<le> 18446744073709551616"
  shows "for_loop k (\<lambda>i m. m(dst + of_nat i := m (src + of_nat i))) m x =
    (if unat (x - dst) < k then m (src + (x - dst)) else m x)"
  using assms(2)
proof (induction k arbitrary: x)
  case (Suc k)
  let ?c = "for_loop k (\<lambda>i m. m(dst + of_nat i := m (src + of_nat i))) m"
  have IH: "?c y = (if unat (y - dst) < k then m (src + (y - dst)) else m y)" for y
    by (rule Suc.IH) (use Suc.prems in simp)
  have "\<not> unat (src + of_nat k - dst) < k"
  proof
    assume *: "unat (src + of_nat k - dst) < k"
    define j where "j = unat (src + of_nat k - dst)"
    have "dst + of_nat j = src + of_nat k" unfolding j_def by simp
    with no_forward_hit [OF assms(1), of k j] * Suc.prems assms(3) show False
      by (simp add: j_def)
  qed
  then have src: "?c (src + of_nat k) = m (src + of_nat k)"
    unfolding IH by simp
  have step: "for_loop (Suc k) (\<lambda>i m. m(dst + of_nat i := m (src + of_nat i))) m x =
    (if x = dst + of_nat k then m (src + of_nat k) else ?c x)"
    by (simp only: for_loop.simps(2) fun_upd_apply src)
  show ?case
  proof (cases "x = dst + of_nat k")
    case True
    with Suc.prems assms(3) show ?thesis unfolding step by simp
  next
    case False
    with offset_eq_iff [of k x dst] Suc.prems assms(3) have "unat (x - dst) \<noteq> k" by auto
    with False show ?thesis unfolding step IH by (simp add: less_Suc_eq)
  qed
qed simp

lemma memcpy_apply:
  assumes "dst = src \<or> unat sz \<le> unat (dst - src)"
  shows "memcpy dst src sz m x =
    (if in_region x dst (unat sz) then m (src + (x - dst)) else m x)"
  unfolding memcpy_def in_region_def
  by (rule memcpy_loop_apply [OF assms]) simp_all


text \<open>
  \<^verbatim>\<open>memmove\<close> erases its source: every copied byte of the source that the copy does not
  itself overwrite is zero afterwards.  It is a correct move downwards over an
  overlapping region, which is how the descriptor maps use it.
\<close>

lemma memmove_loop_apply:
  fixes dst src x :: u64 and m :: memory
  assumes "n \<le> unat (dst - src)" and "k \<le> n" and "n \<le> 18446744073709551616"
  shows "for_loop k
      (\<lambda>i m. let m = m(dst + of_nat i := m (src + of_nat i)) in m(src + of_nat i := 0)) m x =
    (if unat (x - dst) < k then m (src + (x - dst))
     else if unat (x - src) < k then 0 else m x)"
  using assms(2)
proof (induction k arbitrary: x)
  case (Suc k)
  let ?c = "for_loop k
      (\<lambda>i m. let m = m(dst + of_nat i := m (src + of_nat i)) in m(src + of_nat i := 0)) m"
  have IH: "?c y = (if unat (y - dst) < k then m (src + (y - dst))
      else if unat (y - src) < k then 0 else m y)" for y
    by (rule Suc.IH) (use Suc.prems in simp)
  have k: "k < 18446744073709551616" using Suc.prems assms(3) by simp
  have hit: "dst + of_nat j \<noteq> src + of_nat k" if "j \<le> k" for j
  proof (cases "j = k")
    case True
    with assms(1) Suc.prems show ?thesis by auto
  next
    case False
    with that no_forward_hit [of dst src n k j] assms Suc.prems show ?thesis by auto
  qed
  have nlt: "\<not> unat (src + of_nat k - dst) < k"
  proof
    assume "unat (src + of_nat k - dst) < k"
    with hit [of "unat (src + of_nat k - dst)"] show False by simp
  qed
  then have src: "?c (src + of_nat k) = m (src + of_nat k)"
    unfolding IH using k by simp
  have step: "for_loop (Suc k)
      (\<lambda>i m. let m = m(dst + of_nat i := m (src + of_nat i)) in m(src + of_nat i := 0)) m x =
    (if x = src + of_nat k then 0 else if x = dst + of_nat k then m (src + of_nat k) else ?c x)"
    by (simp only: for_loop.simps(2) Let_def fun_upd_apply src [unfolded Let_def])
  show ?case
  proof (cases "x = src + of_nat k")
    case True
    then have "unat (x - dst) \<noteq> k" using hit [of k] k offset_eq_iff [of k x dst] by auto
    with True nlt k show ?thesis unfolding step by simp
  next
    case False
    then have ns: "unat (x - src) \<noteq> k" using offset_eq_iff [of k x src] k by auto
    show ?thesis
    proof (cases "x = dst + of_nat k")
      case True
      with False k show ?thesis unfolding step by simp
    next
      case nd: False
      then have "unat (x - dst) \<noteq> k" using offset_eq_iff [of k x dst] k by auto
      with False nd ns show ?thesis unfolding step IH by (simp add: less_Suc_eq)
    qed
  qed
qed simp

lemma memmove_apply:
  assumes "unat sz \<le> unat (dst - src)"
  shows "memmove dst src sz m x =
    (if in_region x dst (unat sz) then m (src + (x - dst))
     else if in_region x src (unat sz) then 0 else m x)"
  unfolding memmove_def in_region_def
  by (rule memmove_loop_apply [OF assms]) simp_all

lemma memcmp_from_iff:
  "memcmp_from i k b1 b2 m \<longleftrightarrow> (\<forall>j<k. m (b1 + of_nat (i + j)) = m (b2 + of_nat (i + j)))"
proof (induction k arbitrary: i)
  case (Suc k)
  have split: "(\<forall>j<Suc k. P (i + j)) \<longleftrightarrow> P i \<and> (\<forall>j<k. P (Suc i + j))" for P :: "nat \<Rightarrow> bool"
    by (auto simp: less_Suc_eq_0_disj)
  show ?case unfolding memcmp_from.simps Suc.IH
    by (subst split [of "\<lambda>k. m (b1 + of_nat k) = m (b2 + of_nat k)"]) simp
qed simp

lemma memcmp_iff: "memcmp b1 b2 len m \<longleftrightarrow> (\<forall>j<unat len. m (b1 + of_nat j) = m (b2 + of_nat j))"
  by (simp add: memcmp_def memcmp_from_iff)

section \<open>Little-endian loads and stores\<close>

primrec load_le :: "nat \<Rightarrow> memory \<Rightarrow> u64 \<Rightarrow> 'a::len word" where
  "load_le 0 m a = 0"
| "load_le (Suc n) m a = ucast (m a) OR push_bit 8 (load_le n m (a + 1))"

primrec store_le :: "nat \<Rightarrow> memory \<Rightarrow> u64 \<Rightarrow> 'a::len word \<Rightarrow> memory" where
  "store_le 0 m a v = m"
| "store_le (Suc n) m a v = store_le n (m(a := ucast v)) (a + 1) (drop_bit 8 v)"

lemma bit_load_le:
  "bit (load_le n m a :: 'a::len word) k \<longleftrightarrow>
    k < LENGTH('a) \<and> k < 8 * n \<and> bit (m (a + of_nat (k div 8))) (k mod 8)"
proof (induction n arbitrary: a k)
  case (Suc n)
  show ?case
  proof (cases "k < 8")
    case True
    then show ?thesis by (auto simp: bit_simps)
  next
    case False
    then have addr: "a + 1 + of_nat ((k - 8) div 8) = a + of_nat (k div 8)"
      and "(k - 8) mod 8 = k mod 8"
      by (auto simp: le_div_geq [of 8 k] le_mod_geq)
    moreover have "\<not> bit (m a) k" using False bit_imp_le_length [of "m a" k] by auto
    ultimately show ?thesis using False
      unfolding load_le.simps bit_or_iff bit_push_bit_iff Suc.IH addr
      by (auto simp: bit_simps)
  qed
qed simp

lemma store_le_apply:
  "n \<le> 18446744073709551616 \<Longrightarrow>
    store_le n m a v x = (if unat (x - a) < n then ucast (drop_bit (8 * unat (x - a)) v) else m x)"
proof (induction n arbitrary: m a v)
  case (Suc n)
  have IH: "store_le n m (a + 1) w x =
      (if unat (x - (a + 1)) < n then ucast (drop_bit (8 * unat (x - (a + 1))) w) else m x)"
    for m :: memory and w :: "'a word"
    by (rule Suc.IH) (use Suc.prems in simp)
  show ?case
  proof (cases "x = a")
    case True
    then have "x - (a + 1) = - 1" by simp
    then have "unat (x - (a + 1)) = 18446744073709551615"
      by (simp add: unsigned_minus_1_eq_mask mask_eq_exp_minus_1)
    then have "\<not> unat (x - (a + 1)) < n" using Suc.prems by simp
    then show ?thesis by (simp only: store_le.simps IH if_False) (simp add: True)
  next
    case False
    then have "x - a \<noteq> 0" by simp
    moreover have "1 + (x - (a + 1)) = x - a" by simp
    ultimately have u: "unat (x - a) = Suc (unat (x - (a + 1)))"
      by (metis unatSuc)
    from False show ?thesis
      by (simp only: store_le.simps IH u fun_upd_apply if_False drop_bit_drop_bit Suc_less_eq
          mult_Suc_right) (simp only: add.commute [of _ 8])
  qed
qed simp

lemma load_store_same:
  fixes v :: "'a::len word"
  assumes "n \<le> 18446744073709551616" and "LENGTH('a) \<le> 8 * n"
  shows "load_le n (store_le n m a v) a = v"
proof (rule bit_word_eqI)
  fix k assume k: "k < LENGTH('a)"
  then have q: "k div 8 < n" using assms(2) by (simp add: div_less_iff_less_mult mult.commute)
  then have "unat (a + of_nat (k div 8) - a) = k div 8" using assms(1) by simp
  with q k assms show "bit (load_le n (store_le n m a v) a :: 'a word) k = bit v k"
    by (simp add: bit_load_le store_le_apply bit_simps less_mult_imp_div_less)
qed

lemma load_le_cong:
  assumes "\<And>i. i < n \<Longrightarrow> m (a + of_nat i) = m' (a + of_nat i)"
  shows "load_le n m a = load_le n m' a"
  using assms by (auto intro!: bit_word_eqI simp: bit_load_le less_mult_imp_div_less mult.commute)

lemma load_store_other:
  assumes "n \<le> unat (b - a)" and "k \<le> unat (a - b)" and "n \<le> 18446744073709551616"
    and kb: "k \<le> 18446744073709551616"
  shows "load_le k (store_le n m a v) b = load_le k m b"
proof (rule load_le_cong)
  fix i assume i: "i < k"
  have "\<not> unat (b + of_nat i - a) < n"
  proof
    define j where "j = unat (b + of_nat i - a)"
    assume "unat (b + of_nat i - a) < n"
    then have j: "j < n" "a + of_nat j = b + of_nat i" by (simp_all add: j_def)
    show False
    proof (cases "i \<le> j")
      case True
      with offset_collision [OF j(2)] j(1) assms(1,3) show False by simp
    next
      case False
      with offset_collision [OF j(2) [symmetric]] i assms(2) kb show False by simp
    qed
  qed
  then show "store_le n m a v (b + of_nat i) = m (b + of_nat i)"
    using assms(3) by (simp add: store_le_apply)
qed

section \<open>Word-sized memories and the slots of aligned tables\<close>

text \<open>
  What the page-table code needs of memory: a 64-bit store is read back, and leaves
  alone what does not overlap it.  The slot \<open>i\<close> of a table of 512 entries at a
  page-aligned address never overlaps another slot of that table or of another one.
\<close>

definition load64 :: "memory \<Rightarrow> u64 \<Rightarrow> u64" where
  "load64 m a = load_le 8 m a"

definition store64 :: "memory \<Rightarrow> u64 \<Rightarrow> u64 \<Rightarrow> memory" where
  "store64 m a v = store_le 8 m a v"

definition page_aligned :: "u64 \<Rightarrow> bool" where
  "page_aligned a \<longleftrightarrow> unat a mod 4096 = 0"

definition slot :: "u64 \<Rightarrow> u16 \<Rightarrow> u64" where
  "slot t i = t + ucast i * 8"

lemma unat_slot:
  assumes "page_aligned t" and "i < 512"
  shows "unat (slot t i) = unat t + unat i * 8"
proof -
  have i: "unat i < 512" using assms(2) by (simp add: word_less_nat_alt)
  then have m: "unat (ucast i * 8 :: u64) = unat i * 8"
    using i by (simp add: unat_word_ariths(2))
  obtain p where p: "unat t = 4096 * p"
    using assms(1) unfolding page_aligned_def by (auto simp: mod_eq_0_iff_dvd)
  have "p < 4503599627370496" using unat_less_64 [of t] unfolding p by simp
  then have "unat t \<le> 18446744073709547520" unfolding p by simp
  with i have "unat t + unat (ucast i * 8 :: u64) < 2 ^ LENGTH(64)" unfolding m by simp
  from this [unfolded unat_add_lem] show ?thesis unfolding slot_def m .
qed

lemma slot_apart:
  assumes "page_aligned t" "i < 512" "page_aligned u" "j < 512" and "(t, i) \<noteq> (u, j)"
  shows "8 \<le> unat (slot t i - slot u j)"
proof -
  have i: "unat i < 512" and j: "unat j < 512"
    using assms(2,4) by (simp_all add: word_less_nat_alt)
  have ne: "unat t \<noteq> unat u \<or> unat i \<noteq> unat j"
    using assms(5) by (simp add: word_unat_eq_iff)
  obtain p where p: "unat t = 4096 * p"
    using assms(1) unfolding page_aligned_def by (auto simp: mod_eq_0_iff_dvd)
  obtain q where q: "unat u = 4096 * q"
    using assms(3) unfolding page_aligned_def by (auto simp: mod_eq_0_iff_dvd)
  have a: "unat (slot t i) = 8 * (512 * p + unat i)" "unat (slot u j) = 8 * (512 * q + unat j)"
    using assms by (simp_all add: unat_slot p q)
  have "512 * p + unat i \<noteq> 512 * q + unat j"
  proof
    assume eq: "512 * p + unat i = 512 * q + unat j"
    then have "(512 * p + unat i) mod 512 = (512 * q + unat j) mod 512" by simp
    with i j have "unat i = unat j" by simp
    with eq ne p q show False by simp
  qed
  then consider "unat (slot u j) + 8 \<le> unat (slot t i)" | "unat (slot t i) + 8 \<le> unat (slot u j)"
    by (cases "512 * p + unat i < 512 * q + unat j") (auto simp: a)
  then show ?thesis
  proof cases
    case 1
    then show ?thesis by (simp add: unat_sub word_le_nat_alt)
  next
    case 2
    have "512 * q + unat j < 2305843009213693952"
      using unat_less_64 [of "slot u j"] unfolding a(2) by simp
    then have "unat (slot u j) \<le> 18446744073709551608" unfolding a(2) by simp
    with 2 show ?thesis by (simp add: unat_sub_if_size word_size)
  qed
qed

locale word_store =
  fixes ld :: "'m \<Rightarrow> u64 \<Rightarrow> u64"
    and st :: "'m \<Rightarrow> u64 \<Rightarrow> u64 \<Rightarrow> 'm"
  assumes ld_st_same: "ld (st m a v) a = v"
    and ld_st_other: "8 \<le> unat (b - a) \<Longrightarrow> 8 \<le> unat (a - b) \<Longrightarrow> ld (st m a v) b = ld m b"
begin

lemma ld_st_slot:
  assumes "page_aligned t" "i < 512" "page_aligned u" "j < 512"
  shows "ld (st m (slot t i) v) (slot u j) = (if t = u \<and> i = j then v else ld m (slot u j))"
  using assms slot_apart [of t i u j] slot_apart [of u j t i] by (auto simp: ld_st_same intro: ld_st_other)

end

lemma load64_zero [simp]: "load64 (\<lambda>_. 0) a = 0"
  by (rule bit_eqI) (simp add: load64_def bit_load_le)

interpretation bytes: word_store load64 store64
  by unfold_locales (simp_all add: load64_def store64_def load_store_same load_store_other)

section \<open>Blocks of memory\<close>

text \<open>The \<open>a\<close> bytes at \<open>x\<close> and the \<open>b\<close> bytes at \<open>y\<close> do not overlap.\<close>

definition blocks_apart :: "u64 \<Rightarrow> nat \<Rightarrow> u64 \<Rightarrow> nat \<Rightarrow> bool" where
  "blocks_apart x a y b \<longleftrightarrow> b \<le> unat (x - y) \<and> a \<le> unat (y - x)"

lemma blocks_apart_sym: "blocks_apart x a y b \<Longrightarrow> blocks_apart y b x a"
  by (simp add: blocks_apart_def)

lemma blocks_apart_field:
  assumes "blocks_apart x a y b" and "unat i + k \<le> a" and "unat j + l \<le> b" and "0 < k" and "0 < l"
  shows "blocks_apart (x + i) k (y + j) l"
proof -
  let ?N = "18446744073709551616 :: nat"
  define d where "d = unat (x - y)"
  have b: "b \<le> d" and a: "a \<le> unat (y - x)" using assms(1) by (simp_all add: blocks_apart_def d_def)
  have "d \<noteq> 0" using assms b by linarith
  then have "x - y \<noteq> 0" by (auto simp: d_def)
  from unat_uminus_64 [OF this] have "unat (y - x) = ?N - d" by (simp add: d_def)
  with a have ad: "a \<le> ?N - d" by simp
  have dN: "d < ?N" by (simp add: d_def)
  have ij: "j \<le> (x - y) + i \<and> unat ((x - y) + i) = d + unat i"
  proof -
    have "unat (x - y) + unat i < ?N" using ad assms(2,4) dN unfolding d_def by linarith
    then have "unat ((x - y) + i) = d + unat i" by (simp add: unat_add_64 d_def)
    moreover have "unat j \<le> d + unat i" using b assms(3) by linarith
    ultimately show ?thesis by (simp add: word_le_nat_alt)
  qed
  have "unat ((x + i) - (y + j)) = unat (((x - y) + i) - j)" by (simp add: algebra_simps)
  also have "\<dots> = d + unat i - unat j" using ij by (metis unat_sub)
  finally have e: "unat ((x + i) - (y + j)) = d + unat i - unat j" .
  have "unat ((x + i) - (y + j)) \<noteq> 0" unfolding e using b assms(3,5) by linarith
  then have nz: "(x + i) - (y + j) \<noteq> 0" by (metis unat_0)
  have "unat ((y + j) - (x + i)) = ?N - (d + unat i - unat j)" using unat_uminus_64 [OF nz] e by simp
  then show ?thesis unfolding blocks_apart_def e using b ad assms(2-5) by linarith
qed

lemma blocks_apart_notin:
  "blocks_apart x a y b \<Longrightarrow> j < b \<Longrightarrow> b \<le> 18446744073709551616 \<Longrightarrow> \<not> in_region (y + of_nat j) x a"
  using blocks_apart_field [of x a y b 0 a "of_nat j" 1]
  by (cases "a = 0") (auto simp: in_region_def blocks_apart_def unat_of_nat_64)

end
