(* ===== verification/Layouts.thy ===== *)
theory Layouts
  imports Mem_Ops
begin

text \<open>
  How C structures lie in memory, by the rules of the System V ABI for x86-64 that the kernel
  is compiled for: a member starts at the next multiple of its alignment, a bit-field at the
  next bit unless it would cross a boundary of its declared type, a packed structure has no
  padding between its members, and the size is rounded up to the alignment.  Positions are
  counted in bits.
\<close>

section \<open>Types\<close>

named_theorems layouts \<open>what is unfolded to compute a layout\<close>

text \<open>A member of a structure has a name, the width of a bit-field if it is one, and a type.\<close>

datatype ctype =
    Scalar nat
  | Array nat ctype
  | Struct bool "(string \<times> nat option \<times> ctype) list"
  | Union "(string \<times> ctype) list"

definition mem :: "string \<Rightarrow> ctype \<Rightarrow> string \<times> nat option \<times> ctype" where [layouts]:
  "mem f t = (f, None, t)"

definition bits :: "string \<Rightarrow> nat \<Rightarrow> ctype \<Rightarrow> string \<times> nat option \<times> ctype" where [layouts]:
  "bits f w t = (f, Some w, t)"

definition packed :: "(string \<times> nat option \<times> ctype) list \<Rightarrow> ctype" where [layouts]:
  "packed fs = Struct True fs"

definition struct :: "(string \<times> nat option \<times> ctype) list \<Rightarrow> ctype" where [layouts]:
  "struct fs = Struct False fs"

text \<open>The scalar types of \<^verbatim>\<open>include/types.h\<close>, pointers and enumerations without negative values.\<close>

definition uint8_t :: ctype where [layouts]: "uint8_t = Scalar 1"
definition uint16_t :: ctype where [layouts]: "uint16_t = Scalar 2"
definition uint32_t :: ctype where [layouts]: "uint32_t = Scalar 4"
definition uint64_t :: ctype where [layouts]: "uint64_t = Scalar 8"
definition bool_t :: ctype where [layouts]: "bool_t = uint8_t"
definition char_t :: ctype where [layouts]: "char_t = Scalar 1"
definition pointer :: ctype where [layouts]: "pointer = Scalar 8"
definition enum :: ctype where [layouts]: "enum = Scalar 4"

section \<open>Layout\<close>

definition align_up :: "nat \<Rightarrow> nat \<Rightarrow> nat" where [layouts]:
  "align_up a n = (n + a - 1) div a * a"

text \<open>The first bit of a member of \<open>n\<close> bytes and alignment \<open>a\<close>, a bit-field when \<open>w\<close> is its width, and its number of bits.\<close>

fun first_bit :: "bool \<Rightarrow> nat \<Rightarrow> nat option \<Rightarrow> nat \<Rightarrow> nat \<Rightarrow> nat" where
  "first_bit p pos None n a = align_up (8 * (if p then 1 else a)) pos"
| "first_bit p pos (Some w) n a =
     (if \<not> p \<and> pos div (8 * n) \<noteq> (pos + w - 1) div (8 * n) then align_up (8 * n) pos else pos)"

fun bit_count :: "nat option \<Rightarrow> nat \<Rightarrow> nat" where
  "bit_count None n = 8 * n"
| "bit_count (Some w) n = w"

text \<open>The members with their first bit and number of bits, from the sizes and alignments of their types.\<close>

fun place_members :: "bool \<Rightarrow> nat \<Rightarrow> (string \<times> nat option \<times> nat \<times> nat) list \<Rightarrow> (string \<times> nat \<times> nat) list" where
  "place_members p pos [] = []"
| "place_members p pos ((f, w, n, a) # fs) =
     (f, first_bit p pos w n a, bit_count w n) # place_members p (first_bit p pos w n a + bit_count w n) fs"

fun end_of :: "nat \<Rightarrow> (string \<times> nat \<times> nat) list \<Rightarrow> nat" where
  "end_of pos [] = pos"
| "end_of pos ((f, b, w) # ms) = end_of (b + w) ms"

definition struct_alignment :: "bool \<Rightarrow> (string \<times> nat option \<times> nat \<times> nat) list \<Rightarrow> nat" where [layouts]:
  "struct_alignment p fs = (if p then 1 else foldr (\<lambda>(_, _, _, a). max a) fs 1)"

definition struct_dims :: "bool \<Rightarrow> (string \<times> nat option \<times> nat \<times> nat) list \<Rightarrow> nat \<times> nat" where [layouts]:
  "struct_dims p fs =
     (align_up (8 * struct_alignment p fs) (end_of 0 (place_members p 0 fs)) div 8, struct_alignment p fs)"

definition union_dims :: "(string \<times> nat \<times> nat) list \<Rightarrow> nat \<times> nat" where [layouts]:
  "union_dims fs =
     (align_up (foldr (\<lambda>(_, _, a). max a) fs 1) (foldr (\<lambda>(_, n, _). max n) fs 0), foldr (\<lambda>(_, _, a). max a) fs 1)"

text \<open>Size and alignment of a type in bytes.\<close>

primrec dims :: "ctype \<Rightarrow> nat \<times> nat" where
  "dims (Scalar n) = (n, n)"
| "dims (Array k t) = (k * fst (dims t), snd (dims t))"
| "dims (Struct p fs) = struct_dims p (map (map_prod id (map_prod id dims)) fs)"
| "dims (Union fs) = union_dims (map (map_prod id dims) fs)"

definition sizeof :: "ctype \<Rightarrow> nat" where [layouts]:
  "sizeof t = fst (dims t)"

fun members :: "ctype \<Rightarrow> (string \<times> nat \<times> nat) list" where
  "members (Struct p fs) = place_members p 0 (map (map_prod id (map_prod id dims)) fs)"
| "members (Union fs) = map (\<lambda>(f, t). (f, 0, 8 * sizeof t)) fs"
| "members t = []"

text \<open>The byte at which a member starts, and its value in memory.\<close>

definition offset_of :: "ctype \<Rightarrow> string \<Rightarrow> nat option" where [layouts]:
  "offset_of t f = map_option (\<lambda>(b, w). b div 8) (map_of (members t) f)"

definition load_member :: "ctype \<Rightarrow> string \<Rightarrow> memory \<Rightarrow> u64 \<Rightarrow> 'a::len word option" where
  "load_member t f m a = map_option (\<lambda>(b, w). load_le (w div 8) m (a + of_nat (b div 8))) (map_of (members t) f)"

section \<open>Members do not overlap\<close>

lemma le_align_up: "0 < a \<Longrightarrow> n \<le> align_up a n"
proof -
  assume "0 < a"
  then have "(n + a - 1) mod a + (n + a - 1) div a * a = n + a - 1" "(n + a - 1) mod a < a" by simp_all
  then show ?thesis unfolding align_up_def by linarith
qed

lemma align_up_dvd: "a dvd align_up a n"
  by (simp add: align_up_def)

definition positive :: "(string \<times> nat option \<times> nat \<times> nat) list \<Rightarrow> bool" where
  "positive fs \<longleftrightarrow> (\<forall>(f, w, n, a) \<in> set fs. 0 < a \<and> (w \<noteq> None \<longrightarrow> 0 < n))"

lemma positive_Cons: "positive ((f, w, n, a) # fs) \<longleftrightarrow> 0 < a \<and> (w \<noteq> None \<longrightarrow> 0 < n) \<and> positive fs"
  by (simp add: positive_def)

text \<open>
  Placed from \<open>pos\<close> on, the members lie between \<open>pos\<close> and the end, one behind the other.
\<close>

definition ordered_between :: "nat \<Rightarrow> nat \<Rightarrow> (string \<times> nat \<times> nat) list \<Rightarrow> bool" where
  "ordered_between lo hi ms \<longleftrightarrow> lo \<le> hi \<and> sorted_wrt (\<lambda>(_, b, w) (_, c, _). b + w \<le> c) ms \<and>
     (\<forall>(_, b, w) \<in> set ms. lo \<le> b \<and> b + w \<le> hi)"

lemma ordered_between_Cons:
  "ordered_between (b + w) hi ms \<Longrightarrow> lo \<le> b \<Longrightarrow> ordered_between lo hi ((f, b, w) # ms)"
  by (fastforce simp: ordered_between_def)

lemma le_first_bit: "0 < a \<Longrightarrow> (w \<noteq> None \<longrightarrow> 0 < n) \<Longrightarrow> pos \<le> first_bit p pos w n a"
  by (cases w) (simp_all add: le_align_up)

lemma place_members_ordered: "positive fs \<Longrightarrow> ordered_between pos (end_of pos (place_members p pos fs)) (place_members p pos fs)"
  by (induction p pos fs rule: place_members.induct)
    (simp_all add: positive_Cons ordered_between_Cons le_first_bit, simp add: ordered_between_def)

text \<open>
  The members of a structure do not overlap and lie inside of it, and its size is a multiple
  of its alignment, so that all elements of an array of structures are aligned.
\<close>

lemma struct_members_apart:
  assumes "positive (map (map_prod id (map_prod id dims)) fs)"
  shows "ordered_between 0 (8 * sizeof (Struct p fs)) (members (Struct p fs))"
    and "snd (dims (Struct p fs)) dvd sizeof (Struct p fs)"
proof -
  let ?fs = "map (map_prod id (map_prod id dims)) fs"
  define a where "a = struct_alignment p ?fs"
  have "0 < foldr (\<lambda>(_, _, _, a). max a) gs (1 :: nat)" for gs :: "(string \<times> nat option \<times> nat \<times> nat) list"
    by (induction gs) (auto simp: less_max_iff_disj)
  from this [of ?fs] have a: "0 < a"
    by (cases p) (simp_all only: a_def struct_alignment_def if_True if_False zero_less_one)
  let ?e = "end_of 0 (place_members p 0 ?fs)"
  have size: "sizeof (Struct p fs) = align_up (8 * a) ?e div 8" "snd (dims (Struct p fs)) = a"
    by (simp_all only: sizeof_def dims.simps struct_dims_def a_def fst_conv snd_conv)
  obtain k where k: "align_up (8 * a) ?e = 8 * (a * k)"
    using align_up_dvd [of "8 * a" ?e] by (metis dvdE mult.assoc)
  then show "snd (dims (Struct p fs)) dvd sizeof (Struct p fs)"
    by (simp only: size) simp
  have "?e \<le> align_up (8 * a) ?e" using a by (intro le_align_up) simp
  moreover have "8 * sizeof (Struct p fs) = align_up (8 * a) ?e"
    by (simp only: size k) simp
  moreover note place_members_ordered [OF assms, of 0 p]
  ultimately show "ordered_between 0 (8 * sizeof (Struct p fs)) (members (Struct p fs))"
    by (fastforce simp: ordered_between_def)
qed

text \<open>Two different members occupy different bits.\<close>

lemma ordered_between_apart:
  "ordered_between lo hi ms \<Longrightarrow> i < j \<Longrightarrow> j < length ms \<Longrightarrow>
   fst (snd (ms ! i)) + snd (snd (ms ! i)) \<le> fst (snd (ms ! j))"
  by (auto simp: ordered_between_def sorted_wrt_iff_nth_less case_prod_beta)

end
