(* ===== verification/Obj_Alloc.thy ===== *)
theory Obj_Alloc
  imports Mem_Ops
begin

text \<open>
  The object pools of \<^verbatim>\<open>mm/obj_alloc.c\<close>, except \<^verbatim>\<open>create_obj_pool\<close>, which allocates pages
  and stands in \<open>Memory_Manager\<close>.

  The table \<^verbatim>\<open>obj_pools\<close> and its fill level are a \<open>pool_table\<close>.  The memory of a pool is
  the list of its objects: the object at \<^verbatim>\<open>base + obj_size * i\<close> is element \<open>i\<close>, and a
  pointer to an object of the pool is that index.  \<open>z\<close> is the object whose bytes are all
  0, the result of a \<^verbatim>\<open>memclear\<close>.  An access outside the list is \<open>None\<close>.  The product
  \<^verbatim>\<open>obj_size * index\<close>, which C computes in 32 bits, is not wrapped: a pool of 4 GiB and more is
  not modelled.  The theorem
  \<open>objects_memmove\<close> relates the moves of objects to the bytes of \<open>Mem_Ops\<close>.
\<close>

type_synonym pool_t = u8

datatype object_pool_type = manual | stack | queue

record object_pool_descriptor_t =
  pool_base :: u64
  obj_size :: u32
  pool_size :: u32
  pool_id :: pool_t
  top_index :: u32
  bottom_index :: u32
  pool_type :: object_pool_type

record pool_table =
  obj_pools :: "object_pool_descriptor_t list"
  obj_pools_index :: u32

definition OBJECT_POOL_MAX_POOLS :: u32 where [c_macros]: "OBJECT_POOL_MAX_POOLS = 32"

definition MMAP_POOL_MEMORY_SIZE :: u64 where [c_macros]: "MMAP_POOL_MEMORY_SIZE = PAGE_SIZE"

section \<open>Copies of whole objects\<close>

text \<open>\<^verbatim>\<open>memcpy\<close> of one object into the pool, \<^verbatim>\<open>memclear\<close> and \<^verbatim>\<open>memmove\<close> of \<open>n\<close> objects.\<close>

definition obj_store :: "nat \<Rightarrow> 'a \<Rightarrow> 'a list \<Rightarrow> 'a list option" where
  "obj_store i x xs = (if i < length xs then Some (xs[i := x]) else None)"

definition obj_load :: "nat \<Rightarrow> 'a list \<Rightarrow> 'a option" where
  "obj_load i xs = (if i < length xs then Some (xs ! i) else None)"

definition obj_clear :: "'a \<Rightarrow> nat \<Rightarrow> nat \<Rightarrow> 'a list \<Rightarrow> 'a list option" where
  "obj_clear z i n xs =
     (if n = 0 \<or> i + n \<le> length xs then Some (for_loop n (\<lambda>k xs. xs[i + k := z]) xs) else None)"

definition obj_move :: "'a \<Rightarrow> nat \<Rightarrow> nat \<Rightarrow> nat \<Rightarrow> 'a list \<Rightarrow> 'a list option" where
  "obj_move z dst src n xs =
     (if n = 0 \<or> dst + n \<le> length xs \<and> src + n \<le> length xs
      then Some (for_loop n (\<lambda>k xs. xs[dst + k := xs ! (src + k), src + k := z]) xs) else None)"

section \<open>The operations\<close>

text \<open>The descriptor that the zeroed table \<^verbatim>\<open>obj_pools\<close> holds (\<^verbatim>\<open>manual\<close> is 0).\<close>

definition zero_pool :: object_pool_descriptor_t where
  "zero_pool = \<lparr>pool_base = null, obj_size = 0, pool_size = 0, pool_id = 0, top_index = 0,
     bottom_index = 0, pool_type = manual\<rparr>"

text \<open>The size of a \<^verbatim>\<open>leokernel_memory_descriptor_t\<close> is 32 bytes.\<close>

definition init_first_pool :: "u64 \<Rightarrow> pool_table \<Rightarrow> pool_table" where
  "init_first_pool base t = t\<lparr>obj_pools := (obj_pools t)[0 :=
     \<lparr>pool_base = base, obj_size = 32, pool_size = ucast (MMAP_POOL_MEMORY_SIZE div 32),
      pool_id = 0, top_index = 0, bottom_index = 0, pool_type = manual\<rparr>]\<rparr>"

text \<open>
  \<^verbatim>\<open>obj_alloc_init\<close> returns the id of the first pool; \<open>mmap_pool_memory\<close> is the address of
  the static array, whose objects it clears.
\<close>

definition obj_alloc_init :: "u64 \<Rightarrow> 'a \<Rightarrow> bool \<times> pool_t \<times> pool_table \<times> 'a list" where
  "obj_alloc_init mmap_pool_memory z =
     (let t = \<lparr>obj_pools = replicate (unat OBJECT_POOL_MAX_POOLS) zero_pool, obj_pools_index = 0\<rparr>;
          xs = replicate (unat (MMAP_POOL_MEMORY_SIZE div 32)) z;
          t = init_first_pool mmap_pool_memory t;
          t = t\<lparr>obj_pools_index := 1\<rparr>
      in (True, 0, t, xs))"

definition get_pool :: "pool_t \<Rightarrow> pool_table \<Rightarrow> object_pool_descriptor_t option" where
  "get_pool pid t = obj_load (unat pid) (obj_pools t)"

definition set_pool :: "pool_t \<Rightarrow> object_pool_descriptor_t \<Rightarrow> pool_table \<Rightarrow> pool_table" where
  "set_pool pid d t = t\<lparr>obj_pools := (obj_pools t)[unat pid := d]\<rparr>"

definition obj_pool_put ::
  "'a \<Rightarrow> pool_t \<Rightarrow> 'a \<Rightarrow> u32 \<Rightarrow> pool_table \<Rightarrow> 'a list \<Rightarrow> (bool \<times> pool_table \<times> 'a list) option" where
  "obj_pool_put z pid obj obj_index t xs =
     (if obj_pools_index t \<le> ucast pid then Some (False, t, xs)
      else do {
        pool \<leftarrow> get_pool pid t;
        if pool_size pool \<le> obj_index \<and> pool_type pool = manual then Some (False, t, xs)
        else case pool_type pool of
          manual \<Rightarrow> do {
            xs \<leftarrow> obj_store (unat obj_index) obj xs;
            Some (True, t, xs) }
        | stack \<Rightarrow>
            if top_index pool = pool_size pool then Some (False, t, xs)
            else do {
              xs \<leftarrow> obj_store (unat (top_index pool)) obj xs;
              Some (True, set_pool pid (pool\<lparr>top_index := top_index pool + 1\<rparr>) t, xs) }
        | queue \<Rightarrow>
            if top_index pool < pool_size pool then do {
              xs \<leftarrow> obj_store (unat (top_index pool)) obj xs;
              Some (True, set_pool pid (pool\<lparr>top_index := top_index pool + 1\<rparr>) t, xs) }
            else if 0 < bottom_index pool then do {
              xs \<leftarrow> obj_move z 0 (unat (bottom_index pool)) (unat (top_index pool - bottom_index pool)) xs;
              let tp = top_index pool - bottom_index pool;
              xs \<leftarrow> obj_store (unat tp) obj xs;
              Some (True, set_pool pid (pool\<lparr>top_index := tp + 1, bottom_index := 0\<rparr>) t, xs) }
            else Some (False, t, xs) })"

text \<open>The pointer written to \<^verbatim>\<open>*obj\<close> is the index of an object, \<open>None\<close> is \<^verbatim>\<open>null\<close>.\<close>

definition obj_pool_get ::
  "pool_t \<Rightarrow> u32 \<Rightarrow> pool_table \<Rightarrow> (bool \<times> nat option \<times> pool_table) option" where
  "obj_pool_get pid obj_index t =
     (if obj_pools_index t \<le> ucast pid then Some (False, None, t)
      else do {
        pool \<leftarrow> get_pool pid t;
        if pool_size pool \<le> obj_index \<and> pool_type pool = manual then Some (False, None, t)
        else case pool_type pool of
          manual \<Rightarrow> Some (True, Some (unat obj_index), t)
        | stack \<Rightarrow>
            if top_index pool = 0 then Some (False, None, t)
            else Some (True, Some (unat (top_index pool - 1)),
                   set_pool pid (pool\<lparr>top_index := top_index pool - 1\<rparr>) t)
        | queue \<Rightarrow>
            if bottom_index pool = pool_size pool then Some (False, None, t)
            else Some (True, Some (unat (bottom_index pool)),
                   set_pool pid (pool\<lparr>bottom_index := bottom_index pool + 1\<rparr>) t) })"

definition obj_pool_flush ::
  "'a \<Rightarrow> pool_t \<Rightarrow> pool_table \<Rightarrow> 'a list \<Rightarrow> (bool \<times> pool_table \<times> 'a list) option" where
  "obj_pool_flush z pid t xs =
     (if obj_pools_index t \<le> ucast pid then Some (False, t, xs)
      else do {
        pool \<leftarrow> get_pool pid t;
        xs \<leftarrow> obj_clear z 0 (unat (pool_size pool)) xs;
        Some (True, set_pool pid (pool\<lparr>top_index := 0, bottom_index := 0\<rparr>) t, xs) })"

text \<open>
  The loops of \<^verbatim>\<open>obj_pool_pack\<close>.  The inner one looks for the next object that is not all
  zero.  When it is moved down, \<^verbatim>\<open>i--\<close> followed by the \<^verbatim>\<open>i++\<close> of the loop stays at the same
  \<open>i\<close> (for \<open>i = 0\<close> by wrapping around).
\<close>

fun first_object :: "'a \<Rightarrow> nat \<Rightarrow> nat \<Rightarrow> 'a list \<Rightarrow> nat option" where
  "first_object z j 0 xs = None"
| "first_object z j (Suc k) xs = (if xs ! j \<noteq> z then Some j else first_object z (Suc j) k xs)"

lemma first_object_Some:
  "first_object z j k xs = Some m \<Longrightarrow> j \<le> m \<and> m < j + k \<and> xs ! m \<noteq> z \<and> (\<forall>l. j \<le> l \<and> l < m \<longrightarrow> xs ! l = z)"
proof (induction k arbitrary: j)
  case (Suc k)
  show ?case
  proof (cases "xs ! j = z")
    case True
    with Suc.prems Suc.IH [of "Suc j"] have *: "Suc j \<le> m" "m < Suc j + k" "xs ! m \<noteq> z"
      "\<forall>l. Suc j \<le> l \<and> l < m \<longrightarrow> xs ! l = z" by auto
    then have "xs ! l = z" if "j \<le> l" "l < m" for l
      using that True by (cases "l = j") auto
    with * show ?thesis by auto
  qed (use Suc.prems in auto)
qed simp

lemma first_object_None:
  "first_object z j k xs = None \<longleftrightarrow> (\<forall>l. j \<le> l \<and> l < j + k \<longrightarrow> xs ! l = z)"
proof (induction k arbitrary: j)
  case (Suc k)
  have "(\<forall>l. j \<le> l \<and> l < j + Suc k \<longrightarrow> xs ! l = z) \<longleftrightarrow>
      xs ! j = z \<and> (\<forall>l. Suc j \<le> l \<and> l < Suc j + k \<longrightarrow> xs ! l = z)"
    by (auto simp: Suc_le_eq order_le_less [of j])
  then show ?case by (simp add: Suc.IH)
qed auto

function pack_from :: "'a \<Rightarrow> nat \<Rightarrow> nat \<Rightarrow> u32 \<Rightarrow> 'a list \<Rightarrow> u32 \<times> 'a list" where
  "pack_from z i n tp xs =
     (if i < n \<and> n < length xs
      then if xs ! i \<noteq> z then pack_from z (Suc i) n tp xs
           else case first_object z (Suc i) (n - i) xs of
             None \<Rightarrow> (tp, xs)
           | Some j \<Rightarrow> pack_from z i n (of_nat i + 1) (xs[i := xs ! j, j := z])
      else (tp, xs))"
  by pat_completeness auto
termination
proof (relation "measure (\<lambda>(z, i, n, tp, xs). 2 * (n - i) + (if xs ! i = z then 1 else 0))", goal_cases)
  case (3 z i n tp xs j)
  with first_object_Some [of z "Suc i" "n - i" xs j] show ?case by auto
qed auto

declare pack_from.simps [simp del]

text \<open>
  \<^verbatim>\<open>pool_size - 1\<close> wraps for an empty pool, and the loop then reads outside the pool, as it
  does for a pool whose memory is smaller than its descriptor says.
\<close>

definition obj_pool_pack ::
  "'a \<Rightarrow> pool_t \<Rightarrow> pool_table \<Rightarrow> 'a list \<Rightarrow> (bool \<times> pool_table \<times> 'a list) option" where
  "obj_pool_pack z pid t xs =
     (if obj_pools_index t \<le> ucast pid then Some (False, t, xs)
      else do {
        pool \<leftarrow> get_pool pid t;
        if pool_type pool = stack then Some (False, t, xs)
        else do {
          xs \<leftarrow> (if pool_type pool = queue
                then do {
                  xs \<leftarrow> obj_clear z 0 (unat (bottom_index pool)) xs;
                  obj_clear z (unat (top_index pool)) (unat (pool_size pool - top_index pool)) xs }
                else Some xs);
          if length xs \<le> unat (pool_size pool - 1) then None
          else let (tp, xs) = pack_from z 0 (unat (pool_size pool - 1)) (top_index pool) xs
               in Some (True, set_pool pid (pool\<lparr>bottom_index := 0, top_index := tp\<rparr>) t, xs) } })"

definition obj_pool_change_type ::
  "'a \<Rightarrow> pool_t \<Rightarrow> object_pool_type \<Rightarrow> pool_table \<Rightarrow> 'a list \<Rightarrow> (bool \<times> pool_table \<times> 'a list) option" where
  "obj_pool_change_type z pid new_type t xs =
     (if obj_pools_index t \<le> ucast pid then Some (False, t, xs)
      else do {
        pool \<leftarrow> get_pool pid t;
        let pool = pool\<lparr>pool_type := new_type\<rparr>;
        (case new_type of
           manual \<Rightarrow> Some (True, set_pool pid (pool\<lparr>bottom_index := 0, top_index := 0\<rparr>) t, xs)
         | _ \<Rightarrow> obj_pool_pack z pid (set_pool pid pool t) xs) })"

end
