(* ===== verification/Obj_Alloc_Props.thy ===== *)
theory Obj_Alloc_Props
  imports Obj_Alloc
begin

text \<open>
  The contracts of the object pools: a stack returns the objects last in first out, a
  queue first in first out, a manual pool is an array.  The contracts are locales; they
  are interpreted on \<^verbatim>\<open>obj_pool_put\<close> and \<^verbatim>\<open>obj_pool_get\<close> for pools of the three types.
  Packing a pool keeps its objects in their order.  The last part states what the code
  does outside these contracts: an empty queue that is read, a change of type.
\<close>

section \<open>Moving objects\<close>

lemma obj_move_loop:
  assumes "dst < src" and "src + n \<le> length xs"
  shows "length (for_loop n (\<lambda>k xs. xs[dst + k := xs ! (src + k), src + k := z]) xs) = length xs \<and>
    (\<forall>j<length xs. for_loop n (\<lambda>k xs. xs[dst + k := xs ! (src + k), src + k := z]) xs ! j =
      (if dst \<le> j \<and> j < dst + n then xs ! (src + (j - dst))
       else if src \<le> j \<and> j < src + n then z else xs ! j))"
  using assms(2)
proof (induction n)
  case (Suc n)
  let ?c = "for_loop n (\<lambda>k xs. xs[dst + k := xs ! (src + k), src + k := z]) xs"
  have len: "length ?c = length xs"
    and IH: "\<And>j. j < length xs \<Longrightarrow> ?c ! j = (if dst \<le> j \<and> j < dst + n then xs ! (src + (j - dst))
       else if src \<le> j \<and> j < src + n then z else xs ! j)"
    using Suc.IH Suc.prems by auto
  have "?c ! (src + n) = xs ! (src + n)" using IH [of "src + n"] Suc.prems assms(1) by auto
  then have step: "for_loop (Suc n) (\<lambda>k xs. xs[dst + k := xs ! (src + k), src + k := z]) xs =
      ?c[dst + n := xs ! (src + n), src + n := z]" by simp
  show ?case unfolding step using len IH Suc.prems assms(1)
    by (auto simp: nth_list_update less_Suc_eq)
qed auto

lemma obj_move_down:
  assumes "dst < src" and "src + n \<le> length xs"
  obtains ys where "obj_move z dst src n xs = Some ys" "length ys = length xs"
    "\<And>j. j < length xs \<Longrightarrow> ys ! j = (if dst \<le> j \<and> j < dst + n then xs ! (src + (j - dst))
       else if src \<le> j \<and> j < src + n then z else xs ! j)"
  using obj_move_loop [OF assms, of z] assms by (auto simp: obj_move_def)

lemma obj_clear_nth:
  assumes "i + n \<le> length xs"
  obtains ys where "obj_clear z i n xs = Some ys" "length ys = length xs"
    "\<And>j. j < length xs \<Longrightarrow> ys ! j = (if i \<le> j \<and> j < i + n then z else xs ! j)"
proof -
  have "length (for_loop n (\<lambda>k xs. xs[i + k := z]) xs) = length xs \<and>
    (\<forall>j<length xs. for_loop n (\<lambda>k xs. xs[i + k := z]) xs ! j =
      (if i \<le> j \<and> j < i + n then z else xs ! j))"
    using assms by (induction n) (auto simp: nth_list_update)
  with assms that show thesis by (auto simp: obj_clear_def)
qed

text \<open>The same move on the bytes of the objects: \<open>objects m a w n\<close> are the \<open>n\<close> objects of
  \<open>w\<close> bytes from address \<open>a\<close> on.\<close>

definition obj_bytes :: "memory \<Rightarrow> u64 \<Rightarrow> nat \<Rightarrow> u8 list" where
  "obj_bytes m a w = map (\<lambda>k. m (a + of_nat k)) [0..<w]"

definition objects :: "memory \<Rightarrow> u64 \<Rightarrow> nat \<Rightarrow> nat \<Rightarrow> u8 list list" where
  "objects m a w n = map (\<lambda>i. obj_bytes m (a + of_nat (i * w)) w) [0..<n]"

lemma unat_offset_diff:
  fixes a :: u64
  assumes "p < 18446744073709551616" and "d < 18446744073709551616"
  shows "unat ((a + of_nat p) - (a + of_nat d)) =
    (if d \<le> p then p - d else 18446744073709551616 - (d - p))"
proof (cases "d \<le> p")
  case True
  then have "a + of_nat p - (a + of_nat d) = of_nat (p - d)" by (simp add: of_nat_diff)
  moreover have "p - d < 18446744073709551616" using assms(1) by linarith
  ultimately show ?thesis using True by (metis unat_of_nat_64)
next
  case False
  then have eq: "a + of_nat p - (a + of_nat d) = - of_nat (d - p)" by (simp add: of_nat_diff)
  have u: "unat (of_nat (d - p) :: u64) = d - p"
    by (rule unat_of_nat_64) (use assms(2) in linarith)
  then have nz: "(of_nat (d - p) :: u64) \<noteq> 0" using False by (metis unat_0 zero_less_diff not_le less_numeral_extra(3))
  then show ?thesis using False unfolding eq unat_uminus_64 [OF nz] u by simp
qed

lemma region_offset:
  assumes "d + n \<le> l" and "p < l" and "l < 18446744073709551616"
  shows "in_region (a + of_nat p) (a + of_nat d) n \<longleftrightarrow> d \<le> p \<and> p < d + n"
proof -
  have "p < 18446744073709551616" "d < 18446744073709551616" using assms by linarith+
  note u = unat_offset_diff [OF this, of a]
  show ?thesis unfolding in_region_def u using assms by auto
qed

lemma block_index: "k < w \<Longrightarrow> d * w \<le> i * w + k \<and> i * w + k < d * w + n * w \<longleftrightarrow> d \<le> i \<and> i < d + n"
  for i w :: nat
proof -
  assume k: "k < w"
  have "d * w \<le> i * w + k \<longleftrightarrow> d \<le> i"
    using k less_eq_div_iff_mult_less_eq [of w d "i * w + k"] by simp
  moreover have "i * w + k < (d + n) * w \<longleftrightarrow> i < d + n"
    using k div_less_iff_less_mult [of w "i * w + k" "d + n"] by simp
  ultimately show ?thesis by (simp add: algebra_simps)
qed

lemma objects_nth [simp]:
  "i < n \<Longrightarrow> objects m a w n ! i = obj_bytes m (a + of_nat (i * w)) w"
  "length (objects m a w n) = n" "length (obj_bytes m a w) = w"
  "k < w \<Longrightarrow> obj_bytes m a w ! k = m (a + of_nat k)"
  by (simp_all add: objects_def obj_bytes_def)

lemma objects_memmove:
  assumes "dst < src" and "src + n \<le> l" and l: "l * w < 18446744073709551616"
  shows "obj_move (replicate w 0) dst src n (objects m a w l) =
    Some (objects (memmove (a + of_nat (dst * w)) (a + of_nat (src * w)) (of_nat (n * w)) m) a w l)"
proof -
  let ?d = "a + of_nat (dst * w)" and ?s = "a + of_nat (src * w)"
  have nw: "src * w + n * w \<le> l * w" using mult_le_mono1 [OF assms(2), of w] by (simp add: algebra_simps)
  have dw: "dst * w + n * w \<le> l * w" using nw mult_le_mono1 [of dst src w] assms(1) by linarith
  have u: "unat (of_nat (n * w) :: u64) = n * w" using nw l by (subst unat_of_nat_64) auto
  have ov: "unat (of_nat (n * w) :: u64) \<le> unat (?d - ?s)"
  proof -
    have "dst * w < 18446744073709551616" "src * w < 18446744073709551616" using nw dw l by linarith+
    note d = unat_offset_diff [OF this, of a]
    show ?thesis
    proof (cases "w = 0")
      case False
      then have "\<not> src * w \<le> dst * w" using assms(1) by simp
      then show ?thesis unfolding u d using nw dw l by auto
    qed (simp add: u)
  qed
  obtain ys where ys: "obj_move (replicate w 0) dst src n (objects m a w l) = Some ys"
    "length ys = l"
    "\<And>j. j < l \<Longrightarrow> ys ! j = (if dst \<le> j \<and> j < dst + n then objects m a w l ! (src + (j - dst))
       else if src \<le> j \<and> j < src + n then replicate w 0 else objects m a w l ! j)"
    using obj_move_down [OF assms(1), of n "objects m a w l" "replicate w 0"] assms(2)
    by auto
  have "ys ! i = objects (memmove ?d ?s (of_nat (n * w)) m) a w l ! i" if i: "i < l" for i
  proof (rule nth_equalityI)
    have b: "src + (i - dst) < l" if "dst \<le> i" "i < dst + n" using that assms(2) by linarith
    then have len: "length (ys ! i) = w" using i by (auto simp: ys(3))
    then show "length (ys ! i) = length (objects (memmove ?d ?s (of_nat (n * w)) m) a w l ! i)"
      using i by simp
    fix k assume "k < length (ys ! i)"
    then have k: "k < w" by (simp add: len)
    have p: "i * w + k < l * w" using k mult_le_mono1 [of "Suc i" l w] i by simp
    note reg = region_offset [OF dw p l, of a] region_offset [OF nw p l, of a]
    have "memmove ?d ?s (of_nat (n * w)) m (a + of_nat (i * w + k)) =
      (if dst \<le> i \<and> i < dst + n then m (?s + (a + of_nat (i * w + k) - ?d))
       else if src \<le> i \<and> i < src + n then 0 else m (a + of_nat (i * w + k)))"
      unfolding memmove_apply [OF ov] u reg block_index [OF k] ..
    moreover have "?s + (a + of_nat (i * w + k) - ?d) = a + of_nat ((src + (i - dst)) * w + k)"
      if di: "dst \<le> i"
    proof -
      obtain e where e: "i = dst + e" using le_Suc_ex [OF di] by blast
      have "of_nat (i * w + k) = (of_nat (dst * w) + of_nat (e * w + k) :: u64)"
        "of_nat ((src + (i - dst)) * w + k) = (of_nat (src * w) + of_nat (e * w + k) :: u64)"
        by (simp_all only: e of_nat_add [symmetric] add_diff_cancel_left' add_mult_distrib add.assoc)
      then show ?thesis by simp
    qed
    moreover have obj: "objects M a w l ! j ! k = M (a + of_nat (j * w + k))" if "j < l" for M j
      using that k by (simp add: add.assoc)
    moreover have "ys ! i ! k = (if dst \<le> i \<and> i < dst + n then m (a + of_nat ((src + (i - dst)) * w + k))
       else if src \<le> i \<and> i < src + n then 0 else m (a + of_nat (i * w + k)))"
      unfolding ys(3) [OF i] using b obj i k by (simp del: of_nat_mult of_nat_add add_mult_distrib)
    ultimately show "ys ! i ! k = objects (memmove ?d ?s (of_nat (n * w)) m) a w l ! i ! k"
      using i by (simp only: simp_thms if_True if_False split: if_splits)
  qed
  with ys show ?thesis by (auto intro: nth_equalityI)
qed


section \<open>Contracts\<close>

text \<open>A buffer of bounded capacity into which objects are put at its end.\<close>

locale bounded_buffer =
  fixes content :: "'s \<Rightarrow> 'a list" and cap :: "'s \<Rightarrow> nat" and inv :: "'s \<Rightarrow> bool"
    and put :: "'a \<Rightarrow> 's \<Rightarrow> (bool \<times> 's) option"
  assumes put_room: "inv s \<Longrightarrow> length (content s) < cap s \<Longrightarrow>
      \<exists>s'. put x s = Some (True, s') \<and> inv s' \<and> content s' = content s @ [x] \<and> cap s' = cap s"
    and put_full: "inv s \<Longrightarrow> length (content s) = cap s \<Longrightarrow> put x s = Some (False, s)"
    and content_cap: "inv s \<Longrightarrow> length (content s) \<le> cap s"
begin

primrec put_all :: "'a list \<Rightarrow> 's \<Rightarrow> 's option" where
  "put_all [] s = Some s"
| "put_all (x # xs) s = (case put x s of None \<Rightarrow> None | Some (_, s) \<Rightarrow> put_all xs s)"

text \<open>What does not fit is dropped; everything else is stored in order.\<close>

lemma put_all_content:
  "inv s \<Longrightarrow> \<exists>s'. put_all xs s = Some s' \<and> inv s' \<and> cap s' = cap s \<and>
    content s' = content s @ take (cap s - length (content s)) xs"
proof (induction xs arbitrary: s)
  case (Cons x xs)
  show ?case
  proof (cases "length (content s) < cap s")
    case True
    from put_room [OF Cons.prems this] obtain t where
      t: "put x s = Some (True, t)" "inv t" "content t = content s @ [x]" "cap t = cap s" by blast
    have "cap s - length (content s) = Suc (cap s - Suc (length (content s)))" using True by simp
    with Cons.IH [OF t(2)] t show ?thesis by auto
  next
    case False
    then have "length (content s) = cap s" using content_cap [OF Cons.prems] by simp
    with put_full [OF Cons.prems this] Cons.IH [OF Cons.prems] show ?thesis by auto
  qed
qed simp

end

text \<open>Objects are taken from the end, or from the front, of the content.\<close>

locale lifo_buffer = bounded_buffer content cap inv put
  for content :: "'s \<Rightarrow> 'a list" and cap :: "'s \<Rightarrow> nat" and inv :: "'s \<Rightarrow> bool"
    and put :: "'a \<Rightarrow> 's \<Rightarrow> (bool \<times> 's) option" +
  fixes get :: "'s \<Rightarrow> ('a option \<times> 's) option"
  assumes get_last: "inv s \<Longrightarrow> content s = xs @ [x] \<Longrightarrow>
      \<exists>s'. get s = Some (Some x, s') \<and> inv s' \<and> content s' = xs \<and> cap s' = cap s"
    and get_none: "inv s \<Longrightarrow> content s = [] \<Longrightarrow> get s = Some (None, s)"
begin

lemma get_put:
  assumes "inv s" and "length (content s) < cap s" and "put x s = Some (b, t)"
  shows "b \<and> (\<exists>u. get t = Some (Some x, u) \<and> inv u \<and> content u = content s)"
  using put_room [OF assms(1,2), of x] get_last [of t "content s" x] assms(3) by fastforce

end

locale fifo_buffer = bounded_buffer content cap inv put
  for content :: "'s \<Rightarrow> 'a list" and cap :: "'s \<Rightarrow> nat" and inv :: "'s \<Rightarrow> bool"
    and put :: "'a \<Rightarrow> 's \<Rightarrow> (bool \<times> 's) option" +
  fixes get :: "'s \<Rightarrow> ('a option \<times> 's) option"
  assumes get_first: "inv s \<Longrightarrow> content s = x # xs \<Longrightarrow>
      \<exists>s'. get s = Some (Some x, s') \<and> inv s' \<and> content s' = xs \<and> cap s' = cap s"
begin

fun get_n :: "nat \<Rightarrow> 's \<Rightarrow> ('a list \<times> 's) option" where
  "get_n 0 s = Some ([], s)"
| "get_n (Suc n) s = (case get s of
     Some (Some x, s) \<Rightarrow> (case get_n n s of Some (xs, s) \<Rightarrow> Some (x # xs, s) | None \<Rightarrow> None)
   | _ \<Rightarrow> None)"

lemma get_n_content:
  "inv s \<Longrightarrow> n \<le> length (content s) \<Longrightarrow>
    \<exists>s'. get_n n s = Some (take n (content s), s') \<and> inv s' \<and> content s' = drop n (content s)"
proof (induction n arbitrary: s)
  case (Suc n)
  then obtain x xs where c: "content s = x # xs" by (cases "content s") auto
  from get_first [OF Suc.prems(1) c] obtain t where
    "get s = Some (Some x, t)" "inv t" "content t = xs" by blast
  with Suc.IH [of t] Suc.prems(2) c show ?case by auto
qed simp

lemma fifo_order:
  assumes "inv s" and "content s = []" and "length xs \<le> cap s"
  shows "\<exists>t u. put_all xs s = Some t \<and> get_n (length xs) t = Some (xs, u) \<and> content u = []"
proof -
  from put_all_content [OF assms(1), of xs] assms(2,3) obtain t where
    "put_all xs s = Some t" "inv t" "content t = xs" by auto
  with get_n_content [of t "length xs"] show ?thesis by auto
qed

end


section \<open>The pools meet their contracts\<close>

text \<open>
  A pool with its memory is a pair of the table and the list of objects.  The index that
  \<^verbatim>\<open>obj_pool_get\<close> yields is dereferenced by \<open>pool_take\<close>.
\<close>

type_synonym 'a pool = "pool_table \<times> 'a list"

definition pool_put :: "'a \<Rightarrow> pool_t \<Rightarrow> 'a \<Rightarrow> 'a pool \<Rightarrow> (bool \<times> 'a pool) option" where
  "pool_put z pid x s = obj_pool_put z pid x 0 (fst s) (snd s)"

definition pool_take :: "pool_t \<Rightarrow> 'a pool \<Rightarrow> ('a option \<times> 'a pool) option" where
  "pool_take pid s = do {
     (ok, p, t) \<leftarrow> obj_pool_get pid 0 (fst s);
     case p of None \<Rightarrow> Some (None, t, snd s)
     | Some i \<Rightarrow> do { x \<leftarrow> obj_load i (snd s); Some (Some x, t, snd s) } }"

definition pool_desc :: "pool_t \<Rightarrow> 'a pool \<Rightarrow> object_pool_descriptor_t" where
  "pool_desc pid s = obj_pools (fst s) ! unat pid"

text \<open>The pool exists, its memory has the size its descriptor says, and the indices are in range.\<close>

definition pool_inv :: "object_pool_type \<Rightarrow> pool_t \<Rightarrow> 'a pool \<Rightarrow> bool" where [inv_defs]:
  "pool_inv ty pid s \<longleftrightarrow> ucast pid < obj_pools_index (fst s) \<and> unat pid < length (obj_pools (fst s)) \<and>
     pool_type (pool_desc pid s) = ty \<and> length (snd s) = unat (pool_size (pool_desc pid s)) \<and>
     (ty = queue \<longrightarrow> bottom_index (pool_desc pid s) \<le> top_index (pool_desc pid s)) \<and>
     top_index (pool_desc pid s) \<le> pool_size (pool_desc pid s)"

definition pool_capacity :: "'a pool \<Rightarrow> nat" where
  "pool_capacity s = length (snd s)"

definition stack_content :: "pool_t \<Rightarrow> 'a pool \<Rightarrow> 'a list" where
  "stack_content pid s = take (unat (top_index (pool_desc pid s))) (snd s)"

definition queue_content :: "pool_t \<Rightarrow> 'a pool \<Rightarrow> 'a list" where
  "queue_content pid s = drop (unat (bottom_index (pool_desc pid s)))
     (take (unat (top_index (pool_desc pid s))) (snd s))"

lemma pool_desc_set [simp]:
  "unat pid < length (obj_pools (fst s)) \<Longrightarrow> pool_desc pid (set_pool pid d (fst s), xs) = d"
  "length (obj_pools (set_pool pid d t)) = length (obj_pools t)"
  "obj_pools_index (set_pool pid d t) = obj_pools_index t"
  by (simp_all add: pool_desc_def set_pool_def)

lemmas pool_simps = pool_put_def pool_take_def obj_pool_put_def obj_pool_get_def get_pool_def
  obj_load_def obj_store_def pool_inv_def pool_capacity_def word_le_nat_alt word_less_nat_alt

interpretation stack_pool: lifo_buffer "stack_content pid" pool_capacity "pool_inv stack pid"
    "pool_put z pid" "pool_take pid" for pid z
proof (unfold_locales, goal_cases)
  case (1 s x)
  let ?p = "pool_desc pid s"
  have top: "top_index ?p < pool_size ?p"
    using 1 by (simp add: pool_inv_def pool_capacity_def stack_content_def word_less_nat_alt word_le_nat_alt)
  note u = unat_Suc_less [OF top]
  have "pool_put z pid x s = Some (True,
      set_pool pid (?p\<lparr>top_index := top_index ?p + 1\<rparr>) (fst s), (snd s)[unat (top_index ?p) := x])"
    using 1(1) top by (auto simp: pool_simps pool_desc_def)
  then show ?case using 1(1) top u
    by (auto simp: pool_simps stack_content_def take_Suc_conv_app_nth)
next
  case (2 s x)
  then show ?case by (auto simp: pool_simps stack_content_def pool_desc_def word_unat_eq_iff)
next
  case (3 s)
  then show ?case by (simp add: pool_capacity_def stack_content_def)
next
  case (4 s xs x)
  let ?p = "pool_desc pid s"
  have le: "unat (top_index ?p) \<le> length (snd s)" using 4(1) by (simp add: pool_simps)
  have "length (stack_content pid s) = Suc (length xs)" by (simp add: 4(2))
  then have l: "unat (top_index ?p) = Suc (length xs)"
    using le by (simp add: stack_content_def min_absorb2)
  have nz: "top_index ?p \<noteq> 0" using l by auto
  then have u: "unat (top_index ?p - 1) = length xs" using l by (simp add: unat_pred)
  have x: "snd s ! length xs = x" "take (length xs) (snd s) = xs"
    using 4(2) l le by (auto simp: stack_content_def take_Suc_conv_app_nth)
  have "pool_take pid s = Some (Some x,
      set_pool pid (?p\<lparr>top_index := top_index ?p - 1\<rparr>) (fst s), snd s)"
    using 4(1) nz u x l le by (auto simp: pool_simps pool_desc_def)
  then show ?case using 4(1) u x l le
    by (auto simp: pool_simps stack_content_def)
next
  case (5 s)
  then have "top_index (pool_desc pid s) = 0"
    by (auto simp: pool_simps stack_content_def word_unat_eq_iff)
  with 5 show ?case by (auto simp: pool_simps stack_content_def pool_desc_def)
qed


interpretation queue_pool: fifo_buffer "queue_content pid" pool_capacity "pool_inv queue pid"
    "pool_put z pid" "pool_take pid" for pid z
proof (unfold_locales, goal_cases)
  case (1 s x)
  let ?p = "pool_desc pid s"
  let ?t = "unat (top_index ?p)" and ?b = "unat (bottom_index ?p)"
  have p: "?b \<le> ?t" "?t \<le> length (snd s)" "length (snd s) = unat (pool_size ?p)"
    using 1(1) by (simp_all add: pool_simps)
  then have room: "?t - ?b < length (snd s)"
    using 1(2) by (simp add: queue_content_def pool_capacity_def min_absorb2)
  show ?case
  proof (cases "top_index ?p < pool_size ?p")
    case True
    note u = unat_Suc_less [OF True]
    have "pool_put z pid x s = Some (True,
        set_pool pid (?p\<lparr>top_index := top_index ?p + 1\<rparr>) (fst s), (snd s)[?t := x])"
      using 1(1) True by (auto simp: pool_simps pool_desc_def)
    then show ?thesis using 1(1) True u
      by (auto simp: pool_simps queue_content_def take_Suc_conv_app_nth)
  next
    case False
    then have full: "?t = length (snd s)" using p by (simp add: word_less_nat_alt)
    with room have b: "0 < ?b" by simp
    have n: "unat (top_index ?p - bottom_index ?p) = ?t - ?b"
      using p by (simp add: unat_sub word_le_nat_alt)
    obtain ys where ys: "obj_move z 0 ?b (?t - ?b) (snd s) = Some ys" "length ys = length (snd s)"
      "\<And>j. j < length (snd s) \<Longrightarrow> ys ! j = (if 0 \<le> j \<and> j < 0 + (?t - ?b) then snd s ! (?b + (j - 0))
         else if ?b \<le> j \<and> j < ?b + (?t - ?b) then z else snd s ! j)"
      using obj_move_down [OF b, of "?t - ?b" "snd s" z] p by auto
    have "(top_index ?p - bottom_index ?p) < pool_size ?p"
      using n room p by (simp add: word_less_nat_alt)
    from unat_Suc_less [OF this] n have n1: "unat (top_index ?p - bottom_index ?p + 1) = Suc (?t - ?b)"
      by simp
    let ?d = "?p\<lparr>top_index := top_index ?p - bottom_index ?p + 1, bottom_index := 0\<rparr>"
    have put: "pool_put z pid x s = Some (True, set_pool pid ?d (fst s), ys[?t - ?b := x])"
      using 1(1) False b n ys(1,2) room full
      by (auto simp: pool_simps pool_desc_def)
    have "take (?t - ?b) ys = drop ?b (take ?t (snd s))"
      using p full ys by (auto intro!: nth_equalityI)
    moreover have "pool_inv queue pid (set_pool pid ?d (fst s), ys[?t - ?b := x])"
      using 1(1) n1 room ys(2) p by (auto simp: pool_simps)
    ultimately show ?thesis using put n1 room ys(2) 1(1)
      by (auto simp: queue_content_def pool_capacity_def pool_inv_def take_Suc_conv_app_nth)
  qed
next
  case (2 s x)
  let ?p = "pool_desc pid s"
  have p: "bottom_index ?p \<le> top_index ?p" "top_index ?p \<le> pool_size ?p"
    "length (snd s) = unat (pool_size ?p)" using 2(1) by (simp_all add: pool_inv_def)
  with 2(2) have "bottom_index ?p = 0 \<and> top_index ?p = pool_size ?p \<or> pool_size ?p = 0"
    by (auto simp: queue_content_def pool_capacity_def min_absorb2 word_le_nat_alt word_unat_eq_iff)
  with 2(1) p show ?case by (auto simp: pool_simps pool_desc_def unat_eq_zero)
next
  case (3 s)
  then show ?case by (simp add: pool_capacity_def queue_content_def)
next
  case (4 s x xs)
  let ?p = "pool_desc pid s"
  let ?t = "unat (top_index ?p)" and ?b = "unat (bottom_index ?p)"
  have p: "?b \<le> ?t" "?t \<le> length (snd s)" "length (snd s) = unat (pool_size ?p)"
    using 4(1) by (simp_all add: pool_simps)
  have "length (queue_content pid s) = Suc (length xs)" by (simp add: 4(2))
  then have b: "?b < ?t" using p by (simp add: queue_content_def min_absorb2)
  then have lt: "bottom_index ?p < top_index ?p" by (simp add: word_less_nat_alt)
  note u = unat_Suc_less [OF lt]
  have x: "snd s ! ?b = x" "drop (Suc ?b) (take ?t (snd s)) = xs"
    using 4(2) b p Cons_nth_drop_Suc [of ?b "take ?t (snd s)"]
    by (simp_all add: queue_content_def)
  have ne: "bottom_index ?p \<noteq> pool_size ?p" using b p by auto
  have "pool_take pid s = Some (Some x,
      set_pool pid (?p\<lparr>bottom_index := bottom_index ?p + 1\<rparr>) (fst s), snd s)"
    using 4(1) ne x b p by (auto simp: pool_simps pool_desc_def)
  then show ?case using 4(1) u x b
    by (auto simp: pool_simps queue_content_def)
qed


text \<open>A manual pool is an array of its capacity.\<close>

definition manual_pool :: "pool_t \<Rightarrow> nat \<Rightarrow> pool_table \<Rightarrow> bool" where
  "manual_pool pid n t \<longleftrightarrow> ucast pid < obj_pools_index t \<and> unat pid < length (obj_pools t) \<and>
     pool_type (obj_pools t ! unat pid) = manual \<and> unat (pool_size (obj_pools t ! unat pid)) = n"

lemma obj_pool_put_manual:
  "manual_pool pid (length xs) t \<Longrightarrow> obj_pool_put z pid x i t xs =
    (if unat i < length xs then Some (True, t, xs[unat i := x]) else Some (False, t, xs))"
  by (auto simp: manual_pool_def obj_pool_put_def get_pool_def obj_load_def obj_store_def word_le_nat_alt
      word_less_nat_alt)

lemma obj_pool_get_manual:
  "manual_pool pid n t \<Longrightarrow> obj_pool_get pid i t =
    (if unat i < n then Some (True, Some (unat i), t) else Some (False, None, t))"
  by (auto simp: manual_pool_def obj_pool_get_def get_pool_def obj_load_def word_le_nat_alt word_less_nat_alt)

section \<open>Packing\<close>

definition compact :: "'a \<Rightarrow> 'a list \<Rightarrow> 'a list" where
  "compact z xs = filter (\<lambda>x. x \<noteq> z) xs @ replicate (length xs - length (filter (\<lambda>x. x \<noteq> z) xs)) z"

lemma length_compact [simp]: "length (compact z xs) = length xs"
  using length_filter_le [of "\<lambda>x. x \<noteq> z" xs] by (simp add: compact_def)

lemma filter_swap_down:
  assumes "i < j" "j < length xs" and "\<forall>l. i \<le> l \<and> l < j \<longrightarrow> xs ! l = z"
  shows "filter (\<lambda>x. x \<noteq> z) (xs[i := xs ! j, j := z]) = filter (\<lambda>x. x \<noteq> z) xs"
proof -
  let ?P = "\<lambda>x. x \<noteq> z"
  have "take j xs = take i xs @ replicate (j - i) z"
    using assms by (intro nth_equalityI) (auto simp: nth_append)
  then have 1: "xs = take i xs @ replicate (j - i) z @ xs ! j # drop (Suc j) xs"
    using id_take_nth_drop [OF assms(2)] by simp
  define A B r where "A = take i xs" and "B = drop (Suc j) xs" and "r = replicate (j - Suc i) z"
  have len: "length A = i" "length r = j - Suc i" using assms by (simp_all add: A_def r_def)
  have "replicate (j - i) z = z # r"
    using assms(1) by (simp add: r_def Suc_diff_Suc flip: replicate_Suc)
  then have 1: "xs = A @ z # r @ xs ! j # B" using 1 by (simp add: A_def B_def)
  have "(A @ z # r @ y # B)[i := y, j := z] = A @ y # r @ z # B" for y
  proof -
    have j: "j = i + Suc (length r)" using assms(1) len(2) by simp
    show ?thesis unfolding j by (simp add: list_update_append len(1))
  qed
  then have 2: "xs[i := xs ! j, j := z] = A @ xs ! j # r @ z # B" using 1 by metis
  have "filter ?P r = []" by (simp add: r_def)
  then have "filter ?P (A @ z # r @ y # B) = filter ?P (A @ y # r @ z # B)" for y by simp
  with 1 2 show ?thesis by metis
qed

lemma compact_if_prefix:
  assumes "\<forall>l<i. xs ! l \<noteq> z" and "\<forall>l. i \<le> l \<and> l < length xs \<longrightarrow> xs ! l = z" and "i \<le> length xs"
  shows "compact z xs = xs"
proof -
  have xs: "xs = take i xs @ replicate (length xs - i) z"
    using assms by (intro nth_equalityI) (auto simp: nth_append)
  have "filter (\<lambda>x. x \<noteq> z) (take i xs) = take i xs"
    using assms(1,3) by (auto simp: filter_id_conv in_set_conv_nth; metis)
  then have "filter (\<lambda>x. x \<noteq> z) xs = take i xs" by (subst xs) simp
  then show ?thesis using xs assms(3) by (simp add: compact_def)
qed

lemma pack_from_compact:
  "length xs = Suc n \<Longrightarrow> i \<le> n \<Longrightarrow> \<forall>l<i. xs ! l \<noteq> z \<Longrightarrow> snd (pack_from z i n tp xs) = compact z xs"
proof (induction z i n tp xs rule: pack_from.induct)
  case (1 z i n tp xs)
  show ?case
  proof (cases "i < n")
    case False
    then have i: "i = n" using "1.prems"(2) by simp
    have "compact z xs = xs"
    proof (cases "xs ! n = z")
      case True
      show ?thesis by (rule compact_if_prefix [of n]) (use True "1.prems" i in \<open>auto simp: less_Suc_eq_le\<close>)
    next
      case False
      then show ?thesis
        by (intro compact_if_prefix [of "Suc n"]) (use "1.prems" i in \<open>auto simp: less_Suc_eq\<close>)
    qed
    with i show ?thesis by (simp add: pack_from.simps)
  next
    case lt: True
    then have c: "i < n \<and> n < length xs" using "1.prems"(1) by simp
    show ?thesis
    proof (cases "xs ! i = z")
      case False
      have "snd (pack_from z (Suc i) n tp xs) = compact z xs"
        by (rule "1.IH"(1) [OF c False]) (use "1.prems" False lt in \<open>auto simp: less_Suc_eq\<close>)
      with c False show ?thesis by (simp add: pack_from.simps [of z i])
    next
      case True
      show ?thesis
      proof (cases "first_object z (Suc i) (n - i) xs")
        case None
        then have "\<forall>l. Suc i \<le> l \<and> l < length xs \<longrightarrow> xs ! l = z"
          using "1.prems"(1) lt by (auto simp: first_object_None)
        then have "\<forall>l. i \<le> l \<and> l < length xs \<longrightarrow> xs ! l = z"
          using True by (metis Suc_leI le_neq_implies_less)
        then have "compact z xs = xs"
          by (rule compact_if_prefix [OF "1.prems"(3)]) (use c in simp)
        with c True None show ?thesis by (simp add: pack_from.simps [of z i])
      next
        case (Some j)
        note f = first_object_Some [OF Some]
        let ?ys = "xs[i := xs ! j, j := z]"
        have j: "i < j" "j < length xs" using f "1.prems"(1) lt by auto
        have z: "\<forall>l. i \<le> l \<and> l < j \<longrightarrow> xs ! l = z"
          using f True by (metis Suc_leI le_neq_implies_less)
        have "snd (pack_from z i n (of_nat i + 1) ?ys) = compact z ?ys"
          by (rule "1.IH"(2) [OF c _ Some]) (use True "1.prems" j in \<open>auto simp: nth_list_update\<close>)
        moreover have "compact z ?ys = compact z xs"
          using filter_swap_down [OF j z] by (simp add: compact_def)
        ultimately show ?thesis using c True Some by (simp add: pack_from.simps [of z i])
      qed
    qed
  qed
qed

lemma obj_pool_pack_manual:
  assumes "manual_pool pid (length xs) t" and "xs \<noteq> []"
  obtains t' where "obj_pool_pack z pid t xs = Some (True, t', compact z xs)"
    "manual_pool pid (length xs) t'"
proof -
  let ?p = "obj_pools t ! unat pid"
  have p: "ucast pid < obj_pools_index t" "unat pid < length (obj_pools t)" "pool_type ?p = manual"
    "unat (pool_size ?p) = length xs" using assms(1) by (simp_all add: manual_pool_def)
  have "pool_size ?p \<noteq> 0" using p(4) assms(2) by auto
  then have n: "unat (pool_size ?p - 1) = length xs - 1" using p(4) by (simp add: unat_pred)
  obtain tp ys where pf: "pack_from z 0 (length xs - 1) (top_index ?p) xs = (tp, ys)" by fastforce
  have "ys = compact z xs"
    using pack_from_compact [of xs "length xs - 1" 0 z "top_index ?p"] pf assms(2) by simp
  then have "obj_pool_pack z pid t xs =
      Some (True, set_pool pid (?p\<lparr>bottom_index := 0, top_index := tp\<rparr>) t, compact z xs)"
    using p n pf assms(2)
    by (cases xs) (simp_all add: obj_pool_pack_def get_pool_def obj_load_def not_le [symmetric])
  then show thesis by (rule that) (use p in \<open>simp add: manual_pool_def set_pool_def\<close>)
qed


section \<open>The properties\<close>

text \<open>
  C25: on a stack pool that is not full, \<^verbatim>\<open>obj_pool_put\<close> succeeds, and the \<^verbatim>\<open>obj_pool_get\<close>
  that follows yields the object just put and restores the content.
\<close>

theorem stack_pool_lifo:
  assumes "pool_inv stack pid s" and "length (stack_content pid s) < length (snd s)"
    and "pool_put z pid x s = Some (b, t)"
  shows "b \<and> (\<exists>u. pool_take pid t = Some (Some x, u) \<and> pool_inv stack pid u \<and>
    stack_content pid u = stack_content pid s)"
  using stack_pool.get_put [OF assms(1) _ assms(3)] assms(2) by (simp add: pool_capacity_def)

text \<open>A table with one pool of three objects, of the given type and indices.\<close>

definition demo_pool :: "object_pool_type \<Rightarrow> u32 \<Rightarrow> u32 \<Rightarrow> pool_table" where
  "demo_pool ty b tp = \<lparr>obj_pools = [\<lparr>pool_base = 4096, obj_size = 4, pool_size = 3, pool_id = 0,
     top_index = tp, bottom_index = b, pool_type = ty\<rparr>], obj_pools_index = 1\<rparr>"

theorem stack_pool_lifo_witness:
  "\<exists>u. pool_take 0 (demo_pool stack 0 2, [5, 6, 7 :: nat]) = Some (Some 6, u)"
proof -
  have "pool_put 0 0 (6 :: nat) (demo_pool stack 0 1, [5, 0, 7]) =
      Some (True, demo_pool stack 0 2, [5, 6, 7])"
    by (simp add: pool_put_def demo_pool_def pool_simps set_pool_def)
  from stack_pool_lifo [OF _ _ this] show ?thesis
    by (simp add: pool_inv_def pool_desc_def demo_pool_def stack_content_def) blast
qed

text \<open>
  C17: on a queue pool \<^verbatim>\<open>obj_pool_put\<close> refuses an object exactly if the content fills the
  pool, and then changes nothing; otherwise it appends the object to the content, also
  when it first moves the content down to the start of the pool.
\<close>

theorem queue_pool_put:
  assumes "pool_inv queue pid s"
  shows "if length (queue_content pid s) = length (snd s) then pool_put z pid x s = Some (False, s)
    else \<exists>t. pool_put z pid x s = Some (True, t) \<and> pool_inv queue pid t \<and>
      queue_content pid t = queue_content pid s @ [x] \<and> length (snd t) = length (snd s)"
  using queue_pool.put_full [OF assms] queue_pool.put_room [OF assms] queue_pool.content_cap [OF assms]
  by (auto simp: pool_capacity_def)

theorem queue_pool_put_witness:
  "\<exists>t. pool_put 0 0 (8 :: nat) (demo_pool queue 1 3, [5, 6, 7]) = Some (True, t) \<and>
     queue_content 0 t = [6, 7, 8]"
proof -
  have "pool_inv queue 0 (demo_pool queue 1 3, [5, 6, 7 :: nat])"
    by (simp add: pool_inv_def pool_desc_def demo_pool_def)
  from queue_pool_put [OF this, of 0 8] show ?thesis
    by (auto simp: pool_desc_def demo_pool_def queue_content_def)
qed

text \<open>
  On a queue pool with at least one object \<^verbatim>\<open>obj_pool_get\<close> yields the first object of
  the content and leaves the rest.
\<close>

theorem queue_pool_get:
  assumes "pool_inv queue pid s" and "queue_content pid s = x # xs"
  shows "\<exists>t. pool_take pid s = Some (Some x, t) \<and> pool_inv queue pid t \<and> queue_content pid t = xs"
  using queue_pool.get_first [OF assms] by blast

theorem queue_pool_get_witness:
  "\<exists>t. pool_take 0 (demo_pool queue 1 3, [5, 6, 7 :: nat]) = Some (Some 6, t) \<and> queue_content 0 t = [7]"
  using queue_pool_get [of 0 "(demo_pool queue 1 3, [5, 6, 7 :: nat])" 6 "[7]"]
  by (auto simp: pool_inv_def pool_desc_def demo_pool_def queue_content_def)

text \<open>
  an empty queue pool whose \<^verbatim>\<open>bottom_index\<close> has not reached the end of the pool is not
  reported as empty: \<^verbatim>\<open>obj_pool_get\<close> succeeds with the object that was left there, and the
  next object put is skipped by the next \<^verbatim>\<open>obj_pool_get\<close>.
\<close>

theorem queue_pool_get_on_empty:
  assumes "pool_inv queue pid s" and "queue_content pid s = []"
    and "unat (bottom_index (pool_desc pid s)) + 1 < length (snd s)"
  shows "\<exists>t u v. pool_take pid s = Some (Some (snd s ! unat (bottom_index (pool_desc pid s))), t) \<and>
    pool_put z pid x t = Some (True, u) \<and>
    pool_take pid u = Some (Some (snd s ! (unat (bottom_index (pool_desc pid s)) + 1)), v)"
proof -
  let ?p = "pool_desc pid s"
  let ?b = "unat (bottom_index ?p)"
  have p: "unat (top_index ?p) \<le> length (snd s)" "length (snd s) = unat (pool_size ?p)"
    "bottom_index ?p \<le> top_index ?p" using assms(1) by (simp_all add: pool_simps)
  with assms(2) have tb: "top_index ?p = bottom_index ?p"
    by (simp add: queue_content_def min_absorb2 word_le_nat_alt word_unat_eq_iff)
  have lt: "bottom_index ?p < pool_size ?p" using assms(3) p by (simp add: word_less_nat_alt)
  note b1 = unat_Suc_less [OF lt]
  let ?t = "(set_pool pid (?p\<lparr>bottom_index := bottom_index ?p + 1\<rparr>) (fst s), snd s)"
  have t: "pool_take pid s = Some (Some (snd s ! ?b), ?t)"
    using assms(1,3) lt by (auto simp: pool_simps pool_desc_def)
  let ?u = "(set_pool pid (?p\<lparr>bottom_index := bottom_index ?p + 1, top_index := top_index ?p + 1\<rparr>) (fst s),
      (snd s)[?b := x])"
  have pt: "unat pid < length (obj_pools (fst s))" "ucast pid < obj_pools_index (fst s)"
    "pool_type ?p = queue" using assms(1) by (simp_all add: pool_inv_def)
  have u: "pool_put z pid x ?t = Some (True, ?u)"
    using pt lt tb assms(3) by (auto simp: pool_simps pool_desc_def set_pool_def)
  have "unat (bottom_index ?p + 1) < unat (pool_size ?p)" using b1 assms(3) p by simp
  then have "bottom_index ?p + 1 \<noteq> pool_size ?p" by auto
  then have "\<exists>v. pool_take pid ?u = Some (Some (snd s ! (?b + 1)), v)"
    using pt b1 assms(3) by (auto simp: pool_simps pool_desc_def set_pool_def)
  with t u show ?thesis by blast
qed

theorem queue_pool_get_on_empty_witness:
  "\<exists>t u v. pool_take 0 (demo_pool queue 0 0, [0, 6, 7 :: nat]) = Some (Some 0, t) \<and>
     pool_put 0 0 9 t = Some (True, u) \<and> pool_take 0 u = Some (Some 6, v)"
  using queue_pool_get_on_empty [of 0 "(demo_pool queue 0 0, [0, 6, 7 :: nat])" 0 9]
  by (simp add: pool_inv_def pool_desc_def demo_pool_def queue_content_def)

text \<open>
  C24: \<^verbatim>\<open>obj_pool_pack\<close> on a manual pool moves its objects to the front in their order and
  leaves zeroes behind them.
\<close>

theorem obj_pool_pack_compacts:
  assumes "manual_pool pid (length xs) t" and "xs \<noteq> []"
  shows "\<exists>t'. obj_pool_pack z pid t xs = Some (True, t', filter (\<lambda>x. x \<noteq> z) xs @
    replicate (length xs - length (filter (\<lambda>x. x \<noteq> z) xs)) z) \<and> manual_pool pid (length xs) t'"
  using obj_pool_pack_manual [OF assms, of z] by (metis compact_def)

theorem obj_pool_pack_compacts_witness:
  "\<exists>t'. obj_pool_pack 0 0 (demo_pool manual 0 0) [0, 6, 0 :: nat] = Some (True, t', [6, 0, 0])"
proof -
  have "manual_pool 0 (length [0, 6, 0 :: nat]) (demo_pool manual 0 0)"
    by (simp add: manual_pool_def demo_pool_def)
  from obj_pool_pack_compacts [OF this, of 0] show ?thesis by auto
qed

text \<open>
  \<^verbatim>\<open>obj_pool_change_type\<close> to a stack always reports failure, although the type is
  changed and no object moves; to a queue, from a manual pool that was filled by index, it
  erases every object before it packs the pool.
\<close>

theorem obj_pool_change_type_effect:
  assumes "manual_pool pid (length xs) t" and "top_index (obj_pools t ! unat pid) = 0" and "xs \<noteq> []"
    and "bottom_index (obj_pools t ! unat pid) = 0"
  shows "obj_pool_change_type z pid stack t xs =
      Some (False, set_pool pid ((obj_pools t ! unat pid)\<lparr>pool_type := stack\<rparr>) t, xs) \<and>
    (\<exists>t'. obj_pool_change_type z pid queue t xs = Some (True, t', replicate (length xs) z))"
proof -
  let ?p = "obj_pools t ! unat pid"
  have p: "ucast pid < obj_pools_index t" "unat pid < length (obj_pools t)"
    "unat (pool_size ?p) = length xs" using assms(1) by (simp_all add: manual_pool_def)
  have st: "obj_pool_change_type z pid stack t xs = Some (False, set_pool pid (?p\<lparr>pool_type := stack\<rparr>) t, xs)"
    using p by (auto simp: obj_pool_change_type_def obj_pool_pack_def get_pool_def obj_load_def set_pool_def
        not_le [symmetric])
  obtain ys where ys: "obj_clear z 0 (length xs) xs = Some ys" "length ys = length xs"
    "\<And>j. j < length xs \<Longrightarrow> ys ! j = z"
    using obj_clear_nth [of 0 "length xs" xs z] by auto
  then have r: "ys = replicate (length xs) z" by (auto intro: nth_equalityI)
  have c: "obj_clear z 0 0 xs = Some xs" by (simp add: obj_clear_def)
  have "pool_size ?p \<noteq> 0" using p(3) assms(3) by auto
  then have n: "unat (pool_size ?p - 1) = length xs - 1" using p(3) by (simp add: unat_pred)
  obtain tp zs where pf: "pack_from z 0 (length xs - 1) 0 ys = (tp, zs)" by fastforce
  have "zs = compact z ys"
    using pack_from_compact [of ys "length xs - 1" 0 z 0] pf ys(2) assms(3) by simp
  then have "zs = replicate (length xs) z" by (simp add: r compact_def)
  with pf have "\<exists>t'. obj_pool_change_type z pid queue t xs = Some (True, t', replicate (length xs) z)"
    using p n ys(1,2) c assms(2-4)
    by (cases xs) (auto simp: obj_pool_change_type_def obj_pool_pack_def get_pool_def obj_load_def
        set_pool_def not_le [symmetric])
  with st show ?thesis ..
qed

theorem obj_pool_change_type_effect_witness:
  "\<exists>t'. obj_pool_change_type 0 0 queue (demo_pool manual 0 0) [0, 6, 0 :: nat] = Some (True, t', [0, 0, 0])"
proof -
  have "manual_pool 0 (length [0, 6, 0 :: nat]) (demo_pool manual 0 0)"
    "top_index (obj_pools (demo_pool manual 0 0) ! unat (0 :: pool_t)) = 0"
    "bottom_index (obj_pools (demo_pool manual 0 0) ! unat (0 :: pool_t)) = 0"
    by (simp_all add: manual_pool_def demo_pool_def)
  from obj_pool_change_type_effect [OF this(1,2) _ this(3), of 0] show ?thesis by auto
qed

end
