(* ===== verification/Memory_Map.thy ===== *)
theory Memory_Map
  imports Obj_Alloc_Props
begin

text \<open>
  The descriptors of the memory map and the two routines of \<^verbatim>\<open>mm/memory_manager.c\<close> that
  reorganise it: \<^verbatim>\<open>order_map\<close>, a selection sort by virtual address, and \<^verbatim>\<open>compress_map\<close>,
  which merges adjacent descriptors of free memory.  The map is the memory of object pool
  0, a list of descriptors; reading past its end is \<open>None\<close>.  The \<^verbatim>\<open>pad\<close> bytes of a
  descriptor are never read and left out.
\<close>

record leokernel_memory_descriptor_t =
  virtual_address :: u64
  physical_address :: u64
  pages :: u32
  md_flags :: u8
  md_type :: u8

definition LEOKERNEL_MEMORY_MAP_AVAIL :: u8 where [c_macros]: "LEOKERNEL_MEMORY_MAP_AVAIL = push_bit 0 1"
definition LEOKERNEL_MEMORY_MAP_VALID :: u8 where [c_macros]: "LEOKERNEL_MEMORY_MAP_VALID = push_bit 1 1"
definition LEOKERNEL_MEMORY_MAP_TRANS_UNK :: u8 where [c_macros]: "LEOKERNEL_MEMORY_MAP_TRANS_UNK = push_bit 2 1"
definition LEOKERNEL_MEMORY_MAP_HAS_NEXT :: u8 where [c_macros]: "LEOKERNEL_MEMORY_MAP_HAS_NEXT = push_bit 3 1"

definition DESCRIPTOR_AVAILABLE :: "u8 \<Rightarrow> bool" where [c_macros]:
  "DESCRIPTOR_AVAILABLE fl \<longleftrightarrow> fl AND 1 \<noteq> 0"
definition DESCRIPTOR_VALID :: "u8 \<Rightarrow> bool" where [c_macros]:
  "DESCRIPTOR_VALID fl \<longleftrightarrow> drop_bit 1 fl AND 1 \<noteq> 0"
definition DESCRIPTOR_TRANS_UNK :: "u8 \<Rightarrow> bool" where [c_macros]:
  "DESCRIPTOR_TRANS_UNK fl \<longleftrightarrow> drop_bit 2 fl AND 1 \<noteq> 0"
definition DESCRIPTOR_HAS_NEXT :: "u8 \<Rightarrow> bool" where [c_macros]:
  "DESCRIPTOR_HAS_NEXT fl \<longleftrightarrow> drop_bit 3 fl AND 1 \<noteq> 0"

text \<open>The enumeration \<^verbatim>\<open>leokernel_memory_descriptor_type\<close>, stored in a byte.\<close>

definition usable :: u8 where [c_macros]: "usable = 0"
definition kernel_reserved :: u8 where [c_macros]: "kernel_reserved = 1"

definition zero_descriptor :: leokernel_memory_descriptor_t where
  "zero_descriptor = \<lparr>virtual_address = 0, physical_address = 0, pages = 0, md_flags = 0, md_type = 0\<rparr>"

definition init_descriptor :: "u64 \<Rightarrow> u64 \<Rightarrow> u32 \<Rightarrow> u8 \<Rightarrow> u8 \<Rightarrow> leokernel_memory_descriptor_t" where
  "init_descriptor virtual physical n fl ty = \<lparr>virtual_address = virtual, physical_address = physical,
     pages = n, md_flags = fl, md_type = ty\<rparr>"

abbreviation descr_valid :: "leokernel_memory_descriptor_t \<Rightarrow> bool" where
  "descr_valid d \<equiv> DESCRIPTOR_VALID (md_flags d)"

section \<open>Selection of a minimum\<close>

text \<open>
  The inner loop shared by \<^verbatim>\<open>order_map\<close> and \<^verbatim>\<open>__kheap_compress_map\<close>: among \<open>k\<close> candidates
  from index \<open>j\<close> on, an index whose key is smaller than that of \<open>sel\<close>.
\<close>

fun select_min :: "('a \<Rightarrow> u64) \<Rightarrow> ('a \<Rightarrow> bool) \<Rightarrow> 'a list \<Rightarrow> nat \<Rightarrow> nat \<Rightarrow> nat \<Rightarrow> nat" where
  "select_min key ok xs sel j 0 = sel"
| "select_min key ok xs sel j (Suc k) =
     select_min key ok xs (if key (xs ! j) < key (xs ! sel) \<and> ok (xs ! j) then j else sel) (Suc j) k"

lemma select_min_range: "sel \<le> n \<Longrightarrow> j + k \<le> Suc n \<Longrightarrow> select_min key ok xs sel j k \<le> n"
  by (induction key ok xs sel j k rule: select_min.induct) auto

lemma select_min_ge: "i \<le> sel \<Longrightarrow> i \<le> j \<Longrightarrow> i \<le> select_min key ok xs sel j k"
  by (induction key ok xs sel j k rule: select_min.induct) auto

lemma select_min_le_sel: "key (xs ! select_min key ok xs sel j k) \<le> key (xs ! sel)"
proof (induction key ok xs sel j k rule: select_min.induct)
  case (2 key ok xs sel j k)
  then show ?case by (auto split: if_splits)
qed simp

lemma select_min_le:
  "j \<le> l \<Longrightarrow> l < j + k \<Longrightarrow> ok (xs ! l) \<Longrightarrow> key (xs ! select_min key ok xs sel j k) \<le> key (xs ! l)"
proof (induction k arbitrary: j sel)
  case (Suc k)
  let ?sel = "if key (xs ! j) < key (xs ! sel) \<and> ok (xs ! j) then j else sel"
  show ?case
  proof (cases "l = j")
    case True
    have "key (xs ! ?sel) \<le> key (xs ! j)" using True Suc.prems(3) by auto
    then show ?thesis using select_min_le_sel [of key xs ok ?sel "Suc j" k] True by simp
  next
    case False
    then show ?thesis using Suc.IH [of "Suc j" ?sel] Suc.prems by simp
  qed
qed simp

section \<open>Sorting the map\<close>

fun order_map_from ::
  "nat \<Rightarrow> nat \<Rightarrow> nat \<Rightarrow> leokernel_memory_descriptor_t list \<Rightarrow> leokernel_memory_descriptor_t list" where
  "order_map_from sz i 0 mp = mp"
| "order_map_from sz i (Suc k) mp =
     (if \<not> descr_valid (mp ! i) then mp
      else let sel = select_min virtual_address descr_valid mp i (i + 1) (sz - (i + 1))
           in order_map_from sz (Suc i) k (mp[i := mp ! sel, sel := mp ! i]))"

definition order_map ::
  "leokernel_memory_descriptor_t list \<Rightarrow> u64 \<Rightarrow> leokernel_memory_descriptor_t list option" where
  "order_map mp sz =
     (if sz < 2 then Some mp
      else if length mp < unat sz then None
      else Some (order_map_from (unat sz) 0 (unat (sz - 1)) mp))"

lemma order_map_from_mset:
  "sz \<le> length xs \<Longrightarrow> i + k < sz \<Longrightarrow>
    mset (order_map_from sz i k xs) = mset xs \<and> length (order_map_from sz i k xs) = length xs"
proof (induction k arbitrary: i xs)
  case (Suc k)
  let ?sel = "select_min virtual_address descr_valid xs i (i + 1) (sz - (i + 1))"
  have "?sel \<le> sz - 1" by (rule select_min_range) (use Suc.prems in auto)
  then have "?sel < length xs" "i < length xs" using Suc.prems by auto
  then have "mset (xs[i := xs ! ?sel, ?sel := xs ! i]) = mset xs" by (intro list_update_swap_mset)
  with Suc show ?case by (simp add: Let_def)
qed simp

lemma order_map_from_outside:
  "sz \<le> length xs \<Longrightarrow> i + k < sz \<Longrightarrow> sz \<le> l \<Longrightarrow> order_map_from sz i k xs ! l = xs ! l"
proof (induction k arbitrary: i xs)
  case (Suc k)
  let ?sel = "select_min virtual_address descr_valid xs i (i + 1) (sz - (i + 1))"
  have "?sel \<le> sz - 1" by (rule select_min_range) (use Suc.prems in auto)
  then show ?case using Suc by (auto simp: Let_def)
qed simp

text \<open>A map of valid descriptors ends up sorted.\<close>

lemma order_map_from_sorted:
  assumes "sz \<le> length xs" "i + k = sz - 1" "0 < sz" and "\<forall>l < sz. descr_valid (xs ! l)"
    and "\<forall>a b. a < i \<and> a < b \<and> b < sz \<longrightarrow> virtual_address (xs ! a) \<le> virtual_address (xs ! b)"
  shows "\<forall>a b. a < b \<and> b < sz \<longrightarrow> virtual_address (order_map_from sz i k xs ! a) \<le>
    virtual_address (order_map_from sz i k xs ! b)"
  using assms
proof (induction k arbitrary: i xs)
  case 0
  have "a < i" if "a < b" "b < sz" for a b using that "0.prems"(2) by simp
  with 0 show ?case by auto
next
  case (Suc k)
  define m where "m = select_min virtual_address descr_valid xs i (i + 1) (sz - (i + 1))"
  let ?ys = "xs[i := xs ! m, m := xs ! i]"
  have i: "i < sz" "i < length xs" using Suc.prems by auto
  have "m \<le> sz - 1" unfolding m_def by (rule select_min_range) (use Suc.prems in auto)
  then have sel: "i \<le> m" "m < sz"
    using Suc.prems(3) by (simp_all add: m_def select_min_ge)
  have ys: "?ys ! l = (if l = m then xs ! i else if l = i then xs ! m else xs ! l)" if "l < sz" for l
    using that Suc.prems(1) sel(2) i by (simp add: nth_list_update)
  have min: "virtual_address (xs ! m) \<le> virtual_address (xs ! l)" if "i \<le> l" "l < sz" for l
  proof (cases "l = i")
    case True
    then show ?thesis by (simp add: m_def select_min_le_sel)
  next
    case False
    then show ?thesis using that Suc.prems(4) unfolding m_def by (intro select_min_le) auto
  qed
  have "descr_valid (?ys ! l)" if "l < sz" for l using that ys sel i Suc.prems(4) by auto
  moreover have "virtual_address (?ys ! a) \<le> virtual_address (?ys ! b)"
    if "a < Suc i" "a < b" "b < sz" for a b
  proof (cases "a = i")
    case True
    then have "?ys ! a = xs ! m" using ys [OF i(1)] True by (simp split: if_splits)
    moreover have "?ys ! b = xs ! b \<or> ?ys ! b = xs ! i" using ys [of b] that True by auto
    ultimately show ?thesis using min [of b] min [of i] that True i by auto
  next
    case False
    then have a: "a < i" "?ys ! a = xs ! a" using ys [of a] that sel by auto
    let ?l = "if b = m then i else if b = i then m else b"
    have "a < ?l \<and> ?l < sz \<and> ?ys ! b = xs ! ?l"
      using ys [OF that(3)] that a sel i by auto
    then have "\<exists>l. a < l \<and> l < sz \<and> ?ys ! b = xs ! l" by blast
    then show ?thesis using a Suc.prems(5) by auto
  qed
  ultimately have "\<forall>a b. a < b \<and> b < sz \<longrightarrow> virtual_address (order_map_from sz (Suc i) k ?ys ! a) \<le>
    virtual_address (order_map_from sz (Suc i) k ?ys ! b)"
    by (intro Suc.IH) (use Suc.prems in auto)
  moreover have "order_map_from sz i (Suc k) xs = order_map_from sz (Suc i) k ?ys"
    using Suc.prems(4) i by (simp add: Let_def m_def)
  ultimately show ?case by simp
qed

lemma order_map_ok:
  assumes "unat sz \<le> length mp" and "\<forall>l < unat sz. descr_valid (mp ! l)"
  shows "\<exists>ys. order_map mp sz = Some ys \<and> mset ys = mset mp \<and>
    (\<forall>a b. a < b \<and> b < unat sz \<longrightarrow> virtual_address (ys ! a) \<le> virtual_address (ys ! b)) \<and>
    (\<forall>l\<ge>unat sz. ys ! l = mp ! l)"
proof (cases "sz < 2")
  case True
  then have "unat sz < 2" by (simp add: word_less_nat_alt)
  with True show ?thesis by (auto simp: order_map_def)
next
  case False
  then have sz: "2 \<le> unat sz" "sz \<noteq> 0" by (auto simp: word_less_nat_alt)
  then have m: "unat (sz - 1) = unat sz - 1" by (simp add: unat_minus_one)
  let ?ys = "order_map_from (unat sz) 0 (unat sz - 1) mp"
  have "order_map mp sz = Some ?ys" using False assms(1) m by (simp add: order_map_def)
  moreover have "0 + (unat sz - 1) < unat sz" using sz by simp
  note order_map_from_mset [OF assms(1) this] order_map_from_outside [OF assms(1) this]
    order_map_from_sorted [OF assms(1) _ _ assms(2), of 0 "unat sz - 1"]
  ultimately show ?thesis using sz by simp
qed

section \<open>Merging descriptors of free memory\<close>

text \<open>
  The \<^verbatim>\<open>while\<close> loop that counts the descriptors to merge: \<open>c\<close> is the index of
  \<^verbatim>\<open>candidate\<close>, which is not compared with the size of the map.  \<^verbatim>\<open>PAGE_SIZE * pages\<close> is
  a 32-bit product.
\<close>

function merge_run ::
  "leokernel_memory_descriptor_t list \<Rightarrow> nat \<Rightarrow> nat \<Rightarrow> u64 \<Rightarrow> u64 \<Rightarrow> (u64 \<times> u64) option" where
  "merge_run mp i c n pgs =
     (if length mp \<le> c then None
      else if md_type (mp ! c) = md_type (mp ! i) \<and> md_flags (mp ! c) = md_flags (mp ! i) \<and>
        virtual_address (mp ! c) =
          virtual_address (mp ! (c - 1)) + ucast (4096 * pages (mp ! (c - 1)))
      then merge_run mp i (Suc c) (n + 1) (pgs + ucast (pages (mp ! c)))
      else Some (n, pgs))"
  by pat_completeness auto
termination by (relation "measure (\<lambda>(mp, i, c, n, pgs). length mp - c)") auto

declare merge_run.simps [simp del]

text \<open>
  \<open>bound\<close> is \<^verbatim>\<open>size - 1\<close> and \<open>last_ind\<close> the global \<^verbatim>\<open>mmap_last_ind\<close>.  The number of bytes
  given to \<^verbatim>\<open>memmove\<close> is a whole number of descriptors, or wraps and runs off the map.
\<close>

function compress_from ::
  "nat \<Rightarrow> nat \<Rightarrow> u64 \<Rightarrow> leokernel_memory_descriptor_t list \<Rightarrow> u64 \<Rightarrow>
   (leokernel_memory_descriptor_t list \<times> u64) option" where
  "compress_from i bound sz mp last_ind =
     (if i < bound
      then if length mp \<le> i then None
           else if \<not> descr_valid (mp ! i) then Some (mp, last_ind)
           else if md_type (mp ! i) \<noteq> usable \<or> \<not> DESCRIPTOR_AVAILABLE (md_flags (mp ! i))
           then compress_from (Suc i) bound sz mp last_ind
           else (case merge_run mp i (Suc i) 0 (ucast (pages (mp ! i))) of None \<Rightarrow> None
             | Some (n, pgs) \<Rightarrow>
                 if 0 < n
                 then (case do {
                         let mp = mp[i := (mp ! i)\<lparr>pages := ucast pgs\<rparr>];
                         mp \<leftarrow> obj_clear zero_descriptor (i + 1) (unat n) mp;
                         obj_move zero_descriptor (i + 1) (i + unat n + 1)
                           (unat (sz - n - of_nat i - 1)) mp } of None \<Rightarrow> None
                   | Some mp \<Rightarrow> compress_from (Suc i) bound sz mp (last_ind - n))
                 else compress_from (Suc i) bound sz mp last_ind)
      else Some (mp, last_ind))"
  by pat_completeness auto
termination by (relation "measure (\<lambda>(i, bound, sz, mp, last_ind). bound - i)") auto

declare compress_from.simps [simp del]

definition compress_map ::
  "leokernel_memory_descriptor_t list \<Rightarrow> u64 \<Rightarrow> u64 \<Rightarrow> (leokernel_memory_descriptor_t list \<times> u64) option" where
  "compress_map mp sz last_ind = compress_from 0 (unat (sz - 1)) sz mp last_ind"

text \<open>
  The pages a map describes, in the order of its descriptors: the address, flags and type
  of each.
\<close>

definition descr_pages :: "leokernel_memory_descriptor_t \<Rightarrow> (u64 \<times> u8 \<times> u8) list" where
  "descr_pages d = map (\<lambda>k. (virtual_address d + 4096 * of_nat k, md_flags d, md_type d)) [0..<unat (pages d)]"

definition described :: "leokernel_memory_descriptor_t list \<Rightarrow> (u64 \<times> u8 \<times> u8) list" where
  "described mp = concat (map descr_pages mp)"

definition total_pages :: "leokernel_memory_descriptor_t list \<Rightarrow> nat" where
  "total_pages mp = (\<Sum>d\<leftarrow>mp. unat (pages d))"

lemma described_simps [simp]:
  "described [] = []" "described (d # mp) = descr_pages d @ described mp"
  "described (xs @ ys) = described xs @ described ys"
  "descr_pages zero_descriptor = []" "described (replicate n zero_descriptor) = []"
proof -
  show z: "descr_pages zero_descriptor = []" by (simp add: descr_pages_def zero_descriptor_def)
  then show "described (replicate n zero_descriptor) = []"
    by (induction n) (simp_all add: described_def)
qed (simp_all add: described_def)

lemma total_pages_simps [simp]:
  "total_pages [] = 0" "total_pages (d # mp) = unat (pages d) + total_pages mp"
  "total_pages (xs @ ys) = total_pages xs + total_pages ys"
  "total_pages (replicate n zero_descriptor) = 0"
  by (simp_all add: total_pages_def zero_descriptor_def)

text \<open>A descriptor followed by an adjacent one of the same kind describes what the merged one does.\<close>

lemma descr_pages_merge:
  assumes "virtual_address e = virtual_address d + 4096 * of_nat (unat (pages d))"
    and "md_flags e = md_flags d" "md_type e = md_type d"
    and "unat p = unat (pages d) + unat (pages e)"
  shows "descr_pages (d\<lparr>pages := p\<rparr>) = descr_pages d @ descr_pages e"
proof -
  have "(4096 :: u64) * of_nat (unat (pages d) + k) =
      4096 * of_nat (unat (pages d)) + 4096 * of_nat k" for k
    by (simp add: distrib_left)
  then show ?thesis using assms by (simp add: descr_pages_def map_upt_add add.assoc)
qed

text \<open>What a run of adjacent descriptors of the same kind amounts to.\<close>

lemma merge_run_bounds:
  assumes "merge_run mp i c n pgs = Some (n', pgs')" and "n = of_nat (c - Suc i)" "i < c"
    and "length mp < 18446744073709551616"
  obtains c' where "n' = of_nat (c' - Suc i)" "c \<le> c'" "c' < length mp"
    "pgs' = pgs + of_nat (total_pages (take (c' - c) (drop c mp)))"
    "\<And>l. c \<le> l \<Longrightarrow> l < c' \<Longrightarrow> md_type (mp ! l) = md_type (mp ! i) \<and> md_flags (mp ! l) = md_flags (mp ! i) \<and>
      virtual_address (mp ! l) = virtual_address (mp ! (l - 1)) + ucast (4096 * pages (mp ! (l - 1)))"
proof -
  have "\<exists>c'. n' = of_nat (c' - Suc i) \<and> c \<le> c' \<and> c' < length mp \<and>
    pgs' = pgs + of_nat (total_pages (take (c' - c) (drop c mp))) \<and>
    (\<forall>l. c \<le> l \<and> l < c' \<longrightarrow> md_type (mp ! l) = md_type (mp ! i) \<and> md_flags (mp ! l) = md_flags (mp ! i) \<and>
      virtual_address (mp ! l) = virtual_address (mp ! (l - 1)) + ucast (4096 * pages (mp ! (l - 1))))"
    using assms
  proof (induction mp i c n pgs rule: merge_run.induct)
    case (1 mp i c n pgs)
    let ?ok = "md_type (mp ! c) = md_type (mp ! i) \<and> md_flags (mp ! c) = md_flags (mp ! i) \<and>
      virtual_address (mp ! c) = virtual_address (mp ! (c - 1)) + ucast (4096 * pages (mp ! (c - 1)))"
    have c: "c < length mp" using "1.prems"(1) by (auto simp: merge_run.simps [of mp i c] split: if_splits)
    show ?case
    proof (cases ?ok)
      case False
      then have "n' = n" "pgs' = pgs"
        using "1.prems"(1) c by (auto simp: merge_run.simps [of mp i c] split: if_splits)
      then show ?thesis using c "1.prems"(2) by (intro exI [of _ c]) auto
    next
      case True
      then have r: "merge_run mp i (Suc c) (n + 1) (pgs + ucast (pages (mp ! c))) = Some (n', pgs')"
        using "1.prems"(1) c by (simp add: merge_run.simps [of mp i c])
      have "n + 1 = of_nat (Suc c - Suc i)" using "1.prems"(2,3) by (simp add: Suc_diff_Suc of_nat_diff)
      from "1.IH" [OF _ True r this] c "1.prems"(3,4) obtain c' where
        c': "n' = of_nat (c' - Suc i)" "Suc c \<le> c'" "c' < length mp"
        "pgs' = pgs + ucast (pages (mp ! c)) + of_nat (total_pages (take (c' - Suc c) (drop (Suc c) mp)))"
        "\<forall>l. Suc c \<le> l \<and> l < c' \<longrightarrow> md_type (mp ! l) = md_type (mp ! i) \<and> md_flags (mp ! l) = md_flags (mp ! i) \<and>
          virtual_address (mp ! l) = virtual_address (mp ! (l - 1)) + ucast (4096 * pages (mp ! (l - 1)))"
        by auto
      have "take (c' - c) (drop c mp) = mp ! c # take (c' - Suc c) (drop (Suc c) mp)"
        using c c'(2) by (metis Cons_nth_drop_Suc Suc_diff_le diff_Suc_Suc take_Suc_Cons)
      moreover have "ucast (pages (mp ! c)) = (of_nat (unat (pages (mp ! c))) :: u64)"
        by (simp add: word_unat_eq_iff)
      ultimately have "pgs' = pgs + of_nat (total_pages (take (c' - c) (drop c mp)))"
        using c'(4) by (simp add: add.assoc)
      moreover have "\<forall>l. c \<le> l \<and> l < c' \<longrightarrow> md_type (mp ! l) = md_type (mp ! i) \<and> md_flags (mp ! l) = md_flags (mp ! i) \<and>
          virtual_address (mp ! l) = virtual_address (mp ! (l - 1)) + ucast (4096 * pages (mp ! (l - 1)))"
        using c'(5) True by (metis Suc_leI le_neq_implies_less)
      ultimately show ?thesis using c' by (intro exI [of _ c']) simp
    qed
  qed
  then show thesis using that by blast
qed


lemma merge_run_total:
  assumes "md_flags (mp ! l) \<noteq> md_flags (mp ! i)" and "c \<le> l" "l < length mp"
  shows "merge_run mp i c n pgs \<noteq> None"
  using assms
proof (induction mp i c n pgs rule: merge_run.induct)
  case (1 mp i c n pgs)
  show ?case
  proof (cases "c = l")
    case True
    with "1.prems" show ?thesis unfolding True by (simp add: merge_run.simps [of mp i l])
  next
    case False
    with "1.prems" "1.IH" show ?thesis by (auto simp: merge_run.simps [of mp i c])
  qed
qed

fun chain :: "leokernel_memory_descriptor_t \<Rightarrow> leokernel_memory_descriptor_t list \<Rightarrow> bool" where
  "chain d [] = True"
| "chain d (e # es) = (md_type e = md_type d \<and> md_flags e = md_flags d \<and>
     virtual_address e = virtual_address d + ucast (4096 * pages d) \<and> chain e es)"

lemma ucast_page_bytes: "unat p < 1048576 \<Longrightarrow> (ucast (4096 * p :: u32) :: u64) = 4096 * of_nat (unat p)"
  by (simp add: word_unat_eq_iff unat_word_ariths(2))

lemma chain_described:
  "chain d es \<Longrightarrow> total_pages (d # es) < 1048576 \<Longrightarrow>
    descr_pages (d\<lparr>pages := of_nat (total_pages (d # es))\<rparr>) = described (d # es)"
proof (induction es arbitrary: d)
  case Nil
  then show ?case by simp
next
  case (Cons e es)
  let ?d = "d\<lparr>pages := of_nat (unat (pages d) + unat (pages e))\<rparr>"
  have le: "unat (pages d) < 1048576" "unat (pages e) < 1048576"
    "unat (pages d) + unat (pages e) < 1048576" using Cons.prems(2) by simp_all
  then have u: "unat (of_nat (unat (pages d) + unat (pages e)) :: u32) = unat (pages d) + unat (pages e)"
    by (intro unat_of_nat_32) simp
  have e: "virtual_address e = virtual_address d + 4096 * of_nat (unat (pages d))"
    "md_flags e = md_flags d" "md_type e = md_type d"
    using Cons.prems(1) ucast_page_bytes [OF le(1)] by simp_all
  have ud: "unat (pages ?d) = unat (pages d) + unat (pages e)" 
  proof -
    have "pages (d\<lparr>pages := q\<rparr>) = q" for q by simp
    then show ?thesis using u by (simp only:)
  qed
  have "(ucast (4096 * pages ?d) :: u64) = 4096 * of_nat (unat (pages d) + unat (pages e))"
    using ucast_page_bytes [of "pages ?d"] le(3) by (simp only: ud)
  also have "\<dots> = ucast (4096 * pages d) + ucast (4096 * pages e)"
    unfolding ucast_page_bytes [OF le(1)] ucast_page_bytes [OF le(2)] by (simp only: of_nat_add distrib_left)
  finally have "(ucast (4096 * pages d + 4096 * pages e) :: u64) = ucast (4096 * pages d) + ucast (4096 * pages e)"
    by (simp add: distrib_left)
  then have "chain ?d es" using Cons.prems(1) by (cases es) (auto simp: distrib_left add.assoc)
  moreover have t: "total_pages (?d # es) = total_pages (d # e # es)" using u by simp
  ultimately have "descr_pages (?d\<lparr>pages := of_nat (total_pages (?d # es))\<rparr>) = described (?d # es)"
    using Cons.prems(2) by (intro Cons.IH) simp_all
  moreover have "descr_pages ?d = descr_pages d @ descr_pages e"
    by (rule descr_pages_merge [OF e]) (rule u)
  ultimately show ?case unfolding t by simp
qed

lemma chain_of_run:
  assumes "\<And>l. i < l \<Longrightarrow> l \<le> i + n \<Longrightarrow> md_type (mp ! l) = md_type (mp ! (l - 1)) \<and>
      md_flags (mp ! l) = md_flags (mp ! (l - 1)) \<and>
      virtual_address (mp ! l) = virtual_address (mp ! (l - 1)) + ucast (4096 * pages (mp ! (l - 1)))"
    and "i + n < length mp"
  shows "chain (mp ! i) (take n (drop (Suc i) mp))"
  using assms
proof (induction n arbitrary: i)
  case (Suc n)
  have "take (Suc n) (drop (Suc i) mp) = mp ! Suc i # take n (drop (Suc (Suc i)) mp)"
    using Suc.prems(2) by (simp add: Cons_nth_drop_Suc [symmetric])
  moreover have "chain (mp ! Suc i) (take n (drop (Suc (Suc i)) mp))"
    by (rule Suc.IH) (use Suc.prems(1) in \<open>auto intro: Suc.prems(2)\<close>, use Suc.prems(2) in simp)
  ultimately show ?case using Suc.prems(1) [of "Suc i"] by simp
qed simp

lemma total_pages_drop_take: "total_pages (take n (drop c mp)) \<le> total_pages mp"
proof -
  have "total_pages mp = total_pages (take c mp) + total_pages (take n (drop c mp)) + total_pages (drop n (drop c mp))"
    by (metis append_take_drop_id total_pages_simps(3) add.assoc)
  then show ?thesis by simp
qed

text \<open>One merge step of \<^verbatim>\<open>compress_map\<close>.\<close>

definition merged :: "leokernel_memory_descriptor_t list \<Rightarrow> nat \<Rightarrow> nat \<Rightarrow> nat \<Rightarrow> leokernel_memory_descriptor_t list" where
  "merged mp i c sz = take i mp @
     (mp ! i)\<lparr>pages := of_nat (total_pages (mp ! i # take (c - Suc i) (drop (Suc i) mp)))\<rparr> #
     take (sz - c) (drop c mp) @ replicate (c - Suc i) zero_descriptor @ drop sz mp"

lemma merged_step:
  assumes "Suc i < c" "c \<le> sz" "sz \<le> length mp"
    and p: "p = of_nat (total_pages (mp ! i # take (c - Suc i) (drop (Suc i) mp)))"
  shows "do { mp \<leftarrow> obj_clear zero_descriptor (i + 1) (c - Suc i) (mp[i := (mp ! i)\<lparr>pages := p\<rparr>]);
      obj_move zero_descriptor (i + 1) (i + (c - Suc i) + 1) (sz - c) mp } = Some (merged mp i c sz)"
proof -
  let ?mp = "mp[i := (mp ! i)\<lparr>pages := p\<rparr>]"
  have "i + 1 + (c - Suc i) \<le> length ?mp" using assms by simp
  from obj_clear_nth [OF this, of zero_descriptor] obtain ys where
    ys: "obj_clear zero_descriptor (i + 1) (c - Suc i) ?mp = Some ys" "length ys = length mp"
    "\<And>j. j < length mp \<Longrightarrow> ys ! j = (if i + 1 \<le> j \<and> j < i + 1 + (c - Suc i) then zero_descriptor else ?mp ! j)"
    by auto
  have "i + 1 < c" "c + (sz - c) \<le> length ys" using assms ys(2) by auto
  from obj_move_down [OF this, of zero_descriptor] obtain zs where
    zs: "obj_move zero_descriptor (i + 1) c (sz - c) ys = Some zs" "length zs = length mp"
    "\<And>j. j < length mp \<Longrightarrow> zs ! j = (if i + 1 \<le> j \<and> j < i + 1 + (sz - c) then ys ! (c + (j - (i + 1)))
       else if c \<le> j \<and> j < c + (sz - c) then zero_descriptor else ys ! j)"
    using ys(2) by auto
  have "zs = merged mp i c sz"
  proof (rule nth_equalityI)
    show "length zs = length (merged mp i c sz)" using assms(1-3) zs(2) by (simp add: merged_def)
    fix j assume "j < length zs"
    then have j: "j < length mp" by (simp add: zs(2))
    consider "j < i" | "j = i" | "i < j" "j < i + 1 + (sz - c)" | "i + 1 + (sz - c) \<le> j" "j < sz" | "sz \<le> j"
      using assms(1-3) by linarith
    then show "zs ! j = merged mp i c sz ! j"
    proof cases
      case 3
      then obtain k where k: "j = Suc (i + k)" using less_iff_Suc_add by auto
      with 3 have "k < sz - c" by simp
      then show ?thesis using assms(1-3) j unfolding k
        by (simp add: zs(3) ys(3) merged_def nth_append nth_Cons' Suc_le_eq)
    next
      case 4
      then show ?thesis using assms(1-3) j
        by (simp add: zs(3) ys(3) merged_def nth_append nth_Cons' Suc_le_eq)
    next
      case 5
      then show ?thesis using assms(1-3) j
        by (simp add: zs(3) ys(3) merged_def nth_append nth_Cons' Suc_le_eq)
    qed (use assms j in \<open>simp_all add: zs(3) ys(3) merged_def nth_append\<close>)
  qed
  with ys(1) zs(1) assms(1) show ?thesis by simp
qed


lemma described_merged:
  assumes "chain (mp ! i) (take (c - Suc i) (drop (Suc i) mp))" and "total_pages mp < 1048576"
    and "Suc i < c" "c \<le> sz" "sz \<le> length mp"
  shows "described (merged mp i c sz) = described mp" "total_pages (merged mp i c sz) = total_pages mp"
    "length (merged mp i c sz) = length mp"
proof -
  let ?run = "take (c - Suc i) (drop (Suc i) mp)"
  let ?p = "total_pages (mp ! i # ?run)"
  have rest: "drop (Suc i) mp = ?run @ drop c mp"
    using assms(3) append_take_drop_id [of "c - Suc i" "drop (Suc i) mp"] by simp
  have mid: "drop c mp = take (sz - c) (drop c mp) @ drop sz mp"
    using assms(4) append_take_drop_id [of "sz - c" "drop c mp"] by simp
  have mp: "mp = take i mp @ mp ! i # ?run @ take (sz - c) (drop c mp) @ drop sz mp"
    using id_take_nth_drop [of i mp] assms(3-5) rest mid by simp
  have total: "total_pages mp = total_pages (take i mp) + ?p +
      total_pages (take (sz - c) (drop c mp)) + total_pages (drop sz mp)"
    by (subst mp) simp
  then have lt: "?p < 1048576" using assms(2) by linarith
  show "described (merged mp i c sz) = described mp"
    using chain_described [OF assms(1) lt] unfolding merged_def by (subst (7) mp) simp
  have "unat (of_nat ?p :: u32) = ?p" by (rule unat_of_nat_32) (use lt in simp)
  then show "total_pages (merged mp i c sz) = total_pages mp"
    unfolding merged_def total by simp
  show "length (merged mp i c sz) = length mp" using assms(3-5) by (simp add: merged_def)
qed

lemma compress_from_ok:
  assumes "bound = unat (sz - 1)" "sz \<noteq> 0" "unat sz < length mp" "length mp < 4294967296"
    and "\<not> descr_valid (mp ! unat sz)" and "total_pages mp < 1048576"
  shows "\<exists>ys last'. compress_from i bound sz mp last_ind = Some (ys, last') \<and>
    described ys = described mp \<and> length ys = length mp"
  using assms
proof (induction i bound sz mp last_ind rule: compress_from.induct)
  case (1 i bound sz mp last_ind)
  have b: "bound = unat sz - 1" using "1.prems"(1,2) by (simp add: unat_minus_one)
  show ?case
  proof (cases "i < bound \<and> descr_valid (mp ! i) \<and> md_type (mp ! i) = usable \<and> DESCRIPTOR_AVAILABLE (md_flags (mp ! i))")
    case False
    show ?thesis
    proof (cases "i < bound \<and> descr_valid (mp ! i)")
      case True
      then have "\<exists>ys last'. compress_from (Suc i) bound sz mp last_ind = Some (ys, last') \<and>
          described ys = described mp \<and> length ys = length mp"
        using False "1.prems" b by (intro "1.IH"(1)) auto
      then show ?thesis using True False "1.prems"(3) b by (auto simp: compress_from.simps [of i])
    next
      case False
      then show ?thesis using "1.prems"(3) b by (auto simp: compress_from.simps [of i])
    qed
  next
    case True
    have i: "i < bound" "i < length mp" "\<not> length mp \<le> i" using True "1.prems"(3) b by auto
    have ne: "md_flags (mp ! unat sz) \<noteq> md_flags (mp ! i)" using True "1.prems"(5) by auto
    have szi: "Suc i \<le> unat sz" using i b by simp
    from merge_run_total [OF ne szi "1.prems"(3)]
    obtain n pgs where run: "merge_run mp i (Suc i) 0 (ucast (pages (mp ! i))) = Some (n, pgs)"
      by fastforce
    obtain c where c: "n = of_nat (c - Suc i)" "Suc i \<le> c" "c < length mp"
      "pgs = ucast (pages (mp ! i)) + of_nat (total_pages (take (c - Suc i) (drop (Suc i) mp)))"
      and same: "\<And>l. Suc i \<le> l \<Longrightarrow> l < c \<Longrightarrow> md_type (mp ! l) = md_type (mp ! i) \<and> md_flags (mp ! l) = md_flags (mp ! i) \<and>
        virtual_address (mp ! l) = virtual_address (mp ! (l - 1)) + ucast (4096 * pages (mp ! (l - 1)))"
      using merge_run_bounds [OF run] "1.prems"(4) by auto
    have csz: "c \<le> unat sz"
    proof (rule ccontr)
      assume "\<not> c \<le> unat sz"
      with same [OF szi] ne show False by auto
    qed
    have un: "unat n = c - Suc i" unfolding c(1)
      by (rule unat_of_nat_64) (use c(3) "1.prems"(4) in linarith)
    show ?thesis
    proof (cases "0 < n")
      case False
      then have "\<exists>ys last'. compress_from (Suc i) bound sz mp last_ind = Some (ys, last') \<and>
          described ys = described mp \<and> length ys = length mp"
        using True i run "1.prems" by (intro "1.IH"(3)) auto
      then show ?thesis using True False run i by (simp add: compress_from.simps [of i])
    next
      case n0: True
      then have ci: "Suc i < c" using un by (simp add: word_less_nat_alt)
      let ?run = "take (c - Suc i) (drop (Suc i) mp)"
      have tot: "unat (pages (mp ! i)) + total_pages ?run = total_pages (mp ! i # ?run)" by simp
      have "chain (mp ! i) ?run"
      proof (rule chain_of_run)
        fix l assume l: "i < l" "l \<le> i + (c - Suc i)"
        have "md_type (mp ! (l - 1)) = md_type (mp ! i) \<and> md_flags (mp ! (l - 1)) = md_flags (mp ! i)"
          using same [of "l - 1"] l by (cases "l - 1 = i") auto
        then show "md_type (mp ! l) = md_type (mp ! (l - 1)) \<and> md_flags (mp ! l) = md_flags (mp ! (l - 1)) \<and>
            virtual_address (mp ! l) = virtual_address (mp ! (l - 1)) + ucast (4096 * pages (mp ! (l - 1)))"
          using same [of l] l ci by auto
      qed (use ci c(3) in simp)
      note m = described_merged [OF this "1.prems"(6) ci csz less_imp_le [OF "1.prems"(3)]]
      have "n + of_nat i + 1 = of_nat (c - Suc i + i + 1)" unfolding c(1) by (simp only: of_nat_add of_nat_1)
      also have "c - Suc i + i + 1 = c" using ci by simp
      finally have e: "sz - n - of_nat i - 1 = sz - of_nat c" by (simp only: diff_diff_eq)
      have "unat (of_nat c :: u64) = c" using c(3) "1.prems"(4) by simp
      then have "unat (sz - n - of_nat i - 1) = unat sz - c"
        unfolding e using csz by (simp add: unat_sub word_le_nat_alt)
      moreover have "(ucast pgs :: u32) = of_nat (total_pages (mp ! i # ?run))"
      proof -
        have "mp ! i # ?run = take (c - i) (drop i mp)"
          using ci i(2) by (metis Cons_nth_drop_Suc Suc_diff_Suc Suc_lessD take_Suc_Cons)
        with total_pages_drop_take [of "c - i" i mp] "1.prems"(6)
        have lt: "total_pages (mp ! i # ?run) < 1048576" by simp
        have "(ucast (pages (mp ! i)) :: u64) = of_nat (unat (pages (mp ! i)))"
          by (simp add: word_unat_eq_iff)
        then have pe: "pgs = of_nat (total_pages (mp ! i # ?run))"
          unfolding c(4) tot [symmetric] by (simp only: of_nat_add)
        have "ucast (of_nat k :: u64) = (of_nat k :: u32)" if "k < 1048576" for k
          using that by (simp add: word_unat_eq_iff unsigned_ucast_eq take_bit_nat_eq_self)
        from this [OF lt] show ?thesis unfolding pe .
      qed
      ultimately have step: "(do {
          let mp = mp[i := (mp ! i)\<lparr>pages := ucast pgs\<rparr>];
          mp \<leftarrow> obj_clear zero_descriptor (i + 1) (unat n) mp;
          obj_move zero_descriptor (i + 1) (i + unat n + 1) (unat (sz - n - of_nat i - 1)) mp }) =
          Some (merged mp i c (unat sz))"
        using merged_step [OF ci csz less_imp_le [OF "1.prems"(3)] refl] by (simp add: un)
      have "\<not> unat sz - Suc i < unat sz - c" using ci csz by arith
      then have "\<not> descr_valid (merged mp i c (unat sz) ! unat sz)"
        using "1.prems"(3,5) ci csz by (simp add: merged_def nth_append nth_Cons')
      then have "\<exists>ys last'. compress_from (Suc i) bound sz (merged mp i c (unat sz)) (last_ind - n) = Some (ys, last') \<and>
          described ys = described (merged mp i c (unat sz)) \<and> length ys = length (merged mp i c (unat sz))"
        using "1.prems" True i n0 m by (intro "1.IH"(2) [OF _ _ _ _ run refl _ step]) auto
      then show ?thesis using True i run n0 step m by (simp add: compress_from.simps [of i] Let_def)
    qed
  qed
qed


lemma merge_run_off_the_end:
  assumes "\<And>l. c \<le> l \<Longrightarrow> l < length mp \<Longrightarrow> md_type (mp ! l) = md_type (mp ! i) \<and>
      md_flags (mp ! l) = md_flags (mp ! i) \<and>
      virtual_address (mp ! l) = virtual_address (mp ! (l - 1)) + ucast (4096 * pages (mp ! (l - 1)))"
  shows "merge_run mp i c n pgs = None"
  using assms
proof (induction mp i c n pgs rule: merge_run.induct)
  case (1 mp i c n pgs)
  show ?case
  proof (cases "length mp \<le> c")
    case False
    then have "merge_run mp i (Suc c) (n + 1) (pgs + ucast (pages (mp ! c))) = None"
      using "1.prems" by (intro "1.IH") auto
    with False "1.prems" [of c] show ?thesis by (simp add: merge_run.simps [of mp i c])
  qed (simp add: merge_run.simps [of mp i c])
qed

section \<open>The properties\<close>

text \<open>
  C11: \<^verbatim>\<open>order_map\<close> on a map whose first \<open>size\<close> descriptors are valid sorts these by virtual
  address, loses and duplicates none, and leaves the rest of the map alone.
\<close>

theorem order_map_sorts:
  assumes "unat sz \<le> length mp" and "\<forall>l < unat sz. descr_valid (mp ! l)"
  shows "\<exists>ys. order_map mp sz = Some ys \<and> mset ys = mset mp \<and>
    (\<forall>a b. a < b \<and> b < unat sz \<longrightarrow> virtual_address (ys ! a) \<le> virtual_address (ys ! b)) \<and>
    (\<forall>l\<ge>unat sz. ys ! l = mp ! l)"
  by (rule order_map_ok [OF assms])

definition demo_descr :: "u64 \<Rightarrow> u32 \<Rightarrow> leokernel_memory_descriptor_t" where
  "demo_descr va n = init_descriptor va null n
     (LEOKERNEL_MEMORY_MAP_AVAIL OR LEOKERNEL_MEMORY_MAP_VALID) usable"

theorem order_map_sorts_witness:
  "\<exists>ys. order_map [demo_descr 8192 1, demo_descr 4096 1, zero_descriptor] 2 = Some ys \<and>
     virtual_address (ys ! 0) \<le> virtual_address (ys ! 1)"
proof -
  have "\<forall>l < unat (2 :: u64). descr_valid ([demo_descr 8192 1, demo_descr 4096 1, zero_descriptor] ! l)"
    by (auto simp: less_2_cases_iff demo_descr_def init_descriptor_def c_macros)
  from order_map_sorts [OF _ this] obtain ys where
    "order_map [demo_descr 8192 1, demo_descr 4096 1, zero_descriptor] 2 = Some ys"
    "\<forall>a b. a < b \<and> b < unat (2 :: u64) \<longrightarrow> virtual_address (ys ! a) \<le> virtual_address (ys ! b)"
    by auto
  moreover have "(0::nat) < 1" "1 < unat (2 :: u64)" by simp_all
  ultimately show ?thesis by blast
qed

text \<open>
  C9: \<^verbatim>\<open>compress_map\<close> on a map that ends in an invalid descriptor and describes less than
  4 GiB stays inside the map and leaves the sequence of described pages, with their
  flags and types, exactly as it was.
\<close>

theorem compress_map_preserves:
  assumes "sz \<noteq> 0" "unat sz < length mp" "length mp < 4294967296"
    and "\<not> descr_valid (mp ! unat sz)" and "total_pages mp < 1048576"
  shows "\<exists>ys last'. compress_map mp sz last_ind = Some (ys, last') \<and>
    described ys = described mp \<and> length ys = length mp"
  using compress_from_ok [OF refl assms] by (simp add: compress_map_def)

theorem compress_map_preserves_witness:
  "\<exists>ys last'. compress_map [demo_descr 4096 2, demo_descr 12288 3, zero_descriptor] 2 2 = Some (ys, last') \<and>
     described ys = described [demo_descr 4096 2, demo_descr 12288 3]"
  using compress_map_preserves [of 2 "[demo_descr 4096 2, demo_descr 12288 3, zero_descriptor]" 2]
  by (fastforce simp: demo_descr_def init_descriptor_def zero_descriptor_def c_macros total_pages_def
      descr_pages_def)

text \<open>
  The loop of \<^verbatim>\<open>compress_map\<close> that looks for descriptors to merge does not compare its
  index with the size of the map: when the map is full and its first descriptor can be
  merged with all the others, the loop reads past the end of the map.
\<close>

theorem compress_map_overrun:
  assumes "length mp = unat sz" "2 \<le> unat sz"
    and "descr_valid (mp ! 0)" "md_type (mp ! 0) = usable" "DESCRIPTOR_AVAILABLE (md_flags (mp ! 0))"
    and "\<forall>l. 1 \<le> l \<and> l < length mp \<longrightarrow> md_type (mp ! l) = md_type (mp ! 0) \<and>
      md_flags (mp ! l) = md_flags (mp ! 0) \<and>
      virtual_address (mp ! l) = virtual_address (mp ! (l - 1)) + ucast (4096 * pages (mp ! (l - 1)))"
  shows "compress_map mp sz last_ind = None"
proof -
  have "sz \<noteq> 0" using assms(2) by auto
  then have "unat (sz - 1) = unat sz - 1" by (simp add: unat_minus_one)
  moreover have "merge_run mp 0 (Suc 0) 0 (ucast (pages (mp ! 0))) = None"
    by (rule merge_run_off_the_end) (use assms(6) in simp)
  ultimately show ?thesis using assms(1-5)
    by (auto simp: compress_map_def compress_from.simps [of 0])
qed

theorem compress_map_overrun_witness:
  "compress_map [demo_descr 4096 2, demo_descr 12288 3] 2 2 = None"
  by (rule compress_map_overrun) (auto simp: demo_descr_def init_descriptor_def c_macros less_2_cases_iff)

end
