(* ===== verification/Frame_Alloc.thy ===== *)
theory Frame_Alloc
  imports Mem_Ops
begin

text \<open>
  The physical frame allocator of \<^verbatim>\<open>mm/frame_alloc.c\<close>: a bitmap with one bit per 4096-byte
  frame (1 is free) and a stack of 64 frames taken from it in advance.

  The globals of the file are the fields of \<open>frame_state\<close>; \<^verbatim>\<open>pool\<close> is \<open>frame_pool\<close> and
  \<open>memory_length\<close>, which \<^verbatim>\<open>memory_manager.c\<close> owns and this file reads as an extern, is
  one of them.  The bitmap the boot loader hands over is the field \<open>frame_bitmap\<close>: the
  byte at offset \<open>k\<close> from the pointer \<^verbatim>\<open>frame_bitmap\<close>.
\<close>

datatype pool_allocation_status = fully_allocated | partially_allocated | empty

record frame_state =
  frame_bitmap :: "u64 \<Rightarrow> u8"
  pool_top :: u32
  pool_status :: pool_allocation_status
  frame_pool :: "u64 list"
  last_index :: u32
  last_free_frame :: u64
  frame_alloc_ready :: bool
  memory_length :: u64

definition PREALLOC_POOL_SIZE :: u32 where [c_macros]: "PREALLOC_POOL_SIZE = 64"

definition GET_BYTE_FROM_ADDRESS :: "u64 \<Rightarrow> u64" where [c_macros]:
  "GET_BYTE_FROM_ADDRESS addr = (addr div PAGE_SIZE) div 8"

definition GET_BIT_FROM_ADDRESS :: "u64 \<Rightarrow> u64" where [c_macros]:
  "GET_BIT_FROM_ADDRESS addr = (addr div PAGE_SIZE) mod 8"

definition GET_ADDRESS_BY_OFFSET :: "u64 \<Rightarrow> u64" where [c_macros]:
  "GET_ADDRESS_BY_OFFSET offset = offset * PAGE_SIZE"

section \<open>The operations\<close>

text \<open>
  The inner loop of \<^verbatim>\<open>kalloc_pool\<close> over the bits of one byte.  The flag says that the
  pool became full, where the C code returns from inside the loop.
\<close>

fun scan_byte :: "u64 \<Rightarrow> nat list \<Rightarrow> frame_state \<Rightarrow> bool \<times> frame_state" where
  "scan_byte i [] s = (False, s)"
| "scan_byte i (j # js) s =
     (let byte = frame_bitmap s (i div 8);
          s = (if drop_bit j byte AND 1 \<noteq> 0
               then let fr = GET_ADDRESS_BY_OFFSET (i + of_nat j)
                    in s\<lparr>frame_bitmap := (frame_bitmap s)(i div 8 := byte - push_bit j 1),
                         frame_pool := (frame_pool s)[unat (pool_top s) := fr],
                         last_free_frame := fr,
                         pool_top := pool_top s + 1\<rparr>
               else s)
      in if pool_top s = PREALLOC_POOL_SIZE
         then (True, s\<lparr>pool_status := fully_allocated, pool_top := pool_top s - 1\<rparr>)
         else scan_byte i js s)"

text \<open>The outer loop: \<open>i\<close> is below \<open>2 ^ 52\<close>, so \<^verbatim>\<open>i += 8\<close> does not wrap.\<close>

function scan_bytes :: "nat \<Rightarrow> nat \<Rightarrow> frame_state \<Rightarrow> bool \<times> frame_state" where
  "scan_bytes i n_frames s =
     (if i < n_frames
      then let (full, s) = scan_byte (of_nat i) [0..<8] (s\<lparr>last_index := of_nat i\<rparr>)
           in if full then (True, s) else scan_bytes (i + 8) n_frames s
      else (False, s))"
  by pat_completeness auto
termination by (relation "measure (\<lambda>(i, n, s). n - i)") auto

declare scan_bytes.simps [simp del]

definition kalloc_pool :: "frame_state \<Rightarrow> pool_allocation_status \<times> frame_state" where
  "kalloc_pool s =
     (if \<not> frame_alloc_ready s then (empty, s)
      else let n_frames = memory_length s div PAGE_SIZE;
               (full, s) = scan_bytes (unat (last_index s)) (unat n_frames) s
           in if full then (pool_status s, s)
              else let s = (if pool_top s = 0
                            then s\<lparr>pool_status := empty, last_index := 0\<rparr>
                            else s\<lparr>pool_status := partially_allocated,
                                    pool_top := pool_top s - 1\<rparr>)
                   in (pool_status s, s))"

definition init_frame_alloc :: "(u64 \<Rightarrow> u8) \<Rightarrow> frame_state \<Rightarrow> bool \<times> frame_state" where
  "init_frame_alloc bitmap s =
     (let s = s\<lparr>frame_bitmap := bitmap,
                frame_pool := replicate (unat PREALLOC_POOL_SIZE) 0,
                pool_top := 0, pool_status := empty, last_index := 0,
                last_free_frame := null, frame_alloc_ready := True\<rparr>;
          (_, s) = kalloc_pool s
      in (pool_status s = fully_allocated \<or> pool_status s = partially_allocated, s))"

definition kalloc_frame :: "frame_state \<Rightarrow> u64 \<times> frame_state" where
  "kalloc_frame s =
     (if \<not> frame_alloc_ready s then (null, s)
      else let (ok, s) = (if pool_status s = empty
                          then let (st, s) = kalloc_pool s in (st \<noteq> empty, s)
                          else (True, s))
           in if \<not> ok then (null, s)
              else let (frame, s) =
                     (if pool_status s = fully_allocated
                      then let index = PREALLOC_POOL_SIZE - 1 - pool_top s
                           in (frame_pool s ! unat index,
                               s\<lparr>frame_pool := (frame_pool s)[unat index := null]\<rparr>)
                      else (frame_pool s ! unat (pool_top s),
                            s\<lparr>frame_pool := (frame_pool s)[unat (pool_top s) := null]\<rparr>))
                   in if pool_top s = 0 then (frame, s\<lparr>pool_status := empty\<rparr>)
                      else (frame, s\<lparr>pool_top := pool_top s - 1\<rparr>))"

definition kalloc_and_set_frame :: "frame_state \<Rightarrow> memory \<Rightarrow> u64 \<times> frame_state \<times> memory" where
  "kalloc_and_set_frame s m =
     (let (frame, s) = kalloc_frame s
      in if frame \<noteq> null then (frame, s, memclear frame PAGE_SIZE m) else (null, s, m))"

definition kfree_frame :: "u64 \<Rightarrow> frame_state \<Rightarrow> bool \<times> frame_state" where
  "kfree_frame frame s =
     (if \<not> frame_alloc_ready s then (False, s)
      else if memory_length s \<le> frame then (False, s)
      else let byte_n = GET_BYTE_FROM_ADDRESS frame;
               byte_offset = GET_BIT_FROM_ADDRESS frame;
               s = s\<lparr>frame_bitmap := (frame_bitmap s)
                      (byte_n := frame_bitmap s byte_n OR push_bit (unat byte_offset) 1)\<rparr>
           in (True,
               if frame \<le> last_free_frame s
               then s\<lparr>last_index := ucast (GET_BYTE_FROM_ADDRESS frame), last_free_frame := frame\<rparr>
               else s))"

text \<open>\<^verbatim>\<open>ret = ret && kfree_frame(...)\<close> does not call \<^verbatim>\<open>kfree_frame\<close> once \<open>ret\<close> is false.\<close>

fun kfree_frames_list :: "u64 list \<Rightarrow> bool \<Rightarrow> frame_state \<Rightarrow> bool \<times> frame_state" where
  "kfree_frames_list [] ret s = (ret, s)"
| "kfree_frames_list (f # fs) ret s =
     (let (ret, s) = (if ret then kfree_frame f s else (False, s))
      in kfree_frames_list fs ret s)"

definition kfree_frames_array :: "nat \<Rightarrow> u64 list \<Rightarrow> frame_state \<Rightarrow> bool \<times> frame_state" where
  "kfree_frames_array num_frames array s = kfree_frames_list (take num_frames array) True s"

text \<open>
  The array has as many elements as there are frames requested; a write behind its end,
  which C would carry out, has no effect here.
\<close>

fun kalloc_frames_from ::
  "nat \<Rightarrow> nat \<Rightarrow> u64 list \<Rightarrow> frame_state \<Rightarrow> bool \<times> u64 list \<times> frame_state" where
  "kalloc_frames_from i 0 array s = (True, array, s)"
| "kalloc_frames_from i (Suc k) array s =
     (let (frame, s) = kalloc_frame s;
          array = array[i := frame]
      in if frame = null
         then let (_, s) = kfree_frames_array (if i = 0 then 0 else i - 1) array s
              in (False, array, s)
         else kalloc_frames_from (Suc i) k array s)"

definition kalloc_frames_array ::
  "u32 \<Rightarrow> u64 list \<Rightarrow> frame_state \<Rightarrow> bool \<times> u64 list \<times> frame_state" where
  "kalloc_frames_array num_frames array s = kalloc_frames_from 0 (unat num_frames) array s"

definition flush_frame_prealloc_pool :: "frame_state \<Rightarrow> frame_state" where
  "flush_frame_prealloc_pool s =
     (let s = for_loop (unat PREALLOC_POOL_SIZE)
                (\<lambda>i s. snd (kfree_frame (frame_pool s ! i) s)) s
      in s\<lparr>pool_top := 0, pool_status := empty\<rparr>)"

text \<open>In C, \<^verbatim>\<open>0xFF - 1 << byte_offset\<close> is \<^verbatim>\<open>(0xFF - 1) << byte_offset\<close>.\<close>

definition klock_frame :: "u64 \<Rightarrow> frame_state \<Rightarrow> frame_state" where
  "klock_frame frame s =
     (if \<not> frame_alloc_ready s then s
      else if memory_length s \<le> frame then s
      else let byte_n = GET_BYTE_FROM_ADDRESS frame;
               byte_offset = GET_BIT_FROM_ADDRESS frame
           in s\<lparr>frame_bitmap := (frame_bitmap s)
                 (byte_n := frame_bitmap s byte_n AND push_bit (unat byte_offset) (0xFF - 1))\<rparr>)"

section \<open>Frame numbers, free frames and frames held in the pool\<close>

text \<open>
  The abstract state of the allocator is the set of numbers of the frames it may still
  hand out: those whose bit is set, and those already taken into the pool.  The pool is
  read from its top downwards when it was filled partially, and from its bottom upwards
  (at index \<open>63 - pool_top\<close>) when it was filled completely.
\<close>

definition fnum :: "u64 \<Rightarrow> nat" where
  "fnum a = unat a div 4096"

definition is_free :: "frame_state \<Rightarrow> nat \<Rightarrow> bool" where
  "is_free s k \<longleftrightarrow> bit (frame_bitmap s (of_nat (k div 8))) (k mod 8)"

definition free_frames :: "frame_state \<Rightarrow> nat set" where
  "free_frames s = {k. k < 4503599627370496 \<and> is_free s k}"

definition ready_frames :: "frame_state \<Rightarrow> u64 list" where
  "ready_frames s = (case pool_status s of
     empty \<Rightarrow> []
   | partially_allocated \<Rightarrow> take (Suc (unat (pool_top s))) (frame_pool s)
   | fully_allocated \<Rightarrow> drop (63 - unat (pool_top s)) (frame_pool s))"

definition avail_frames :: "frame_state \<Rightarrow> nat set" where
  "avail_frames s = free_frames s \<union> fnum ` set (ready_frames s)"

text \<open>
  The pool's part of the invariant, for the frames \<open>fs\<close> it holds: page-aligned, of
  pairwise different numbers, none of them marked free in the bitmap.
\<close>

definition pool_ok :: "frame_state \<Rightarrow> u64 list \<Rightarrow> bool" where [inv_defs]:
  "pool_ok s fs \<longleftrightarrow> (\<forall>a\<in>set fs. page_aligned a) \<and> distinct (map fnum fs) \<and>
     fnum ` set fs \<inter> free_frames s = {}"

definition frame_inv :: "frame_state \<Rightarrow> bool" where [inv_defs]:
  "frame_inv s \<longleftrightarrow> length (frame_pool s) = 64 \<and> unat (pool_top s) < 64 \<and>
     (pool_status s = empty \<longrightarrow> pool_top s = 0) \<and> 8 dvd unat (last_index s) \<and>
     pool_ok s (ready_frames s) \<and> 0 \<notin> avail_frames s"

lemma free_frames_cong [simp]:
  "free_frames (s\<lparr>frame_pool := p\<rparr>) = free_frames s"
  "free_frames (s\<lparr>pool_top := t\<rparr>) = free_frames s"
  "free_frames (s\<lparr>pool_status := st\<rparr>) = free_frames s"
  "free_frames (s\<lparr>last_index := i\<rparr>) = free_frames s"
  "free_frames (s\<lparr>last_free_frame := f\<rparr>) = free_frames s"
  by (simp_all add: free_frames_def is_free_def)

lemma fnum_page: "k < 4503599627370496 \<Longrightarrow> fnum (of_nat k * 4096) = k"
  and page_aligned_page: "k < 4503599627370496 \<Longrightarrow> page_aligned (of_nat k * 4096)"
proof -
  assume k: "k < 4503599627370496"
  then have "unat (of_nat k * 4096 :: u64) = k * 4096"
    by (simp add: unat_word_ariths(2))
  then show "fnum (of_nat k * 4096) = k" and "page_aligned (of_nat k * 4096)"
    by (simp_all add: fnum_def page_aligned_def)
qed

lemma is_free_upd:
  assumes "k < 4503599627370496"
  shows "is_free (s\<lparr>frame_bitmap := (frame_bitmap s)(x := b)\<rparr>) k \<longleftrightarrow>
    (if k div 8 = unat x then bit b (k mod 8) else is_free s k)"
proof -
  have "k div 8 < 18446744073709551616" using assms by simp
  then have "x = of_nat (k div 8) \<longleftrightarrow> k div 8 = unat x"
    by (metis unat_eq_of_nat_iff)
  then show ?thesis by (auto simp: is_free_def)
qed

text \<open>Taking the set bit \<open>j\<close> out of a byte marks exactly that frame as used.\<close>

lemma bit_minus_push_bit:
  assumes "bit (b :: u8) j"
  shows "bit (b - 2 ^ j) k \<longleftrightarrow> bit b k \<and> k \<noteq> j"
proof -
  from assms have "unset_bit j b = b - 2 ^ j" using unset_bit_eq [of j b] by simp
  then show ?thesis using bit_unset_bit_iff [of j b k] by auto
qed

lemma free_frames_take:
  assumes "bit (frame_bitmap s x) j" and "j < 8" and "8 * unat x + j < 4503599627370496"
  shows "free_frames (s\<lparr>frame_bitmap := (frame_bitmap s)(x := frame_bitmap s x - push_bit j 1)\<rparr>) =
    free_frames s - {8 * unat x + j}" and "8 * unat x + j \<in> free_frames s"
proof -
  show "8 * unat x + j \<in> free_frames s"
    using assms by (simp add: free_frames_def is_free_def)
  have "is_free (s\<lparr>frame_bitmap := (frame_bitmap s)(x := frame_bitmap s x - push_bit j 1)\<rparr>) k \<longleftrightarrow>
      is_free s k \<and> k \<noteq> 8 * unat x + j" if "k < 4503599627370496" for k
  proof (cases "k div 8 = unat x")
    case True
    then have "k \<noteq> 8 * unat x + j \<longleftrightarrow> k mod 8 \<noteq> j" using assms(2) by presburger
    with True show ?thesis unfolding is_free_upd [OF that]
      by (simp add: bit_minus_push_bit assms(1) is_free_def)
  next
    case False
    then have "k \<noteq> 8 * unat x + j" using assms(2) by auto
    with False show ?thesis unfolding is_free_upd [OF that] by simp
  qed
  then show "free_frames (s\<lparr>frame_bitmap :=
      (frame_bitmap s)(x := frame_bitmap s x - push_bit j 1)\<rparr>) = free_frames s - {8 * unat x + j}"
    by (auto simp: free_frames_def)
qed

section \<open>Filling the pool\<close>

definition scan_ok :: "nat set \<Rightarrow> frame_state \<Rightarrow> bool" where
  "scan_ok U s \<longleftrightarrow> length (frame_pool s) = 64 \<and> unat (pool_top s) < 64 \<and>
     pool_status s = empty \<and> pool_ok s (take (unat (pool_top s)) (frame_pool s)) \<and>
     fnum ` set (take (unat (pool_top s)) (frame_pool s)) \<union> free_frames s = U"

definition filled_ok :: "nat set \<Rightarrow> frame_state \<Rightarrow> bool" where
  "filled_ok U s \<longleftrightarrow> length (frame_pool s) = 64 \<and> pool_top s = 63 \<and>
     pool_status s = fully_allocated \<and> pool_ok s (frame_pool s) \<and>
     fnum ` set (frame_pool s) \<union> free_frames s = U"

text \<open>One free bit moves its frame from the bitmap to the pool.\<close>

lemma pool_ok_take_frame:
  assumes ok: "pool_ok s (take t (frame_pool s))" and "t < 64" and "length (frame_pool s) = 64"
    and bit: "bit (frame_bitmap s x) j" "j < 8" and k: "k = 8 * unat x + j" "k < 4503599627370496"
  defines "s' \<equiv> s\<lparr>frame_bitmap := (frame_bitmap s)(x := frame_bitmap s x - push_bit j 1),
      frame_pool := (frame_pool s)[t := of_nat k * 4096]\<rparr>"
  shows "pool_ok s' (take (Suc t) (frame_pool s'))"
    and "fnum ` set (take (Suc t) (frame_pool s')) \<union> free_frames s' =
      fnum ` set (take t (frame_pool s)) \<union> free_frames s"
proof -
  have free': "free_frames s' = free_frames s - {k}" and kin: "k \<in> free_frames s"
    using free_frames_take [OF bit] k by (simp_all add: s'_def)
  have pool': "take (Suc t) (frame_pool s') = take t (frame_pool s) @ [of_nat k * 4096]"
    using assms(2,3) by (simp add: s'_def take_Suc_conv_app_nth)
  have fk: "fnum (of_nat k * 4096) = k" "page_aligned (of_nat k * 4096)"
    using fnum_page page_aligned_page k(2) by auto
  show "pool_ok s' (take (Suc t) (frame_pool s'))"
    using ok kin fk unfolding pool_ok_def pool' free' by auto
  show "fnum ` set (take (Suc t) (frame_pool s')) \<union> free_frames s' =
      fnum ` set (take t (frame_pool s)) \<union> free_frames s"
    using kin fk unfolding pool' free' by auto
qed

lemma scan_step:
  assumes ok: "scan_ok U s" and bit: "bit (frame_bitmap s (i div 8)) j" "j < 8"
    and i: "8 dvd unat i" "unat i < 4503599627370496"
  defines "s' \<equiv> s\<lparr>frame_bitmap := (frame_bitmap s)
        (i div 8 := frame_bitmap s (i div 8) - push_bit j 1),
      frame_pool := (frame_pool s)[unat (pool_top s) := GET_ADDRESS_BY_OFFSET (i + of_nat j)],
      last_free_frame := GET_ADDRESS_BY_OFFSET (i + of_nat j),
      pool_top := pool_top s + 1\<rparr>"
  shows "unat (pool_top s') = Suc (unat (pool_top s))"
    and "pool_top s' = 64 \<Longrightarrow>
      filled_ok U (s'\<lparr>pool_status := fully_allocated, pool_top := pool_top s' - 1\<rparr>)"
    and "pool_top s' \<noteq> 64 \<Longrightarrow> scan_ok U s'"
proof -
  define t where "t = unat (pool_top s)"
  have t: "t < 64" and len: "length (frame_pool s) = 64"
    and pool: "pool_ok s (take t (frame_pool s))"
    and U: "fnum ` set (take t (frame_pool s)) \<union> free_frames s = U"
    using ok by (auto simp: scan_ok_def t_def)
  define k where "k = unat i + j"
  have ki: "unat i = 8 * unat (i div 8)" using i(1) by (simp add: unat_div)
  obtain q where "unat i = 8 * q" using i(1) by auto
  with i(2) bit(2) have kb: "k < 4503599627370496" by (simp add: k_def)
  have addr: "GET_ADDRESS_BY_OFFSET (i + of_nat j) = of_nat k * 4096"
    by (simp add: c_macros k_def)
  note step = pool_ok_take_frame [OF pool t len bit, of k]
  have k8: "k = 8 * unat (i div 8) + j" using ki by (simp add: k_def)
  let ?s1 = "s\<lparr>frame_bitmap := (frame_bitmap s)
        (i div 8 := frame_bitmap s (i div 8) - push_bit j 1),
      frame_pool := (frame_pool s)[t := of_nat k * 4096]\<rparr>"
  have fr: "free_frames s' = free_frames ?s1" and fp: "frame_pool s' = frame_pool ?s1"
    by (simp_all add: s'_def addr t_def free_frames_def is_free_def)
  show top: "unat (pool_top s') = Suc (unat (pool_top s))"
    using t by (simp add: s'_def t_def unat_word_ariths)
  have ok': "pool_ok s' (take (Suc t) (frame_pool s'))"
    and U': "fnum ` set (take (Suc t) (frame_pool s')) \<union> free_frames s' = U"
    using step [OF k8 kb] U unfolding pool_ok_def fr fp by auto
  have len': "length (frame_pool s') = 64" and st: "pool_status s' = empty"
    using len ok by (auto simp: s'_def scan_ok_def)
  show "filled_ok U (s'\<lparr>pool_status := fully_allocated, pool_top := pool_top s' - 1\<rparr>)"
    if "pool_top s' = 64"
  proof -
    from that top have "Suc t = 64" by (simp add: t_def)
    with ok' U' len' that show ?thesis by (simp add: filled_ok_def pool_ok_def)
  qed
  show "scan_ok U s'" if "pool_top s' \<noteq> 64"
  proof -
    have "unat (pool_top s') \<noteq> 64" using that by (simp add: word_unat_eq_iff)
    with top t ok' U' len' st show ?thesis by (simp add: scan_ok_def t_def)
  qed
qed

text \<open>Fields the scan does not write.\<close>

lemma scan_byte_frame:
  "scan_byte i js s = (full, s') \<Longrightarrow>
    last_index s' = last_index s \<and> memory_length s' = memory_length s \<and>
    frame_alloc_ready s' = frame_alloc_ready s"
proof (induction i js s rule: scan_byte.induct)
  case (2 i j js s)
  then show ?case by (auto simp: Let_def split: if_splits)
qed simp

lemma scan_byte_ok:
  assumes "scan_byte i js s = (full, s')" and "scan_ok U s" and "set js \<subseteq> {..<8}"
    and "8 dvd unat i" "unat i < 4503599627370496"
  shows "if full then filled_ok U s' else scan_ok U s'"
  using assms
proof (induction i js s rule: scan_byte.induct)
  case (2 i j js s)
  note i = "2.prems"(4,5)
  show ?case
  proof (cases "bit (frame_bitmap s (i div 8)) j")
    case True
    then have "drop_bit j (frame_bitmap s (i div 8)) AND 1 \<noteq> 0" by (simp add: shift_and_one_bit)
    moreover have "j < 8" using "2.prems"(3) by auto
    note scan_step [OF "2.prems"(2) True this i]
    ultimately show ?thesis
      using "2.IH" [OF refl refl] "2.prems"
      by (auto simp: PREALLOC_POOL_SIZE_def Let_def split: if_splits)
  next
    case False
    then have "\<not> drop_bit j (frame_bitmap s (i div 8)) AND 1 \<noteq> 0" by (simp add: shift_and_one_bit)
    moreover have "pool_top s \<noteq> 64" using "2.prems"(2) by (auto simp: scan_ok_def)
    ultimately show ?thesis
      using "2.IH" [OF refl refl] "2.prems"
      by (auto simp: PREALLOC_POOL_SIZE_def Let_def split: if_splits)
  qed
qed simp

lemma scan_ok_last_index [simp]: "scan_ok U (s\<lparr>last_index := i\<rparr>) = scan_ok U s"
  by (simp add: scan_ok_def pool_ok_def)

lemma scan_bytes_ok:
  assumes "scan_bytes i n s = (full, s')" and "scan_ok U s"
    and "8 dvd i" and "n \<le> 4503599627370496" and "8 dvd unat (last_index s)"
  shows "(if full then filled_ok U s' else scan_ok U s') \<and> 8 dvd unat (last_index s') \<and>
    memory_length s' = memory_length s \<and> frame_alloc_ready s' = frame_alloc_ready s"
  using assms
proof (induction i n s rule: scan_bytes.induct)
  case (1 i n s)
  show ?case
  proof (cases "i < n")
    case False
    with "1.prems" show ?thesis by (simp add: scan_bytes.simps [of i n s])
  next
    case True
    obtain f t where b: "scan_byte (of_nat i) [0..<8] (s\<lparr>last_index := of_nat i\<rparr>) = (f, t)"
      by (cases "scan_byte (of_nat i) [0..<8] (s\<lparr>last_index := of_nat i\<rparr>)") auto
    have i: "unat (of_nat i :: u64) = i" using True "1.prems"(4) by simp
    have fr: "last_index t = of_nat i" "memory_length t = memory_length s"
      "frame_alloc_ready t = frame_alloc_ready s"
      using scan_byte_frame [OF b] by auto
    have li: "8 dvd unat (last_index t)"
      using "1.prems"(3) by (simp add: fr unat_of_nat dvd_mod)
    have ok: "if f then filled_ok U t else scan_ok U t"
      by (rule scan_byte_ok [OF b]) (use "1.prems" True i in auto)
    show ?thesis
    proof (cases f)
      case True
      with "1.prems"(1) \<open>i < n\<close> b ok li fr show ?thesis
        by (auto simp: scan_bytes.simps [of i n s])
    next
      case False
      then have r: "scan_bytes (i + 8) n t = (full, s')"
        using "1.prems"(1) \<open>i < n\<close> b by (simp add: scan_bytes.simps [of i n s])
      have "8 dvd i + 8" using "1.prems"(3) by simp
      with "1.IH" [OF True b [symmetric] refl _ r] ok False "1.prems" li fr
      show ?thesis by auto
    qed
  qed
qed

lemma frame_inv_scan_ok:
  "frame_inv s \<Longrightarrow> pool_status s = empty \<Longrightarrow> scan_ok (avail_frames s) s"
  by (simp add: inv_defs scan_ok_def avail_frames_def ready_frames_def)

lemma kalloc_pool_ok:
  assumes "kalloc_pool s = (st, s')" and inv: "frame_inv s" and e: "pool_status s = empty"
  shows "frame_inv s' \<and> avail_frames s' = avail_frames s \<and> st = pool_status s' \<and>
    memory_length s' = memory_length s \<and> frame_alloc_ready s' = frame_alloc_ready s"
proof (cases "frame_alloc_ready s")
  case False
  with assms show ?thesis by (auto simp: kalloc_pool_def)
next
  case True
  let ?n = "unat (memory_length s div PAGE_SIZE)"
  have n: "?n \<le> 4503599627370496"
  proof -
    have "unat (memory_length s) div 4096 \<le> 18446744073709551616 div 4096"
      by (rule div_le_mono) simp
    then show ?thesis by (simp add: unat_div)
  qed
  obtain full t where b: "scan_bytes (unat (last_index s)) ?n s = (full, t)" by fastforce
  have ok: "if full then filled_ok (avail_frames s) t else scan_ok (avail_frames s) t"
    and li: "8 dvd unat (last_index t)"
    and fr: "memory_length t = memory_length s" "frame_alloc_ready t = frame_alloc_ready s"
    using scan_bytes_ok [OF b frame_inv_scan_ok [OF inv e] _ n] inv by (auto simp: frame_inv_def)
  have z: "0 \<notin> avail_frames s" using inv by (simp add: frame_inv_def)
  show ?thesis
  proof (cases full)
    case f: True
    then have "st = pool_status t" and "s' = t" using assms(1) True b by (auto simp: kalloc_pool_def)
    moreover have "avail_frames t = avail_frames s" "frame_inv t"
      using ok f li z by (auto simp: filled_ok_def inv_defs avail_frames_def ready_frames_def)
    ultimately show ?thesis using fr by simp
  next
    case f: False
    then have ok: "scan_ok (avail_frames s) t" using ok by simp
    show ?thesis
    proof (cases "pool_top t = 0")
      case t0: True
      then have r: "st = empty" "s' = t\<lparr>pool_status := empty, last_index := 0\<rparr>"
        using assms(1) True b f by (auto simp: kalloc_pool_def)
      then show ?thesis
        using ok t0 fr z by (auto simp: scan_ok_def inv_defs avail_frames_def ready_frames_def)
    next
      case t0: False
      then have r: "st = partially_allocated"
          "s' = t\<lparr>pool_status := partially_allocated, pool_top := pool_top t - 1\<rparr>"
        using assms(1) True b f by (auto simp: kalloc_pool_def)
      have "unat (pool_top t) \<noteq> 0" using t0 by (simp add: unat_eq_zero)
      moreover have "unat (pool_top t - 1) = unat (pool_top t) - 1"
        using t0 by (simp add: unat_minus_one)
      ultimately show ?thesis
        using ok li fr z by (auto simp: r scan_ok_def inv_defs avail_frames_def ready_frames_def)
    qed
  qed
qed

text \<open>Handing one frame of the pool out.\<close>

lemma frame_inv_remove:
  assumes inv: "frame_inv s" and r: "ready_frames s = ys @ f # zs"
    and r': "ready_frames s' = ys @ zs" and fr: "free_frames s' = free_frames s"
    and "length (frame_pool s') = 64" "unat (pool_top s') < 64"
    and "pool_status s' = empty \<Longrightarrow> pool_top s' = 0" "last_index s' = last_index s"
  shows "frame_inv s' \<and> page_aligned f \<and> fnum f \<in> avail_frames s \<and>
    avail_frames s' = avail_frames s - {fnum f}"
proof -
  have ok: "pool_ok s (ys @ f # zs)" using inv r by (simp add: frame_inv_def)
  have "pool_ok s' (ys @ zs)" and pa: "page_aligned f"
    using ok by (auto simp: pool_ok_def fr)
  moreover have av: "avail_frames s' = avail_frames s - {fnum f}"
    using ok by (auto simp: avail_frames_def r r' fr pool_ok_def)
  moreover have "fnum f \<in> avail_frames s" by (simp add: avail_frames_def r)
  moreover have "frame_inv s'"
    using inv assms(5-8) \<open>pool_ok s' (ys @ zs)\<close> av by (auto simp: frame_inv_def r')
  ultimately show ?thesis by simp
qed

lemma kalloc_frame_ok:
  assumes k: "kalloc_frame s = (f, s')" and inv: "frame_inv s"
  shows "frame_inv s' \<and> (if f = null then avail_frames s' = avail_frames s
      else page_aligned f \<and> fnum f \<in> avail_frames s \<and> avail_frames s' = avail_frames s - {fnum f})
    \<and> memory_length s' = memory_length s \<and> frame_alloc_ready s' = frame_alloc_ready s"
proof (cases "frame_alloc_ready s")
  case False
  with k inv show ?thesis by (auto simp: kalloc_frame_def)
next
  case True
  obtain ok t where refill: "(if pool_status s = empty
      then let (st, s) = kalloc_pool s in (st \<noteq> empty, s) else (True, s)) = (ok, t)"
    by fastforce
  have t: "frame_inv t" "avail_frames t = avail_frames s" "memory_length t = memory_length s"
      "frame_alloc_ready t = frame_alloc_ready s" "ok \<longleftrightarrow> pool_status t \<noteq> empty"
    using refill kalloc_pool_ok [of s _ t] inv by (auto split: if_splits prod.splits)
  show ?thesis
  proof (cases ok)
    case False
    with k True refill t show ?thesis by (auto simp: kalloc_frame_def)
  next
    case okT: True
    let ?n = "unat (pool_top t)"
    have len: "length (frame_pool t) = 64" and top: "?n < 64" using t(1) by (auto simp: frame_inv_def)
    have m1: "pool_top t \<noteq> 0 \<Longrightarrow> unat (pool_top t - 1) = ?n - 1" by (simp add: unat_minus_one)
    have n0: "pool_top t = 0 \<longleftrightarrow> ?n = 0" by (simp add: unat_eq_zero)
    have d: "64 - ?n = Suc (63 - ?n)" using top by simp
    have st0: "pool_status t \<noteq> empty" using okT t(5) by simp
    let ?idx = "if pool_status t = fully_allocated then 63 - ?n else ?n"
    have idx: "unat (PREALLOC_POOL_SIZE - 1 - pool_top t) = 63 - ?n"
      using top by (simp add: PREALLOC_POOL_SIZE_def unat_sub word_le_nat_alt)
    let ?u = "t\<lparr>frame_pool := (frame_pool t)[?idx := null]\<rparr>"
    let ?v = "if pool_top t = 0 then ?u\<lparr>pool_status := empty\<rparr> else ?u\<lparr>pool_top := pool_top t - 1\<rparr>"
    have r: "f = frame_pool t ! ?idx" "s' = ?v"
      using k True refill okT idx by (auto simp: kalloc_frame_def split: if_splits)
    obtain ys zs where ready: "ready_frames t = ys @ f # zs" "ready_frames s' = ys @ zs"
    proof (cases "pool_status t = fully_allocated")
      case True
      then have "ready_frames t = [] @ f # drop (Suc (63 - ?n)) (frame_pool t)"
        using len top r by (simp add: ready_frames_def Cons_nth_drop_Suc)
      moreover have "ready_frames s' = [] @ drop (Suc (63 - ?n)) (frame_pool t)"
        using True len top m1 n0 d by (auto simp: r(2) ready_frames_def drop_update_cancel)
      ultimately show thesis by (rule that)
    next
      case False
      then have st: "pool_status t = partially_allocated"
        using okT t(5) by (cases "pool_status t") auto
      then have "ready_frames t = take ?n (frame_pool t) @ f # []"
        using len top r by (simp add: ready_frames_def take_Suc_conv_app_nth)
      moreover have "ready_frames s' = take ?n (frame_pool t) @ []"
        using st m1 n0 by (auto simp: r(2) ready_frames_def)
      ultimately show thesis by (rule that)
    qed
    have s': "length (frame_pool s') = 64" "last_index s' = last_index t"
        "free_frames s' = free_frames t"
      by (simp_all add: r(2) len)
    have top': "unat (pool_top s') < 64" "pool_status s' = empty \<Longrightarrow> pool_top s' = 0"
      using top m1 st0 by (auto simp: r(2) split: if_splits)
    have rem: "frame_inv s'" "page_aligned f" "fnum f \<in> avail_frames t"
        "avail_frames s' = avail_frames t - {fnum f}"
      using frame_inv_remove [OF t(1) ready s'(3) s'(1) top' s'(2)] by blast+
    have "0 \<notin> avail_frames t" using t(1) by (simp add: frame_inv_def)
    moreover have "fnum null = 0" by (simp add: fnum_def)
    ultimately have "f \<noteq> null" using rem(3) by metis
    moreover have "memory_length s' = memory_length t" "frame_alloc_ready s' = frame_alloc_ready t"
      by (simp_all add: r(2))
    ultimately show ?thesis using t(2-4) rem by simp
  qed
qed

section \<open>The interface of a frame provider\<close>

text \<open>
  What the page-table code and the array allocation below rely on: a frame handed out
  is page-aligned, was available, and is not available afterwards; a failure takes
  nothing.
\<close>

locale frame_provider =
  fixes alloc :: "'s \<Rightarrow> u64 \<times> 's"
    and avail :: "'s \<Rightarrow> nat set"
    and inv :: "'s \<Rightarrow> bool"
  assumes alloc_inv: "inv s \<Longrightarrow> alloc s = (f, s') \<Longrightarrow> inv s'"
    and alloc_some: "inv s \<Longrightarrow> alloc s = (f, s') \<Longrightarrow> f \<noteq> null \<Longrightarrow>
      page_aligned f \<and> fnum f \<in> avail s \<and> avail s' = avail s - {fnum f}"
    and alloc_none: "inv s \<Longrightarrow> alloc s = (null, s') \<Longrightarrow> avail s' = avail s"
begin

text \<open>Frames taken one after the other, failing as a whole when one request fails.\<close>

primrec alloc_n :: "nat \<Rightarrow> 's \<Rightarrow> (u64 list \<times> 's) option" where
  "alloc_n 0 s = Some ([], s)"
| "alloc_n (Suc n) s =
     (let (f, s) = alloc s
      in if f = null then None
         else case alloc_n n s of None \<Rightarrow> None | Some (fs, s) \<Rightarrow> Some (f # fs, s))"

lemma alloc_n_ok:
  "alloc_n n s = Some (fs, s') \<Longrightarrow> inv s \<Longrightarrow>
    inv s' \<and> length fs = n \<and> null \<notin> set fs \<and> (\<forall>f\<in>set fs. page_aligned f) \<and>
    distinct (map fnum fs) \<and> fnum ` set fs \<subseteq> avail s \<and> avail s' = avail s - fnum ` set fs"
proof (induction n arbitrary: s fs)
  case (Suc n)
  obtain f t where a: "alloc s = (f, t)" by fastforce
  with Suc.prems obtain gs where f: "f \<noteq> null" and n: "alloc_n n t = Some (gs, s')"
    and fs: "fs = f # gs"
    by (auto split: if_splits option.splits)
  have t: "inv t" "page_aligned f" "fnum f \<in> avail s" "avail t = avail s - {fnum f}"
    using alloc_inv [OF Suc.prems(2) a] alloc_some [OF Suc.prems(2) a f] by auto
  from Suc.IH [OF n t(1)] t f show ?case unfolding fs by auto
qed auto

end

interpretation frames: frame_provider kalloc_frame avail_frames frame_inv
  by unfold_locales (use kalloc_frame_ok in \<open>fastforce split: if_splits\<close>)+

text \<open>The array form of the C code is the list form of the interface.\<close>

lemma kalloc_frames_from_True:
  assumes "kalloc_frames_from i k arr s = (True, arr', s')" and "length arr = i + k"
  shows "\<exists>fs. frames.alloc_n k s = Some (fs, s') \<and> arr' = take i arr @ fs"
  using assms
proof (induction k arbitrary: i arr s)
  case (Suc k)
  obtain f t where a: "kalloc_frame s = (f, t)" by fastforce
  with Suc.prems have f: "f \<noteq> null"
    and r: "kalloc_frames_from (Suc i) k (arr[i := f]) t = (True, arr', s')"
    by (auto simp: Let_def split: if_splits prod.splits)
  from Suc.IH [OF r] Suc.prems(2) obtain fs where
    fs: "frames.alloc_n k t = Some (fs, s')" "arr' = take (Suc i) (arr[i := f]) @ fs" by auto
  have "take (Suc i) (arr[i := f]) = take i arr @ [f]"
    using Suc.prems(2) by (simp add: take_Suc_conv_app_nth)
  with fs a f show ?case by simp
qed simp

section \<open>Returning and reserving frames\<close>

lemma fnum_bound: "fnum f < 4503599627370496"
proof -
  have "unat f div 4096 \<le> 18446744073709551615 div 4096"
    using unat_less_64 [of f] by (intro div_le_mono) linarith
  then show ?thesis by (simp add: fnum_def)
qed

lemma byte_bit_of_address:
  "unat (GET_BYTE_FROM_ADDRESS f) = fnum f div 8" "unat (GET_BIT_FROM_ADDRESS f) = fnum f mod 8"
  by (simp_all add: c_macros fnum_def unat_div unat_mod)

lemma kfree_frame_free:
  assumes "kfree_frame f s = (True, s')"
  shows "free_frames s' = insert (fnum f) (free_frames s)" and "frame_pool s' = frame_pool s"
    "pool_top s' = pool_top s" "pool_status s' = pool_status s" "memory_length s' = memory_length s"
    "frame_alloc_ready s' = frame_alloc_ready s"
proof -
  let ?bm = "(frame_bitmap s)(GET_BYTE_FROM_ADDRESS f := frame_bitmap s (GET_BYTE_FROM_ADDRESS f) OR
      push_bit (unat (GET_BIT_FROM_ADDRESS f)) 1)"
  have bm: "frame_bitmap s' = ?bm"
    using assms by (auto simp: kfree_frame_def Let_def split: if_splits)
  have "is_free s' k \<longleftrightarrow> k = fnum f \<or> is_free s k" if k: "k < 4503599627370496" for k
  proof -
    have "is_free s' k \<longleftrightarrow> is_free (s\<lparr>frame_bitmap := ?bm\<rparr>) k" by (simp add: is_free_def bm)
    also have "\<dots> \<longleftrightarrow> k = fnum f \<or> is_free s k"
    proof (cases "k div 8 = fnum f div 8")
      case True
      then have eq: "k = fnum f \<longleftrightarrow> k mod 8 = fnum f mod 8" by (metis div_mult_mod_eq)
      have "GET_BYTE_FROM_ADDRESS f = of_nat (k div 8)"
        using True byte_bit_of_address(1) [of f] by (metis of_nat_unat ucast_id)
      with True eq show ?thesis
        unfolding is_free_upd [OF k] byte_bit_of_address
        by (auto simp: is_free_def bit_simps)
    next
      case False
      then show ?thesis unfolding is_free_upd [OF k] byte_bit_of_address by auto
    qed
    finally show ?thesis .
  qed
  then show "free_frames s' = insert (fnum f) (free_frames s)"
    using fnum_bound [of f] by (auto simp: free_frames_def)
qed (use assms in \<open>auto simp: kfree_frame_def Let_def split: if_splits\<close>)

lemma kfree_frame_avail:
  assumes "kfree_frame f s = (True, s')"
  shows "ready_frames s' = ready_frames s" and "avail_frames s' = insert (fnum f) (avail_frames s)"
proof -
  show r: "ready_frames s' = ready_frames s"
    using kfree_frame_free [OF assms]
    by (auto simp: ready_frames_def split: pool_allocation_status.split)
  show "avail_frames s' = insert (fnum f) (avail_frames s)"
    using kfree_frame_free(1) [OF assms] by (auto simp: avail_frames_def r)
qed

end
