(* ===== verification/Paging.thy ===== *)
theory Paging
  imports Frame_Alloc
begin

text \<open>
  The four-level page tables of \<^verbatim>\<open>mm/paging.c\<close>.  The code dereferences physical addresses
  directly, so tables are read and written in the byte memory \<open>pmem\<close>; \<open>falloc\<close> is the state
  of the frame allocator, \<open>cr3\<close> the register, and \<open>tlb_flushes\<close> the addresses given to
  \<^verbatim>\<open>invlpg\<close>, the last one first.
\<close>

record paging_state =
  falloc :: frame_state
  pmem :: memory
  cr3 :: u64
  tlb_flushes :: "u64 list"

definition PAGE_FLAGS :: u64 where [c_macros]: "PAGE_FLAGS = 0x1 OR 0x2 OR 0x10"

definition TRANSLATION_UNKNOWN :: u64 where [c_macros]: "TRANSLATION_UNKNOWN = 0xFFFFFFFFFFFFFFFF"

definition page_mask :: u64 where "page_mask = 0xFFFFFFFFFFFFF000"

section \<open>The operations\<close>

definition field :: "nat \<Rightarrow> u64 \<Rightarrow> u16" where
  "field k v = ucast (drop_bit k v AND 0x1FF)"

definition flush_tlb_entry :: "u64 \<Rightarrow> 'z paging_state_scheme \<Rightarrow> 'z paging_state_scheme" where
  "flush_tlb_entry addr s = s\<lparr>tlb_flushes := addr # tlb_flushes s\<rparr>"

text \<open>
  One level of the descent in \<^verbatim>\<open>map_page\<close>: the table behind entry \<open>i\<close> of \<open>tbl\<close>, allocated
  if there is none; \<open>None\<close> if that fails.
\<close>

definition next_table ::
  "u64 \<Rightarrow> u16 \<Rightarrow> 'z paging_state_scheme \<Rightarrow> u64 option \<times> 'z paging_state_scheme" where
  "next_table tbl i s =
     (if load64 (pmem s) (slot tbl i) = null
      then let (new_entry, fa) = kalloc_frame (falloc s);
               s = s\<lparr>falloc := fa\<rparr>
           in if new_entry = null then (None, s)
              else (Some new_entry,
                    s\<lparr>pmem := store64 (pmem s) (slot tbl i) (new_entry OR PAGE_FLAGS)\<rparr>)
      else (Some (load64 (pmem s) (slot tbl i) AND page_mask), s))"

definition map_page :: "u64 \<Rightarrow> u64 \<Rightarrow> 'z paging_state_scheme \<Rightarrow> bool \<times> 'z paging_state_scheme" where
  "map_page virtual physical s =
     (let field0 = field 39 virtual;
          field1 = field 30 virtual;
          field2 = field 21 virtual;
          field3 = field 12 virtual;
          pml4 = cr3 s AND page_mask
      in case next_table pml4 field0 s of
           (None, s) \<Rightarrow> (False, s)
         | (Some pdpt, s) \<Rightarrow> (case next_table pdpt field1 s of
             (None, s) \<Rightarrow> (False, s)
           | (Some pd, s) \<Rightarrow> (case next_table pd field2 s of
               (None, s) \<Rightarrow> (False, s)
             | (Some pt, s) \<Rightarrow>
                 let s = flush_tlb_entry virtual s
                 in (True, s\<lparr>pmem := store64 (pmem s) (slot pt field3) (physical OR PAGE_FLAGS)\<rparr>))))"

definition get_physical_address :: "u64 \<Rightarrow> 'z paging_state_scheme \<Rightarrow> u64" where
  "get_physical_address virtual s =
     (let field0 = field 39 virtual;
          field1 = field 30 virtual;
          field2 = field 21 virtual;
          field3 = field 12 virtual;
          offset = virtual AND 0xFFF;
          pml4 = cr3 s AND page_mask
      in if load64 (pmem s) (slot pml4 field0) = null then TRANSLATION_UNKNOWN
         else let pdpt = load64 (pmem s) (slot pml4 field0) AND page_mask
         in if load64 (pmem s) (slot pdpt field1) = null then TRANSLATION_UNKNOWN
            else let pd = load64 (pmem s) (slot pdpt field1) AND page_mask
            in if load64 (pmem s) (slot pd field2) = null then TRANSLATION_UNKNOWN
               else let pt = load64 (pmem s) (slot pd field2) AND page_mask
               in load64 (pmem s) (slot pt field3) AND page_mask OR offset)"

section \<open>Addresses\<close>

lemma bit_page_mask: "bit page_mask k \<longleftrightarrow> 12 \<le> k \<and> k < 64"
proof -
  have eq: "page_mask = NOT (mask 12)" by (simp add: page_mask_def mask_eq_exp_minus_1)
  have "bit (NOT (mask 12) :: u64) k \<longleftrightarrow> k < 64 \<and> \<not> k < 12"
    by (simp only: bit_not_iff bit_mask_iff possible_bit_word) auto
  then show ?thesis unfolding eq by auto
qed

lemma page_aligned_bits: "page_aligned a \<longleftrightarrow> (\<forall>k<12. \<not> bit a k)"
proof -
  have "unat a mod 4096 = unat (take_bit 12 a)"
    by (simp add: take_bit_eq_mod unat_mod)
  then have "page_aligned a \<longleftrightarrow> take_bit 12 a = 0" by (simp add: page_aligned_def unat_eq_zero)
  also have "\<dots> \<longleftrightarrow> (\<forall>k<12. \<not> bit a k)"
    by (auto simp: bit_eq_iff bit_take_bit_iff)
  finally show ?thesis .
qed

lemma page_aligned_mask [simp]: "page_aligned (a AND page_mask)"
  by (simp add: page_aligned_bits bit_and_iff bit_page_mask)

lemma mask_of_aligned: "page_aligned a \<Longrightarrow> a AND page_mask = a"
  by (rule bit_eqI) (auto simp: page_aligned_bits bit_and_iff bit_page_mask possible_bit_word, metis not_le)

lemma bit_PAGE_FLAGS: "bit PAGE_FLAGS k \<Longrightarrow> k < 12"
proof -
  have "PAGE_FLAGS = 2 ^ 0 OR 2 ^ 1 OR 2 ^ 4" by (simp add: PAGE_FLAGS_def)
  moreover assume "bit PAGE_FLAGS k"
  ultimately have "bit (2 ^ 0 OR 2 ^ 1 OR 2 ^ 4 :: u64) k" by simp
  then show "k < 12" by (auto simp only: bit_or_iff bit_exp_iff)
qed

lemma entry_of_table: "page_aligned f \<Longrightarrow> (f OR PAGE_FLAGS) AND page_mask = f"
proof (rule bit_eqI)
  fix k assume f: "page_aligned f" "possible_bit TYPE(64 word) k"
  then show "bit ((f OR PAGE_FLAGS) AND page_mask) k = bit f k"
    using bit_PAGE_FLAGS [of k]
    by (auto simp: page_aligned_bits bit_and_iff bit_or_iff bit_page_mask possible_bit_word, metis not_le)
qed

lemma entry_nonzero: "a OR PAGE_FLAGS \<noteq> 0"
proof
  assume "a OR PAGE_FLAGS = 0"
  then have "bit (a OR PAGE_FLAGS) 0 = bit (0 :: u64) 0" by simp
  then show False by (simp add: bit_or_iff PAGE_FLAGS_def)
qed

lemma field_less [simp]: "field k v < 512"
proof -
  have "drop_bit k v AND 0x1FF = take_bit 9 (drop_bit k v)"
    by (simp add: take_bit_eq_mask mask_eq_exp_minus_1)
  then have "unat (drop_bit k v AND 0x1FF) = unat (drop_bit k v) mod 512"
    by (simp add: take_bit_eq_mod unat_mod)
  then have "unat (drop_bit k v AND 0x1FF) < 512" by simp
  then show ?thesis
    by (simp add: field_def word_less_nat_alt unsigned_ucast_eq take_bit_nat_eq_self)
qed

section \<open>The tree of tables\<close>

text \<open>
  \<open>table_at m t p\<close> is the table that the entries with the indices \<open>p\<close> lead to from the
  table \<open>t\<close>; \<open>page_entry\<close> the entry of the last level for an address, 0 if a table is
  missing.
\<close>

fun table_at :: "memory \<Rightarrow> u64 \<Rightarrow> u16 list \<Rightarrow> u64 option" where
  "table_at m t [] = Some t"
| "table_at m t (i # p) =
     (if load64 m (slot t i) = 0 then None else table_at m (load64 m (slot t i) AND page_mask) p)"

lemma table_at_snoc:
  "table_at m t (p @ [i]) = (case table_at m t p of None \<Rightarrow> None
    | Some u \<Rightarrow> if load64 m (slot u i) = 0 then None else Some (load64 m (slot u i) AND page_mask))"
  by (induction m t p rule: table_at.induct) auto

definition path_of :: "u64 \<Rightarrow> u16 list" where
  "path_of v = [field 39 v, field 30 v, field 21 v]"

definition page_entry :: "memory \<Rightarrow> u64 \<Rightarrow> u64 \<Rightarrow> u64" where
  "page_entry m root v = (case table_at m root (path_of v) of None \<Rightarrow> 0
     | Some pt \<Rightarrow> load64 m (slot pt (field 12 v)))"

definition is_path :: "u16 list \<Rightarrow> bool" where
  "is_path p \<longleftrightarrow> length p \<le> 3 \<and> (\<forall>i\<in>set p. i < 512)"

text \<open>
  The invariant of the tree: different paths lead to different tables, all of them
  page-aligned and none of them a frame that the allocator may hand out, and the frames
  it may hand out hold only zeroes.  The last part is what \<^verbatim>\<open>map_page\<close> needs of frames it
  does not clear itself.
\<close>

definition tree_ok :: "memory \<Rightarrow> u64 \<Rightarrow> nat set \<Rightarrow> bool" where [inv_defs]:
  "tree_ok m root av \<longleftrightarrow> page_aligned root \<and>
     (\<forall>p q t. is_path p \<and> is_path q \<and> table_at m root p = Some t \<and> table_at m root q = Some t \<longrightarrow> p = q) \<and>
     (\<forall>p t. is_path p \<and> table_at m root p = Some t \<longrightarrow> fnum t \<notin> av) \<and>
     (\<forall>f i. page_aligned f \<and> fnum f \<in> av \<and> i < 512 \<longrightarrow> load64 m (slot f i) = 0)"

definition root_of :: "'z paging_state_scheme \<Rightarrow> u64" where
  "root_of s = cr3 s AND page_mask"

definition paging_inv :: "'z paging_state_scheme \<Rightarrow> bool" where [inv_defs]:
  "paging_inv s \<longleftrightarrow> frame_inv (falloc s) \<and>
     tree_ok (pmem s) (root_of s) (avail_frames (falloc s))"

lemma tree_ok_unique:
  "tree_ok m root av \<Longrightarrow> is_path p \<Longrightarrow> is_path q \<Longrightarrow> table_at m root p = Some t \<Longrightarrow>
    table_at m root q = Some t \<Longrightarrow> p = q"
  unfolding tree_ok_def by blast

lemma table_aligned: "page_aligned root \<Longrightarrow> table_at m root p = Some t \<Longrightarrow> page_aligned t"
  by (induction m root p rule: table_at.induct) (auto split: if_splits)

lemma is_path_snoc: "is_path (p @ [i]) \<longleftrightarrow> length p < 3 \<and> is_path p \<and> i < 512"
  by (auto simp: is_path_def)

lemma is_path_path_of [simp]: "is_path (path_of v)" "length (path_of v) = 3"
  by (simp_all add: is_path_def path_of_def)

text \<open>A write to a table changes only the paths through the written entry.\<close>

lemma table_at_fill:
  assumes ok: "tree_ok m root av" and p: "is_path p" "table_at m root p = Some u" "length p < 3"
    and j: "j < 512" and e: "load64 m (slot u j) = 0"
    and f: "page_aligned f" "fnum f \<in> av"
  defines "m' \<equiv> store64 m (slot u j) (f OR PAGE_FLAGS)"
  shows "is_path q \<Longrightarrow> table_at m' root q = (if q = p @ [j] then Some f else table_at m root q)"
proof (induction q rule: rev_induct)
  case (snoc i q)
  have q: "is_path q" "i < 512" "length q < 3" using snoc.prems by (simp_all add: is_path_snoc)
  note IH = snoc.IH [OF q(1)]
  have root: "page_aligned root" using ok by (simp add: tree_ok_def)
  have u: "page_aligned u" by (rule table_aligned [OF root p(2)])
  have uf: "u \<noteq> f" using ok p(1,2) f(2) unfolding tree_ok_def by blast
  have zero: "load64 m (slot f i) = 0" using ok f q(2) unfolding tree_ok_def by blast
  show ?case
  proof (cases "q = p @ [j]")
    case True
    have "load64 m' (slot f i) = load64 m (slot f i)"
      unfolding m'_def bytes.ld_st_slot [OF u j f(1) q(2)] using uf by simp
    with True IH zero have "table_at m' root (q @ [i]) = None"
      unfolding table_at_snoc [of m' root q i] by simp
    moreover have "table_at m root (q @ [i]) = None"
      using e p(2) table_at_snoc [of m root p j] by (simp add: True table_at_snoc [of m root "p @ [j]"] del: append_assoc)
    ultimately show ?thesis using True by simp
  next
    case False
    then have IH': "table_at m' root q = table_at m root q" using IH by simp
    show ?thesis
    proof (cases "table_at m root q")
      case None
      with IH' p(2) show ?thesis by (auto simp: table_at_snoc)
    next
      case (Some t)
      have t: "page_aligned t" by (rule table_aligned [OF root Some])
      have same: "t = u \<longleftrightarrow> q = p"
        using tree_ok_unique [OF ok q(1) p(1)] Some p(2) by auto
      have "load64 m' (slot t i) = (if u = t \<and> j = i then f OR PAGE_FLAGS else load64 m (slot t i))"
        unfolding m'_def by (rule bytes.ld_st_slot [OF u j t q(2)])
      with Some IH' same show ?thesis
        by (auto simp: table_at_snoc entry_nonzero entry_of_table [OF f(1)])
    qed
  qed
qed (use p in simp)

end
