(* ===== verification/Frame_Alloc_Props.thy ===== *)
theory Frame_Alloc_Props
  imports Frame_Alloc
begin

text \<open>
  The properties of the frame allocator: what \<^verbatim>\<open>kalloc_frame\<close>, \<^verbatim>\<open>kfree_frame\<close> and the array
  operations do to the set of available frames, runs of the allocator, and the cases in
  which \<^verbatim>\<open>kfree_frame\<close>, \<^verbatim>\<open>klock_frame\<close>, \<^verbatim>\<open>kalloc_frames_array\<close> and
  \<^verbatim>\<open>flush_frame_prealloc_pool\<close> do something else than their comments say.
\<close>

section \<open>Runs\<close>

lemma init_frame_alloc_ok:
  assumes "init_frame_alloc bm s = (ok, s')" and "\<not> bit (bm 0) 0"
  shows "frame_inv s' \<and> frame_alloc_ready s' \<and> memory_length s' = memory_length s \<and>
    avail_frames s' = {k. k < 4503599627370496 \<and> bit (bm (of_nat (k div 8))) (k mod 8)}"
proof -
  let ?s = "s\<lparr>frame_bitmap := bm, frame_pool := replicate (unat PREALLOC_POOL_SIZE) 0,
    pool_top := 0, pool_status := empty, last_index := 0, last_free_frame := null,
    frame_alloc_ready := True\<rparr>"
  have free: "free_frames ?s = {k. k < 4503599627370496 \<and> bit (bm (of_nat (k div 8))) (k mod 8)}"
    by (simp add: free_frames_def is_free_def)
  have "frame_inv ?s"
    using assms(2) free
    by (simp add: inv_defs avail_frames_def ready_frames_def PREALLOC_POOL_SIZE_def)
  moreover obtain st where "kalloc_pool ?s = (st, s')"
    using assms(1) by (auto simp: init_frame_alloc_def split: prod.splits)
  ultimately show ?thesis
    using kalloc_pool_ok [of ?s st s'] free by (simp add: avail_frames_def ready_frames_def)
qed

text \<open>
  A run of the allocator from boot, in which frames are handed out and given back in any
  order, with the set \<open>own\<close> of numbers of the frames that are handed out.  Every frame in
  \<open>own\<close> may be given back.  The flag says whether each frame given back so far was one that
  leaves \<^verbatim>\<open>last_index\<close> a multiple of 8: its bitmap byte has an index divisible by 8, or it
  lies above \<^verbatim>\<open>last_free_frame\<close> (see \<open>kfree_then_kalloc_wrong_frame\<close>).
\<close>

inductive frame_run :: "bool \<Rightarrow> frame_state \<Rightarrow> nat set \<Rightarrow> bool" where
  boot: "init_frame_alloc bm s = (ok, s') \<Longrightarrow> \<not> bit (bm 0) 0 \<Longrightarrow> frame_run True s' {}"
| alloc: "frame_run al s own \<Longrightarrow> kalloc_frame s = (f, s') \<Longrightarrow> f \<noteq> null \<Longrightarrow>
    frame_run al s' (insert (fnum f) own)"
| exhausted: "frame_run al s own \<Longrightarrow> kalloc_frame s = (null, s') \<Longrightarrow> frame_run al s' own"
| free: "frame_run al s own \<Longrightarrow> fnum f \<in> own \<Longrightarrow> kfree_frame f s = (True, s') \<Longrightarrow>
    frame_run (al \<and> (8 dvd fnum f div 8 \<or> last_free_frame s < f)) s' (own - {fnum f})"

lemma kfree_frame_last_index:
  "kfree_frame f s = (True, s') \<Longrightarrow>
    last_index s' = (if f \<le> last_free_frame s then ucast (GET_BYTE_FROM_ADDRESS f) else last_index s)"
  by (auto simp: kfree_frame_def Let_def split: if_splits)

lemma kfree_frame_inv:
  assumes "kfree_frame f s = (True, s')" and "frame_inv s"
    and "fnum f \<notin> avail_frames s" "fnum f \<noteq> 0"
    and "8 dvd fnum f div 8 \<or> last_free_frame s < f"
  shows "frame_inv s'"
proof -
  have "8 dvd unat (last_index s')"
  proof (cases "f \<le> last_free_frame s")
    case True
    then have "8 dvd fnum f div 8" using assms(5) by auto
    then have "8 dvd (fnum f div 8) mod 4294967296" by (simp add: dvd_mod)
    then show ?thesis using True kfree_frame_last_index [OF assms(1)]
      by (simp add: unsigned_ucast_eq byte_bit_of_address(1) take_bit_eq_mod)
  next
    case False
    then show ?thesis
      using kfree_frame_last_index [OF assms(1)] assms(2) by (simp add: frame_inv_def)
  qed
  with assms(2-4) kfree_frame_free [OF assms(1)] kfree_frame_avail [OF assms(1)]
  show ?thesis by (auto simp: frame_inv_def pool_ok_def avail_frames_def)
qed

lemma frame_run_inv:
  "frame_run al s own \<Longrightarrow> al \<Longrightarrow> frame_inv s \<and> own \<inter> avail_frames s = {} \<and> 0 \<notin> own"
proof (induction rule: frame_run.induct)
  case (boot bm s ok s')
  then show ?case using init_frame_alloc_ok by blast
next
  case (alloc al s own f s')
  note inv = alloc.IH [OF alloc.prems, THEN conjunct1]
  have "frame_inv s'" by (rule frames.alloc_inv [OF inv alloc.hyps(2)])
  moreover have "0 \<notin> avail_frames s" using inv by (simp add: frame_inv_def)
  ultimately show ?case
    using frames.alloc_some [OF inv alloc.hyps(2,3)] alloc.IH [OF alloc.prems] by auto
next
  case (exhausted al s own s')
  then show ?case using frames.alloc_none frames.alloc_inv by blast
next
  case (free al s own f s')
  then have "fnum f \<notin> avail_frames s" "fnum f \<noteq> 0" by auto
  with free show ?case
    using kfree_frame_inv [of f s s'] kfree_frame_avail(2) [of f s s'] by auto
qed

text \<open>What holds in every run, also when a freed frame has moved \<^verbatim>\<open>last_index\<close>.\<close>

definition pool_shape :: "frame_state \<Rightarrow> bool" where [inv_defs]:
  "pool_shape s \<longleftrightarrow> length (frame_pool s) = 64 \<and> unat (pool_top s) < 64 \<and>
     (\<forall>a\<in>set (frame_pool s). page_aligned a)"

lemma page_aligned_offset: "page_aligned (GET_ADDRESS_BY_OFFSET x)"
proof -
  have "unat (x * 4096) = 4096 * (unat x mod 4503599627370496)"
    by (simp add: unat_word_ariths(2) mult.commute [of _ 4096] mult_mod_right)
  then show ?thesis by (simp add: page_aligned_def c_macros)
qed

lemma page_aligned_null: "page_aligned null"
  by (simp add: page_aligned_def)

lemma unat_top_Suc:
  "unat (t :: u32) < 64 \<Longrightarrow> t + 1 \<noteq> 64 \<Longrightarrow> unat (t + 1) = Suc (unat t) \<and> unat (t + 1) < 64"
proof -
  assume t: "unat t < 64" "t + 1 \<noteq> 64"
  have "unat (t + 1) = Suc (unat t)" using t(1) by (simp add: unat_word_ariths(1))
  moreover have "unat (t + 1) \<noteq> unat (64 :: u32)" using t(2) by (metis word_unat_eq_iff)
  ultimately show ?thesis using t(1) by simp
qed

lemma all_update: "\<forall>a\<in>set xs. P a \<Longrightarrow> P x \<Longrightarrow> \<forall>a\<in>set (xs[i := x]). P a"
  using set_update_subset_insert [of xs i x] by auto

lemma scan_byte_shape:
  assumes "scan_byte i js s = (full, s')" and "pool_shape s"
  shows "pool_shape s'"
  using assms
proof (induction js arbitrary: s)
  case (Cons j js)
  let ?fr = "GET_ADDRESS_BY_OFFSET (i + of_nat j)"
  let ?t = "if drop_bit j (frame_bitmap s (i div 8)) AND 1 \<noteq> 0
    then s\<lparr>frame_bitmap := (frame_bitmap s)(i div 8 := frame_bitmap s (i div 8) - push_bit j 1),
      frame_pool := (frame_pool s)[unat (pool_top s) := ?fr], last_free_frame := ?fr,
      pool_top := pool_top s + 1\<rparr>
    else s"
  have step: "scan_byte i (j # js) s = (if pool_top ?t = 64
      then (True, ?t\<lparr>pool_status := fully_allocated, pool_top := pool_top ?t - 1\<rparr>)
      else scan_byte i js ?t)"
    by (simp add: Let_def PREALLOC_POOL_SIZE_def)
  have pool: "length (frame_pool ?t) = 64" "\<forall>a\<in>set (frame_pool ?t). page_aligned a"
    using Cons.prems(2) page_aligned_offset by (auto simp: pool_shape_def intro: all_update [rule_format])
  show ?case
  proof (cases "pool_top ?t = 64")
    case True
    then have "s' = ?t\<lparr>pool_status := fully_allocated, pool_top := 63\<rparr>"
      using Cons.prems(1) unfolding step by simp
    then show ?thesis using pool by (simp add: pool_shape_def)
  next
    case False
    have "unat (pool_top ?t) < 64"
      using False Cons.prems(2) unat_top_Suc [of "pool_top s"] by (auto simp: pool_shape_def)
    then have "pool_shape ?t" using pool by (simp add: pool_shape_def)
    moreover have "scan_byte i js ?t = (full, s')" using Cons.prems(1) False unfolding step by simp
    ultimately show ?thesis by (rule Cons.IH [rotated])
  qed
qed simp

lemma scan_bytes_shape: "scan_bytes i n s = (full, s') \<Longrightarrow> pool_shape s \<Longrightarrow> pool_shape s'"
proof (induction i n s rule: scan_bytes.induct)
  case (1 i n s)
  show ?case
  proof (cases "i < n")
    case True
    obtain f t where b: "scan_byte (of_nat i) [0..<8] (s\<lparr>last_index := of_nat i\<rparr>) = (f, t)" by fastforce
    then have "pool_shape t" by (rule scan_byte_shape) (use "1.prems" in \<open>simp add: pool_shape_def\<close>)
    then show ?thesis
      using "1.prems"(1) b True "1.IH" [OF True b [symmetric] refl]
      by (auto simp: scan_bytes.simps [of i n s] split: if_splits)
  next
    case False
    then show ?thesis using "1.prems" by (simp add: scan_bytes.simps [of i n s])
  qed
qed

lemma kalloc_pool_shape:
  assumes "kalloc_pool s = (st, s')" and "pool_shape s"
  shows "pool_shape s'"
proof -
  obtain full t where b: "scan_bytes (unat (last_index s)) (unat (memory_length s div PAGE_SIZE)) s = (full, t)"
    by fastforce
  note t = scan_bytes_shape [OF b assms(2)]
  have "unat (pool_top t - 1) < 64" if "pool_top t \<noteq> 0"
    using t that by (auto simp: pool_shape_def unat_minus_one)
  with t assms b show ?thesis
    by (auto simp: kalloc_pool_def pool_shape_def split: if_splits)
qed

lemma kalloc_frame_shape:
  assumes "kalloc_frame s = (f, s')" and "pool_shape s"
  shows "pool_shape s' \<and> page_aligned f"
proof -
  obtain ok t where refill: "(if pool_status s = empty
      then let (st, s) = kalloc_pool s in (st \<noteq> empty, s) else (True, s)) = (ok, t)"
    by fastforce
  have t: "pool_shape t"
    using refill assms(2) by (auto intro: kalloc_pool_shape split: if_splits prod.splits)
  let ?i = "unat (if pool_status t = fully_allocated then PREALLOC_POOL_SIZE - 1 - pool_top t else pool_top t)"
  let ?u = "t\<lparr>frame_pool := (frame_pool t)[?i := null]\<rparr>"
  have r: "kalloc_frame s = (if frame_alloc_ready s \<and> ok
      then (frame_pool t ! ?i, if pool_top t = 0 then ?u\<lparr>pool_status := empty\<rparr> else ?u\<lparr>pool_top := pool_top t - 1\<rparr>)
      else (null, if frame_alloc_ready s then t else s))"
    using refill by (simp add: kalloc_frame_def Let_def)
  have "unat (PREALLOC_POOL_SIZE - 1 - pool_top t) = 63 - unat (pool_top t)"
    using t by (simp add: PREALLOC_POOL_SIZE_def unat_sub word_le_nat_alt pool_shape_def)
  moreover have "63 - unat (pool_top t) < 64" by (rule le_less_trans [OF diff_le_self]) simp
  ultimately have i: "?i < length (frame_pool t)" using t by (simp add: pool_shape_def)
  have u: "length (frame_pool ?u) = 64" "\<forall>a\<in>set (frame_pool ?u). page_aligned a"
    using t page_aligned_null by (auto simp: pool_shape_def intro: all_update [rule_format])
  have "unat (pool_top t - 1) < 64" if "pool_top t \<noteq> 0"
    using t that by (auto simp: pool_shape_def unat_minus_one)
  moreover have "page_aligned (frame_pool t ! ?i)" using i t by (simp add: pool_shape_def)
  ultimately show ?thesis
    using assms t u page_aligned_null unfolding r by (auto simp: pool_shape_def split: if_splits)
qed

lemma frame_run_shape: "frame_run al s own \<Longrightarrow> pool_shape s"
proof (induction rule: frame_run.induct)
  case (boot bm s ok s')
  let ?s = "s\<lparr>frame_bitmap := bm, frame_pool := replicate (unat PREALLOC_POOL_SIZE) 0,
    pool_top := 0, pool_status := empty, last_index := 0, last_free_frame := null,
    frame_alloc_ready := True\<rparr>"
  obtain st where "kalloc_pool ?s = (st, s')"
    using boot(1) by (auto simp: init_frame_alloc_def split: prod.splits)
  moreover have "pool_shape ?s" by (simp add: pool_shape_def PREALLOC_POOL_SIZE_def page_aligned_def)
  ultimately show ?case by (rule kalloc_pool_shape)
next
  case (free al s own f s')
  then show ?case using kfree_frame_free [of f s s'] by (simp add: pool_shape_def)
qed (use kalloc_frame_shape in blast)+

section \<open>Failure of an array allocation\<close>

definition in_memory :: "frame_state \<Rightarrow> u64 list \<Rightarrow> bool" where
  "in_memory s fs \<longleftrightarrow> (\<forall>f\<in>set fs. f < memory_length s)"

lemma kfree_frames_list_ok:
  assumes "frame_alloc_ready s" and "in_memory s fs"
  shows "\<exists>s'. kfree_frames_list fs True s = (True, s') \<and>
    avail_frames s' = avail_frames s \<union> fnum ` set fs"
  using assms
proof (induction fs arbitrary: s)
  case (Cons f fs)
  then obtain t where k: "kfree_frame f s = (True, t)"
    by (simp add: kfree_frame_def in_memory_def Let_def not_le)
  have "frame_alloc_ready t" "in_memory t fs"
    using Cons.prems kfree_frame_free [OF k] by (auto simp: in_memory_def)
  from Cons.IH [OF this] k show ?case
    using kfree_frame_avail(2) [OF k] by auto
qed simp

text \<open>
  When request \<open>i\<close> fails, the call frees the first \<open>i - 1\<close> frames of the array, not the
  first \<open>i\<close>.
\<close>

lemma kalloc_frames_from_False:
  assumes "kalloc_frames_from i k arr s = (False, arr', s')" and "length arr = i + k"
    and "frame_inv s" "frame_alloc_ready s" "in_memory s (take i arr)"
    and "\<forall>n\<in>avail_frames s. n * 4096 < unat (memory_length s)"
  shows "\<exists>fs s1. frames.alloc_n (length fs) s = Some (fs, s1) \<and> length fs < k \<and>
    fst (kalloc_frame s1) = null \<and>
    avail_frames s' = avail_frames s1 \<union> fnum ` set (take (i + length fs - 1) (take i arr @ fs))"
  using assms
proof (induction k arbitrary: i arr s)
  case (Suc k)
  obtain f t where a: "kalloc_frame s = (f, t)" by fastforce
  note ok = kalloc_frame_ok [OF a Suc.prems(3)]
  show ?case
  proof (cases "f = null")
    case True
    have t: "frame_alloc_ready t" "memory_length t = memory_length s" "avail_frames t = avail_frames s"
      using ok Suc.prems(4) True by auto
    let ?fs = "take (if i = 0 then 0 else i - 1) (arr[i := f])"
    have fs: "?fs = take (i - 1) (take i arr)" by (simp add: min_def)
    have "in_memory t ?fs" using Suc.prems(5) t set_take_subset_set_take [of "i - 1" i arr]
      by (auto simp: fs in_memory_def)
    from kfree_frames_list_ok [OF t(1) this] obtain u where
      "kfree_frames_array (if i = 0 then 0 else i - 1) (arr[i := f]) t = (True, u)"
      "avail_frames u = avail_frames t \<union> fnum ` set ?fs"
      by (auto simp: kfree_frames_array_def)
    moreover from this have "s' = u" using Suc.prems(1) a True by (auto simp: Let_def)
    ultimately have "frames.alloc_n (length []) s = Some ([], s) \<and> length [] < Suc k \<and>
        fst (kalloc_frame s) = null \<and>
        avail_frames s' = avail_frames s \<union> fnum ` set (take (i + length [] - 1) (take i arr @ []))"
      using t(3) a True by (simp add: fs)
    then show ?thesis by blast
  next
    case False
    have t: "frame_alloc_ready t" "memory_length t = memory_length s" "frame_inv t"
      "avail_frames t \<subseteq> avail_frames s" "fnum f \<in> avail_frames s" "page_aligned f"
      using ok Suc.prems(4) False by auto
    have r: "kalloc_frames_from (Suc i) k (arr[i := f]) t = (False, arr', s')"
      using Suc.prems(1) a False by (simp add: Let_def)
    have arr: "take (Suc i) (arr[i := f]) = take i arr @ [f]"
      using Suc.prems(2) by (simp add: take_Suc_conv_app_nth)
    have "unat f = fnum f * 4096" using t(6) by (auto simp: page_aligned_def fnum_def)
    then have "f < memory_length s" using Suc.prems(6) t(5) by (simp add: word_less_nat_alt)
    then have im: "in_memory t (take (Suc i) (arr[i := f]))"
      using Suc.prems(5) t(2) by (auto simp: arr in_memory_def)
    from Suc.IH [OF r _ t(3,1) im] Suc.prems(2,6) t(2,4) obtain fs s1 where
      "frames.alloc_n (length fs) t = Some (fs, s1)" "length fs < k" "fst (kalloc_frame s1) = null"
      "avail_frames s' = avail_frames s1 \<union>
        fnum ` set (take (Suc i + length fs - 1) (take (Suc i) (arr[i := f]) @ fs))"
      by auto
    then have "frames.alloc_n (length (f # fs)) s = Some (f # fs, s1) \<and> length (f # fs) < Suc k \<and>
      fst (kalloc_frame s1) = null \<and>
      avail_frames s' = avail_frames s1 \<union>
        fnum ` set (take (i + length (f # fs) - 1) (take i arr @ f # fs))"
      using a False by (simp add: arr)
    then show ?thesis by blast
  qed
qed simp

section \<open>The first byte with a free frame\<close>

text \<open>A byte without set bits is passed over; only \<^verbatim>\<open>last_index\<close> moves.\<close>

lemma scan_byte_clear:
  "frame_bitmap s (i div 8) = 0 \<Longrightarrow> pool_top s \<noteq> 64 \<Longrightarrow> scan_byte i js s = (False, s)"
  by (induction i js s rule: scan_byte.induct) (simp_all add: PREALLOC_POOL_SIZE_def Let_def)

lemma scan_bytes_clear:
  assumes "\<And>k. k < m \<Longrightarrow> frame_bitmap s (of_nat (i + 8 * k) div 8) = 0" and "pool_top s \<noteq> 64"
    and "i + 8 * m \<le> n"
  shows "\<exists>l. scan_bytes i n s = scan_bytes (i + 8 * m) n (s\<lparr>last_index := l\<rparr>)"
  using assms
proof (induction m arbitrary: i s)
  case 0
  have "s\<lparr>last_index := last_index s\<rparr> = s" by simp
  then show ?case by (metis add.right_neutral mult_0_right)
next
  case (Suc m)
  let ?s = "s\<lparr>last_index := of_nat i\<rparr>"
  have "frame_bitmap ?s (of_nat i div 8) = 0" using Suc.prems(1) [of 0] by simp
  from scan_byte_clear [OF this] Suc.prems(2,3)
  have "scan_bytes i n s = scan_bytes (i + 8) n ?s" by (simp add: scan_bytes.simps [of i n s])
  moreover have "\<exists>l. scan_bytes (i + 8) n ?s =
      scan_bytes (i + 8 + 8 * m) n (?s\<lparr>last_index := l\<rparr>)"
    by (rule Suc.IH) (use Suc.prems(1) [of "Suc k" for k] Suc.prems(2,3) in \<open>auto simp: ac_simps\<close>)
  ultimately show ?case by (auto simp: ac_simps)
qed

lemma scan_byte_no_bit:
  "\<forall>j\<in>set js. \<not> bit (frame_bitmap s (i div 8)) j \<Longrightarrow> pool_top s \<noteq> 64 \<Longrightarrow>
    scan_byte i js s = (False, s)"
proof (induction i js s rule: scan_byte.induct)
  case (2 i j js s)
  then have "\<not> drop_bit j (frame_bitmap s (i div 8)) AND 1 \<noteq> 0" by (simp add: shift_and_one_bit)
  with 2 show ?case by (auto simp: PREALLOC_POOL_SIZE_def Let_def)
qed simp

lemma scan_byte_append:
  "scan_byte i (js @ ks) s =
    (let (full, s) = scan_byte i js s in if full then (True, s) else scan_byte i ks s)"
  by (induction i js s rule: scan_byte.induct) (simp_all add: Let_def)

lemma scan_bytes_all_clear:
  "frame_bitmap s = (\<lambda>_. 0) \<Longrightarrow> pool_top s \<noteq> 64 \<Longrightarrow>
    \<exists>l. scan_bytes i n s = (False, s\<lparr>last_index := l\<rparr>)"
proof (induction i n s rule: scan_bytes.induct)
  case (1 i n s)
  show ?case
  proof (cases "i < n")
    case True
    let ?s = "s\<lparr>last_index := of_nat i\<rparr>"
    have b: "scan_byte (of_nat i) [0..<8] ?s = (False, ?s)"
      by (rule scan_byte_clear) (use "1.prems" in auto)
    have "\<exists>l. scan_bytes (i + 8) n ?s = (False, ?s\<lparr>last_index := l\<rparr>)"
      by (rule "1.IH" [OF True b [symmetric] refl]) (use "1.prems" in auto)
    with b True show ?thesis by (simp add: scan_bytes.simps [of i n s])
  next
    case False
    have "s\<lparr>last_index := last_index s\<rparr> = s" by simp
    with False show ?thesis by (metis scan_bytes.simps)
  qed
qed

text \<open>
  Scanning a byte whose only set bit is \<open>r\<close> takes the frame \<open>i + r\<close>, whatever the byte's
  index is.
\<close>

lemma scan_byte_single:
  assumes bm: "frame_bitmap s = (\<lambda>_. 0)(x := 2 ^ r)" and "r < 8" and x: "i div 8 = x"
    and "pool_top s = 0"
  shows "scan_byte i [0..<8] s = (False, s\<lparr>frame_bitmap := (\<lambda>_. 0),
      frame_pool := (frame_pool s)[0 := (i + of_nat r) * 4096],
      last_free_frame := (i + of_nat r) * 4096, pool_top := 1\<rparr>)"
proof -
  have js: "[0..<8] = [0..<r] @ r # [Suc r..<8]"
    using upt_conv_Cons [OF assms(2)] upt_add_eq_append [of 0 r "8 - r"] assms(2) by simp
  let ?s = "s\<lparr>frame_bitmap := (\<lambda>_. 0), frame_pool := (frame_pool s)[0 := (i + of_nat r) * 4096],
      last_free_frame := (i + of_nat r) * 4096, pool_top := 1\<rparr>"
  have 1: "scan_byte i [0..<r] s = (False, s)"
    by (rule scan_byte_no_bit) (use assms in \<open>auto simp: bit_simps\<close>)
  have 2: "scan_byte i [Suc r..<8] ?s = (False, ?s)"
    by (rule scan_byte_no_bit) auto
  have b: "drop_bit r (frame_bitmap s (i div 8)) AND 1 \<noteq> 0"
    unfolding shift_and_one_bit using assms by (simp add: bit_simps)
  have bm': "(frame_bitmap s)(i div 8 := frame_bitmap s (i div 8) - push_bit r 1) = (\<lambda>_. 0)"
    using bm x by auto
  have "scan_byte i (r # [Suc r..<8]) s = (False, ?s)"
    using b bm' 2 assms(4)
    by (simp add: Let_def PREALLOC_POOL_SIZE_def GET_ADDRESS_BY_OFFSET_def)
  with 1 show ?thesis unfolding js scan_byte_append by simp
qed


text \<open>A scan that took no frame met no set bit.\<close>

lemma scan_byte_Cons_clear:
  "\<not> bit (frame_bitmap s (i div 8)) j \<Longrightarrow> pool_top s \<noteq> 64 \<Longrightarrow>
    scan_byte i (j # js) s = scan_byte i js s"
  by (simp add: shift_and_one_bit PREALLOC_POOL_SIZE_def)

lemma scan_byte_Cons_set:
  assumes "bit (frame_bitmap s (i div 8)) j" and "scan_byte i (j # js) s = (False, s')"
  obtains t where "scan_byte i js t = (False, s')" "pool_top t = pool_top s + 1" "pool_top t \<noteq> 64"
  using assms by (auto simp: shift_and_one_bit PREALLOC_POOL_SIZE_def Let_def split: if_splits)

lemma scan_byte_none:
  assumes "scan_byte i js s = (False, s')" and "unat (pool_top s) < 64"
  shows "unat (pool_top s) \<le> unat (pool_top s') \<and> unat (pool_top s') < 64 \<and>
    (pool_top s' = pool_top s \<longrightarrow> s' = s \<and> (\<forall>j\<in>set js. \<not> bit (frame_bitmap s (i div 8)) j))"
  using assms
proof (induction js arbitrary: s)
  case (Cons j js)
  show ?case
  proof (cases "bit (frame_bitmap s (i div 8)) j")
    case False
    have top: "pool_top s \<noteq> 64" using Cons.prems(2) by auto
    with Cons.prems(1) False have "scan_byte i js s = (False, s')"
      by (metis scan_byte_Cons_clear)
    from Cons.IH [OF this Cons.prems(2)] False show ?thesis by auto
  next
    case True
    from scan_byte_Cons_set [OF this Cons.prems(1)] obtain t where
      t: "scan_byte i js t = (False, s')" "pool_top t = pool_top s + 1" "pool_top t \<noteq> 64" .
    with unat_top_Suc [OF Cons.prems(2)] have u: "unat (pool_top t) = Suc (unat (pool_top s))"
      "unat (pool_top t) < 64" by auto
    with Cons.IH [OF t(1) u(2)] show ?thesis by auto
  qed
qed simp

lemma scan_bytes_none:
  assumes "scan_bytes i n s = (False, s')" and "unat (pool_top s) < 64" and "8 dvd i"
    and "n \<le> 4503599627370496"
  shows "unat (pool_top s) \<le> unat (pool_top s') \<and>
    (pool_top s' = pool_top s \<longrightarrow> (\<forall>k. i \<le> k \<and> k < n \<longrightarrow> \<not> is_free s k))"
  using assms
proof (induction i n s rule: scan_bytes.induct)
  case (1 i n s)
  show ?case
  proof (cases "i < n")
    case True
    let ?s = "s\<lparr>last_index := of_nat i\<rparr>"
    obtain full t where b: "scan_byte (of_nat i) [0..<8] ?s = (full, t)" by fastforce
    with "1.prems"(1) True have r: "\<not> full" "scan_bytes (i + 8) n t = (False, s')"
      by (auto simp: scan_bytes.simps [of i n s] split: if_splits)
    with b have byte: "unat (pool_top s) \<le> unat (pool_top t)" "unat (pool_top t) < 64"
      "pool_top t = pool_top s \<longrightarrow> t = ?s \<and>
        (\<forall>j<8. \<not> bit (frame_bitmap s (of_nat i div 8)) j)"
      using scan_byte_none [of "of_nat i" "[0..<8]" ?s t] "1.prems"(2) by auto
    have rest: "unat (pool_top t) \<le> unat (pool_top s') \<and>
        (pool_top s' = pool_top t \<longrightarrow> (\<forall>k. i + 8 \<le> k \<and> k < n \<longrightarrow> \<not> is_free t k))"
      by (rule "1.IH" [OF True b [symmetric] refl]) (use r byte "1.prems" in auto)
    have "\<not> is_free s k" if top: "pool_top s' = pool_top s" and k: "i \<le> k" "k < n" for k
    proof -
      have "pool_top t = pool_top s" using top byte(1) rest by (metis le_antisym word_unat_eq_iff)
      with byte(3) have t: "t = ?s" "\<forall>j<8. \<not> bit (frame_bitmap s (of_nat i div 8)) j" by auto
      show ?thesis
      proof (cases "i + 8 \<le> k")
        case True
        with rest k top t(1) show ?thesis by (simp add: is_free_def)
      next
        case False
        obtain q where q: "i = 8 * q" using "1.prems"(3) by blast
        with False k(1) have "k div 8 = q" by auto
        moreover have "(of_nat i :: u64) div 8 = of_nat q"
        proof -
          have "unat (of_nat i :: u64) = 8 * q"
            using q True "1.prems"(4) by (subst unat_of_nat_64) auto
          then have "unat ((of_nat i :: u64) div 8) = q" by (simp add: unat_div)
          then show ?thesis by (metis of_nat_unat ucast_id)
        qed
        ultimately show ?thesis using t(2) by (simp add: is_free_def)
      qed
    qed
    with byte(1) rest show ?thesis by (meson le_trans)
  next
    case False
    with "1.prems"(1) show ?thesis by (auto simp: scan_bytes.simps [of i n s])
  qed
qed

text \<open>The frame that is handed out next is one of the ready ones.\<close>

lemma next_ready:
  assumes "frame_inv t" and "pool_status t \<noteq> empty"
  shows "frame_pool t ! (if pool_status t = fully_allocated then 63 - unat (pool_top t)
    else unat (pool_top t)) \<in> set (ready_frames t)"
proof (cases "pool_status t = fully_allocated")
  case True
  then have "ready_frames t = drop (63 - unat (pool_top t)) (frame_pool t)"
    by (simp add: ready_frames_def)
  with True assms(1) show ?thesis by (simp add: frame_inv_def in_set_conv_nth) (rule exI [of _ 0], simp)
next
  case False
  then have "ready_frames t = take (Suc (unat (pool_top t))) (frame_pool t)"
    using assms(2) by (cases "pool_status t") (simp_all add: ready_frames_def)
  with False assms(1) show ?thesis by (auto simp: frame_inv_def take_Suc_conv_app_nth)
qed

lemma kalloc_frame_null_pool:
  assumes "kalloc_frame s = (null, s')" and "frame_inv s" and "frame_alloc_ready s"
  shows "pool_status s = empty \<and> (\<exists>t. kalloc_pool s = (empty, t))"
proof -
  obtain ok t where refill: "(if pool_status s = empty
      then let (st, s) = kalloc_pool s in (st \<noteq> empty, s) else (True, s)) = (ok, t)"
    by fastforce
  have t: "frame_inv t" "ok \<longleftrightarrow> pool_status t \<noteq> empty"
    using refill kalloc_pool_ok [of s _ t] assms(2) by (auto split: if_splits prod.splits)
  have "\<not> ok"
  proof
    assume ok: ok
    have "unat (PREALLOC_POOL_SIZE - 1 - pool_top t) = 63 - unat (pool_top t)"
      using t(1) by (simp add: PREALLOC_POOL_SIZE_def unat_sub word_le_nat_alt frame_inv_def)
    with assms(1,3) refill ok have "frame_pool t ! (if pool_status t = fully_allocated
        then 63 - unat (pool_top t) else unat (pool_top t)) = null"
      by (auto simp: kalloc_frame_def split: if_splits)
    with next_ready [OF t(1)] ok t(2) have "null \<in> set (ready_frames t)" by simp
    then have "0 \<in> avail_frames t" by (force simp: avail_frames_def fnum_def)
    with t(1) show False by (simp add: frame_inv_def)
  qed
  with refill show ?thesis by (auto split: if_splits prod.splits)
qed

section \<open>The properties\<close>

text \<open>
  A machine of 66 frames, of which 24, 27 and 64 are free, and a run on it: the three frames
  are handed out (\<open>gap_out\<close>), frame 24 is given back (\<open>gap_back\<close>), a frame is handed out,
  which is 27 once more (\<open>gap_twice\<close>), and frame 64 is given back (\<open>gap_last\<close>).
\<close>

definition gap_bitmap :: "u64 \<Rightarrow> u8" where
  "gap_bitmap k = (if k = 3 then 9 else if k = 8 then 1 else 0)"

definition gap_start :: frame_state where
  "gap_start = \<lparr>frame_bitmap = \<lambda>_. 0, pool_top = 0, pool_status = empty, frame_pool = [],
     last_index = 0, last_free_frame = 0, frame_alloc_ready = False, memory_length = 66 * 4096\<rparr>"

definition gap_out :: frame_state where
  "gap_out = (snd \<circ> kalloc_frame \<circ> snd \<circ> kalloc_frame \<circ> snd \<circ> kalloc_frame)
     (snd (init_frame_alloc gap_bitmap gap_start))"

definition gap_back :: frame_state where
  "gap_back = snd (kfree_frame (24 * 4096) gap_out)"

definition gap_twice :: frame_state where
  "gap_twice = snd (kalloc_frame gap_back)"

definition gap_last :: frame_state where
  "gap_last = snd (kfree_frame (64 * 4096) gap_twice)"

lemma run_alloc:
  "frame_run al s own \<Longrightarrow> fst (kalloc_frame s) = f \<Longrightarrow> f \<noteq> null \<Longrightarrow>
    frame_run al (snd (kalloc_frame s)) (insert (fnum f) own)"
  by (rule frame_run.alloc) (auto simp: prod_eq_iff)

lemma run_free:
  "frame_run al s own \<Longrightarrow> fnum f \<in> own \<Longrightarrow> fst (kfree_frame f s) \<Longrightarrow>
    frame_run (al \<and> (8 dvd fnum f div 8 \<or> last_free_frame s < f)) (snd (kfree_frame f s)) (own - {fnum f})"
  by (rule frame_run.free) (auto simp: prod_eq_iff)

lemma gap_out_run: "frame_run True gap_out {24, 27, 64}"
proof -
  let ?s0 = "snd (init_frame_alloc gap_bitmap gap_start)"
  let ?s1 = "snd (kalloc_frame ?s0)"
  let ?s2 = "snd (kalloc_frame ?s1)"
  have "frame_run True ?s0 {}"
    by (rule frame_run.boot [of gap_bitmap gap_start "fst (init_frame_alloc gap_bitmap gap_start)"])
      (simp_all add: gap_bitmap_def)
  moreover have "fst (kalloc_frame ?s0) = 64 * 4096" by code_simp
  ultimately have "frame_run True ?s1 {64}" by (auto dest: run_alloc simp: fnum_def)
  moreover have "fst (kalloc_frame ?s1) = 27 * 4096" by code_simp
  ultimately have "frame_run True ?s2 {27, 64}" by (auto dest: run_alloc simp: fnum_def)
  moreover have "fst (kalloc_frame ?s2) = 24 * 4096" by code_simp
  ultimately have "frame_run True (snd (kalloc_frame ?s2)) {24, 27, 64}" by (auto dest: run_alloc simp: fnum_def)
  then show ?thesis by (simp add: gap_out_def)
qed

lemma gap_back_run: "frame_run False gap_back {27, 64}"
proof -
  have "fst (kfree_frame (24 * 4096) gap_out)" "last_free_frame gap_out = 64 * 4096" by code_simp+
  from run_free [OF gap_out_run _ this(1)] this(2) show ?thesis
    by (simp add: gap_back_def fnum_def insert_Diff_if)
qed

lemma gap_back_next: "fst (kalloc_frame gap_back) = 27 * 4096"
  by code_simp

lemma gap_last_run: "frame_run False gap_last {27}"
proof -
  have "frame_run False gap_twice {27, 64}"
    using run_alloc [OF gap_back_run gap_back_next] by (simp add: gap_twice_def fnum_def insert_absorb)
  moreover have "fst (kfree_frame (64 * 4096) gap_twice)" by code_simp
  ultimately show ?thesis using run_free [of False gap_twice "{27, 64}" "64 * 4096"]
    by (simp add: gap_last_def fnum_def insert_Diff_if)
qed

lemma kalloc_frame_not_shared:
  assumes "frame_run True s own" and "kalloc_frame s = (f, s')" and "f \<noteq> null"
  shows "fnum f \<noteq> 0 \<and> fnum f \<notin> own"
proof -
  have inv: "frame_inv s" "own \<inter> avail_frames s = {}" using frame_run_inv [OF assms(1)] by auto
  have "fnum f \<in> avail_frames s" using frames.alloc_some [OF inv(1) assms(2,3)] by auto
  moreover have "0 \<notin> avail_frames s" using inv(1) by (simp add: frame_inv_def)
  ultimately show ?thesis using inv(2) by (metis disjoint_iff)
qed

text \<open>
  C3: in every run of the allocator from \<^verbatim>\<open>init_frame_alloc\<close>, on a bitmap in which frame 0 is
  not free, a frame handed out by \<^verbatim>\<open>kalloc_frame\<close> is page-aligned.  It is not frame 0 and
  not one of the frames that are already handed out, provided that each frame given back
  so far was one whose bitmap byte has an index divisible by 8 or one above
  \<^verbatim>\<open>last_free_frame\<close>.  The condition cannot be left out: there is a run, with one other
  frame given back, in which the next frame handed out is already handed out.
\<close>

theorem kalloc_frame_never_shared:
  assumes "frame_run al s own" and "kalloc_frame s = (f, s')" and "f \<noteq> null"
  shows "page_aligned f \<and> (al \<longrightarrow> fnum f \<noteq> 0 \<and> fnum f \<notin> own) \<and>
    (\<exists>r used. frame_run False r used \<and> fnum (fst (kalloc_frame r)) \<in> used)"
proof (intro conjI impI)
  show "page_aligned f" using kalloc_frame_shape [OF assms(2) frame_run_shape [OF assms(1)]] by blast
  show "fnum f \<noteq> 0" "fnum f \<notin> own" if al
    using kalloc_frame_not_shared [of s own f s'] assms that by auto
  show "\<exists>r used. frame_run False r used \<and> fnum (fst (kalloc_frame r)) \<in> used"
    by (rule exI [of _ gap_back], rule exI [of _ "{27, 64}"]) (simp add: gap_back_run gap_back_next fnum_def)
qed

text \<open>
  A machine of 64 frames, the frames 1 and 2 free; \<open>demo s\<close> is the allocator after boot.
\<close>

definition demo_bitmap :: "u64 \<Rightarrow> u8" where
  "demo_bitmap k = (if k = 0 then 6 else 0)"

definition demo_start :: frame_state where
  "demo_start = \<lparr>frame_bitmap = \<lambda>_. 0, pool_top = 0, pool_status = empty, frame_pool = [],
     last_index = 0, last_free_frame = 0, frame_alloc_ready = False, memory_length = 64 * 4096\<rparr>"

definition demo_boot :: frame_state where
  "demo_boot = snd (init_frame_alloc demo_bitmap demo_start)"

definition demo_one :: frame_state where
  "demo_one = snd (kalloc_frame demo_boot)"

lemma demo_boot_run: "frame_run True demo_boot {}"
  by (rule frame_run.boot [of demo_bitmap demo_start "fst (init_frame_alloc demo_bitmap demo_start)"])
    (simp_all add: demo_boot_def demo_bitmap_def)

lemma demo_allocs: "kalloc_frame demo_boot = (8192, demo_one)"
  "fst (kalloc_frame demo_one) = 4096"
proof -
  have "fst (kalloc_frame demo_boot) = 8192" by code_simp
  then show "kalloc_frame demo_boot = (8192, demo_one)" by (simp add: demo_one_def prod_eq_iff)
  show "fst (kalloc_frame demo_one) = 4096" by code_simp
qed

lemma demo_one_run: "frame_run True demo_one {2}"
  using frame_run.alloc [OF demo_boot_run demo_allocs(1)] by (simp add: fnum_def)

theorem kalloc_frame_never_shared_witness: "fnum 4096 \<noteq> 2 \<and> page_aligned 4096"
  using kalloc_frame_never_shared [OF demo_one_run, of 4096 "snd (kalloc_frame demo_one)"] demo_allocs(2)
  by (simp add: prod_eq_iff)

lemma kalloc_frames_array_ok:
  assumes "kalloc_frames_array n arr s = (True, arr', s')" and "frame_inv s"
    and "length arr = unat n"
  shows "length arr' = unat n \<and> (\<forall>f\<in>set arr'. f \<noteq> null \<and> page_aligned f) \<and>
    distinct (map fnum arr') \<and> fnum ` set arr' \<subseteq> avail_frames s \<and>
    avail_frames s' = avail_frames s - fnum ` set arr' \<and> frame_inv s'"
proof -
  obtain fs where "frames.alloc_n (unat n) s = Some (fs, s')" "arr' = fs"
    using kalloc_frames_from_True [of 0 "unat n" arr s arr' s'] assms
    by (auto simp: kalloc_frames_array_def)
  with frames.alloc_n_ok [OF this(1) assms(2)] show ?thesis by auto
qed

lemma gap_array:
  "\<exists>r used a r'. frame_run False r used \<and> kalloc_frames_array 1 [null] r = (True, a, r') \<and>
    fnum (hd a) \<notin> avail_frames r"
proof -
  let ?a = "kalloc_frames_array 1 [null] gap_back"
  have "fst ?a" "fst (snd ?a) = [27 * 4096]" "\<not> is_free gap_back 27" "ready_frames gap_back = []"
    by code_simp+
  then have "?a = (True, [27 * 4096], snd (snd ?a)) \<and> fnum (hd [27 * 4096]) \<notin> avail_frames gap_back"
    by (simp add: prod_eq_iff avail_frames_def free_frames_def fnum_def)
  with gap_back_run show ?thesis by blast
qed

text \<open>
  C14: in a state that satisfies the invariant \<open>frame_inv\<close>, in which \<^verbatim>\<open>last_index\<close> is a multiple
  of 8, a call of \<^verbatim>\<open>kalloc_frames_array\<close> that succeeds fills the array, of as many entries as
  it is asked for, with page-aligned frames of pairwise different numbers, all of them available before, and
  takes exactly those from the available frames; the invariant holds again.  An ordinary
  \<^verbatim>\<open>kfree_frame\<close> can leave another \<^verbatim>\<open>last_index\<close>: after a run with one such call a
  successful request for one frame is answered with a frame that was not available.
\<close>

theorem kalloc_frames_array_success:
  assumes "kalloc_frames_array n arr s = (True, arr', s')" and "frame_inv s"
    and "length arr = unat n"
  shows "length arr' = unat n \<and> (\<forall>f\<in>set arr'. f \<noteq> null \<and> page_aligned f) \<and>
    distinct (map fnum arr') \<and> fnum ` set arr' \<subseteq> avail_frames s \<and>
    avail_frames s' = avail_frames s - fnum ` set arr' \<and> frame_inv s' \<and>
    (\<exists>r used a r'. frame_run False r used \<and> kalloc_frames_array 1 [null] r = (True, a, r') \<and>
      fnum (hd a) \<notin> avail_frames r)"
  using kalloc_frames_array_ok [OF assms] gap_array by blast

lemma demo_boot_inv: "frame_inv demo_boot" "frame_inv demo_one"
  using frame_run_inv [OF demo_boot_run] frame_run_inv [OF demo_one_run] by auto

theorem kalloc_frames_array_success_witness:
  "avail_frames (snd (snd (kalloc_frames_array 2 [0, 0] demo_boot))) = avail_frames demo_boot - {2, 1}"
proof -
  have r: "fst (kalloc_frames_array 2 [0, 0] demo_boot)"
    "fst (snd (kalloc_frames_array 2 [0, 0] demo_boot)) = [8192, 4096]" by code_simp+
  then have "kalloc_frames_array 2 [0, 0] demo_boot =
      (True, [8192, 4096], snd (snd (kalloc_frames_array 2 [0, 0] demo_boot)))"
    by (metis prod.collapse)
  from kalloc_frames_array_success [OF this demo_boot_inv(1)] show ?thesis
    by (simp add: fnum_def)
qed


text \<open>
  when \<^verbatim>\<open>kalloc_frames_array\<close> fails after at least one frame was allocated, exactly one
  frame is lost: the clean-up loop frees one frame fewer than were allocated.
\<close>

theorem kalloc_frames_array_failure_leaks:
  assumes "kalloc_frames_array n arr s = (False, arr', s')" and "length arr = unat n"
    and "frame_inv s" "frame_alloc_ready s"
    and "\<forall>k\<in>avail_frames s. k * 4096 < unat (memory_length s)"
  shows "if fst (kalloc_frame s) = null then avail_frames s' = avail_frames s
    else \<exists>k\<in>avail_frames s. avail_frames s' = avail_frames s - {k}"
proof -
  have "kalloc_frames_from 0 (unat n) arr s = (False, arr', s')"
    using assms(1) by (simp add: kalloc_frames_array_def)
  from kalloc_frames_from_False [OF this _ assms(3,4) _ assms(5)] assms(2) obtain fs s1 where
    a: "frames.alloc_n (length fs) s = Some (fs, s1)" and n: "fst (kalloc_frame s1) = null" and
    s': "avail_frames s' = avail_frames s1 \<union> fnum ` set (take (length fs - 1) fs)"
    by (auto simp: in_memory_def)
  show ?thesis
  proof (cases fs rule: rev_cases)
    case Nil
    with a s' n show ?thesis by simp
  next
    case (snoc gs g)
    note ok = frames.alloc_n_ok [OF a assms(3)]
    have "fst (kalloc_frame s) \<noteq> null"
      using a snoc by (auto split: prod.splits if_splits)
    moreover have "avail_frames s' = avail_frames s - {fnum g}" "fnum g \<in> avail_frames s"
      using ok s' by (auto simp: snoc)
    ultimately show ?thesis by auto
  qed
qed


theorem kalloc_frames_array_failure_leaks_witness:
  "\<exists>k\<in>avail_frames demo_boot. avail_frames (snd (snd (kalloc_frames_array 3 [0, 0, 0] demo_boot))) =
     avail_frames demo_boot - {k}"
proof -
  have r: "\<not> fst (kalloc_frames_array 3 [0, 0, 0] demo_boot)" "frame_alloc_ready demo_boot"
    "memory_length demo_boot = 64 * 4096" by code_simp+
  have "avail_frames demo_boot = {k. k < 4503599627370496 \<and> bit (demo_bitmap (of_nat (k div 8))) (k mod 8)}"
    using init_frame_alloc_ok [of demo_bitmap demo_start "fst (init_frame_alloc demo_bitmap demo_start)" demo_boot]
    by (simp add: demo_boot_def demo_bitmap_def)
  moreover have "k div 8 = 0" if "k < 4503599627370496" "bit (demo_bitmap (of_nat (k div 8))) (k mod 8)" for k
  proof (rule ccontr)
    assume "k div 8 \<noteq> 0"
    then have "unat (of_nat (k div 8) :: u64) \<noteq> 0" using that(1) by (subst unat_of_nat_64) auto
    then have "(of_nat (k div 8) :: u64) \<noteq> 0" by (metis unat_0)
    with that(2) show False by (simp add: demo_bitmap_def)
  qed
  ultimately have "k < 8" if "k \<in> avail_frames demo_boot" for k
    using that by (metis (mono_tags, lifting) mem_Collect_eq div_eq_0_iff zero_neq_numeral)
  note eight = this
  have len: "unat (memory_length demo_boot) = 262144" unfolding r(3) by simp
  have "\<forall>k\<in>avail_frames demo_boot. k * 4096 < unat (memory_length demo_boot)"
  proof
    fix k assume "k \<in> avail_frames demo_boot"
    from eight [OF this] show "k * 4096 < unat (memory_length demo_boot)" unfolding len by linarith
  qed
  then have mem: "\<forall>k\<in>avail_frames demo_boot. k * 4096 < unat (memory_length demo_boot)" .
  have "kalloc_frames_array 3 [0, 0, 0] demo_boot = (False,
      fst (snd (kalloc_frames_array 3 [0, 0, 0] demo_boot)), snd (snd (kalloc_frames_array 3 [0, 0, 0] demo_boot)))"
    by (rule triple_of) (use r(1) in simp)
  moreover have "length [0, 0, 0 :: u64] = unat (3 :: u32)" by simp
  ultimately have "if fst (kalloc_frame demo_boot) = null
      then avail_frames (snd (snd (kalloc_frames_array 3 [0, 0, 0] demo_boot))) = avail_frames demo_boot
      else \<exists>k\<in>avail_frames demo_boot.
        avail_frames (snd (snd (kalloc_frames_array 3 [0, 0, 0] demo_boot))) = avail_frames demo_boot - {k}"
    by (rule kalloc_frames_array_failure_leaks [OF _ _ demo_boot_inv(1) r(2) mem])
  moreover have "fst (kalloc_frame demo_boot) \<noteq> null" by (simp add: demo_allocs(1))
  ultimately show ?thesis by (simp only: if_False)
qed

text \<open>
  \<^verbatim>\<open>kfree_frame\<close> stores the byte index of the frame in \<^verbatim>\<open>last_index\<close>, where
  \<^verbatim>\<open>kalloc_pool\<close> expects the index of a bit that is a multiple of 8.  When the freed frame
  \<open>8 * q + r\<close> is the only free one, the next \<^verbatim>\<open>kalloc_frame\<close> returns frame
  \<open>8 * q + r + q mod 8\<close>: another frame than the freed one unless 8 divides \<open>q\<close>.
\<close>

theorem kfree_then_kalloc_wrong_frame:
  assumes "frame_alloc_ready s" "pool_status s = empty" "pool_top s = 0"
    and "frame_bitmap s = (\<lambda>_. 0)" "length (frame_pool s) = 64"
    and "f \<le> last_free_frame s" "f < memory_length s"
    and "fnum f div 8 < 2 ^ 32"
    and "8 * (fnum f div 8) + (fnum f div 8) mod 8 < fnum (memory_length s)"
  shows "fst (kalloc_frame (snd (kfree_frame f s))) = of_nat (fnum f + (fnum f div 8) mod 8) * 4096"
proof -
  define q r where "q = fnum f div 8" and "r = fnum f mod 8"
  define m where "m = q - q div 8"
  have r: "r < 8" and fq: "fnum f = 8 * q + r" by (simp_all add: q_def r_def)
  have q: "q < 4294967296" using assms(8) by (simp add: q_def)
  have start: "q + 8 * m = 8 * q + q mod 8" 
  proof -
    have "q = 8 * (q div 8) + q mod 8" by simp
    then show ?thesis unfolding m_def by linarith
  qed
  define x where "x = GET_BYTE_FROM_ADDRESS f"
  have x: "unat x = q" "unat (GET_BIT_FROM_ADDRESS f) = r"
    by (simp_all add: x_def byte_bit_of_address q_def r_def)
  have xq: "x = of_nat q" using x(1) by (metis of_nat_unat ucast_id)
  have xc: "(ucast x :: u32) = of_nat q"
    using q x(1) by (simp add: word_unat_eq_iff unsigned_ucast_eq take_bit_nat_eq_self)
  let ?s = "s\<lparr>frame_bitmap := (\<lambda>_. 0)(x := 2 ^ r), last_index := of_nat q, last_free_frame := f\<rparr>"
  have free: "snd (kfree_frame f s) = ?s"
    using assms(1,4,6,7) x by (simp add: kfree_frame_def Let_def x_def [symmetric] not_le xc)
  let ?n = "unat (memory_length s div 4096)"
  have n: "?n = fnum (memory_length s)" by (simp add: fnum_def unat_div)
  have n52: "?n < 4503599627370496" unfolding n by (rule fnum_bound)
  have step: "(of_nat i :: u64) div 8 = of_nat (i div 8)" if "i < 4503599627370496" for i
    using that by (simp add: word_unat_eq_iff unat_div)
  have "\<exists>l. scan_bytes q ?n ?s = scan_bytes (q + 8 * m) ?n (?s\<lparr>last_index := l\<rparr>)"
  proof (rule scan_bytes_clear)
    show "frame_bitmap ?s (of_nat (q + 8 * k) div 8) = 0" if "k < m" for k
    proof -
      have lt: "q + 8 * k < 4503599627370496" using that start q by (simp add: m_def)
      have "(q + 8 * k) div 8 \<noteq> q" using that by (simp add: m_def)
      moreover have "(q + 8 * k) div 8 < 18446744073709551616" using lt by linarith
      ultimately have "of_nat ((q + 8 * k) div 8) \<noteq> x"
        using x(1) by (metis unat_of_nat_64)
      with step [OF lt] show ?thesis by simp
    qed
    show "pool_top ?s \<noteq> 64" by (simp add: assms(3))
    show "q + 8 * m \<le> ?n" using assms(9) n start by (simp add: q_def)
  qed
  then obtain l where 1: "scan_bytes q ?n ?s = scan_bytes (q + 8 * m) ?n (?s\<lparr>last_index := l\<rparr>)" ..
  let ?i = "q + 8 * m"
  have i: "?i < ?n" using assms(9) n start by (simp add: q_def)
  have ix: "(of_nat ?i :: u64) div 8 = x"
    using step [of ?i] i n52 start xq by simp
  let ?g = "(of_nat ?i + of_nat r) * 4096 :: u64"
  let ?t = "?s\<lparr>last_index := of_nat ?i, frame_bitmap := (\<lambda>_. 0),
    frame_pool := (frame_pool s)[0 := ?g], last_free_frame := ?g, pool_top := 1\<rparr>"
  have 2: "scan_byte (of_nat ?i) [0..<8] (?s\<lparr>last_index := of_nat ?i\<rparr>) = (False, ?t)"
    by (subst scan_byte_single [OF _ r ix]) (simp_all add: assms(3))
  have "\<exists>l. scan_bytes (?i + 8) ?n ?t = (False, ?t\<lparr>last_index := l\<rparr>)"
    by (rule scan_bytes_all_clear) simp_all
  then obtain l' where 3: "scan_bytes (?i + 8) ?n ?t = (False, ?t\<lparr>last_index := l'\<rparr>)" ..
  have scan: "scan_bytes q ?n ?s = (False, ?t\<lparr>last_index := l'\<rparr>)"
    unfolding 1 scan_bytes.simps [of ?i] using i 2 3 by simp
  have pool: "kalloc_pool ?s = (partially_allocated,
      ?t\<lparr>last_index := l', pool_status := partially_allocated, pool_top := 0\<rparr>)"
    using scan assms(1) q by (simp add: kalloc_pool_def)
  have "fst (kalloc_frame ?s) = ?g"
    using assms(1,2,5) by (simp add: kalloc_frame_def pool)
  moreover have "?i + r = fnum f + q mod 8" using start fq by linarith
  then have "(of_nat ?i + of_nat r :: u64) = of_nat (fnum f + q mod 8)"
    by (metis of_nat_add)
  ultimately show ?thesis unfolding free q_def [symmetric] by (simp only:)
qed


theorem kfree_then_kalloc_wrong_frame_witness:
  "fst (kalloc_frame (snd (kfree_frame (24 * 4096)
     \<lparr>frame_bitmap = \<lambda>_. 0, pool_top = 0, pool_status = empty, frame_pool = replicate 64 0,
      last_index = 0, last_free_frame = 48 * 4096, frame_alloc_ready = True,
      memory_length = 64 * 4096\<rparr>))) = 27 * 4096"
  by (subst kfree_then_kalloc_wrong_frame) (simp_all add: fnum_def word_le_nat_alt word_less_nat_alt)

lemma kalloc_frame_null_ok:
  assumes "kalloc_frame s = (null, s')" and "frame_inv s" and "frame_alloc_ready s"
  shows "ready_frames s = [] \<and>
    (\<forall>k. unat (last_index s) \<le> k \<and> k < fnum (memory_length s) \<longrightarrow> \<not> is_free s k)"
proof -
  obtain t where e: "pool_status s = empty" and p: "kalloc_pool s = (empty, t)"
    using kalloc_frame_null_pool [OF assms] by blast
  let ?n = "unat (memory_length s div PAGE_SIZE)"
  have n: "?n = fnum (memory_length s)" by (simp add: fnum_def unat_div)
  obtain full u where b: "scan_bytes (unat (last_index s)) ?n s = (full, u)" by fastforce
  have top: "unat (pool_top s) < 64" "pool_top s = 0" and li: "8 dvd unat (last_index s)"
    using assms(2) e by (simp_all add: frame_inv_def)
  have n52: "?n \<le> 4503599627370496" unfolding n by (rule less_imp_le) (rule fnum_bound)
  have "if full then filled_ok (avail_frames s) u else scan_ok (avail_frames s) u"
    using scan_bytes_ok [OF b frame_inv_scan_ok [OF assms(2) e] li n52 li] by blast
  then have "\<not> full"
    using p b assms(3) by (auto simp: kalloc_pool_def filled_ok_def)
  moreover from this have "pool_top u = 0"
    using p b assms(3) by (auto simp: kalloc_pool_def split: if_splits)
  ultimately have "\<forall>k. unat (last_index s) \<le> k \<and> k < ?n \<longrightarrow> \<not> is_free s k"
    using scan_bytes_none [OF _ top(1) li n52, of u] b top(2) by auto
  then show ?thesis using e by (simp add: n ready_frames_def)
qed

lemma gap_missed:
  "\<exists>r used k. frame_run False r used \<and> fst (kalloc_frame r) = null \<and> is_free r k \<and>
    unat (last_index r) \<le> k \<and> k < fnum (memory_length r)"
proof -
  have "fst (kalloc_frame gap_last) = null" "is_free gap_last 64" "unat (last_index gap_last) \<le> 64"
    "memory_length gap_last = 66 * 4096"
    by code_simp+
  moreover from this have "64 < fnum (memory_length gap_last)" by (simp add: fnum_def)
  ultimately show ?thesis using gap_last_run by blast
qed

text \<open>
  C27: when \<^verbatim>\<open>kalloc_frame\<close> of an initialised allocator that satisfies the invariant
  \<open>frame_inv\<close>, in which \<^verbatim>\<open>last_index\<close> is a multiple of 8, reports that no frame is left,
  the pool is empty and no frame from \<^verbatim>\<open>last_index\<close> up to the end of the memory is free.  An ordinary
  \<^verbatim>\<open>kfree_frame\<close> can leave another \<^verbatim>\<open>last_index\<close>: after a run with such a call null is
  returned although a frame from \<^verbatim>\<open>last_index\<close> on is free.
\<close>

theorem kalloc_frame_null_complete:
  assumes "kalloc_frame s = (null, s')" and "frame_inv s" and "frame_alloc_ready s"
  shows "ready_frames s = [] \<and>
    (\<forall>k. unat (last_index s) \<le> k \<and> k < fnum (memory_length s) \<longrightarrow> \<not> is_free s k) \<and>
    (\<exists>r used k. frame_run False r used \<and> fst (kalloc_frame r) = null \<and> is_free r k \<and>
      unat (last_index r) \<le> k \<and> k < fnum (memory_length r))"
  using kalloc_frame_null_ok [OF assms] gap_missed by blast

theorem kalloc_frame_null_complete_witness: 
  "\<not> is_free (snd (kalloc_frame (snd (kalloc_frame demo_one)))) 5"
proof -
  let ?t = "snd (kalloc_frame demo_one)"
  let ?s = "snd (kalloc_frame ?t)"
  have "fst (kalloc_frame ?s) = null" "frame_alloc_ready ?s" "unat (last_index ?s) \<le> 5"
    "memory_length ?s = 64 * 4096" by code_simp+
  moreover have "frame_inv ?s"
    using kalloc_frame_ok [OF pair_of [OF refl], of ?t]
      kalloc_frame_ok [OF pair_of [OF refl] demo_boot_inv(2)] by blast
  ultimately show ?thesis
    using kalloc_frame_null_complete [of ?s "snd (kalloc_frame ?s)"] by (simp add: prod_eq_iff fnum_def)
qed

text \<open>
  \<^verbatim>\<open>flush_frame_prealloc_pool\<close> returns every slot of the pool array to the bitmap, the
  cleared ones too: once a frame was handed out of the pool, the flush marks frame 0 free.
\<close>

theorem flush_frees_frame_zero:
  assumes "frame_alloc_ready s" and "0 < memory_length s"
    and "length (frame_pool s) = 64" and "null \<in> set (frame_pool s)"
  shows "0 \<in> avail_frames (flush_frame_prealloc_pool s)"
proof -
  obtain i where i: "i < 64" "frame_pool s ! i = null"
    using assms(3,4) by (metis in_set_conv_nth)
  let ?P = "\<lambda>j t. frame_pool t = frame_pool s \<and> frame_alloc_ready t \<and>
    memory_length t = memory_length s \<and> (i < j \<longrightarrow> 0 \<in> free_frames t)"
  let ?body = "\<lambda>j s. snd (kfree_frame (frame_pool s ! j) s)"
  have step: "?P (Suc j) (?body j t)" if "?P j t" for j t
  proof (cases "frame_pool s ! j < memory_length s")
    case True
    have ok: "kfree_frame (frame_pool t ! j) t = (True, ?body j t)"
      using True that by (simp add: kfree_frame_def Let_def not_le)
    show ?thesis using kfree_frame_free [OF ok] that i(2)
      by (cases "i = j") (auto simp: fnum_def)
  next
    case False
    then have "kfree_frame (frame_pool t ! j) t = (False, t)"
      using that by (simp add: kfree_frame_def not_less)
    moreover have "i \<noteq> j" using False i(2) assms(2) by auto
    ultimately show ?thesis using that by auto
  qed
  have "?P 64 (for_loop 64 ?body s)"
    by (rule for_loop_invariant [where P = ?P]) (use assms(1) step in auto)
  then have "0 \<in> free_frames (for_loop 64 ?body s)" using i(1) by blast
  then show ?thesis
    by (simp add: flush_frame_prealloc_pool_def avail_frames_def PREALLOC_POOL_SIZE_def
        del: for_loop_numeral)
qed

theorem flush_frees_frame_zero_witness:
  "0 \<in> avail_frames (flush_frame_prealloc_pool demo_one) \<and> 0 \<notin> avail_frames demo_one"
proof -
  have "frame_alloc_ready demo_one" "memory_length demo_one = 64 * 4096"
    "length (frame_pool demo_one) = 64" "frame_pool demo_one ! 1 = null" by code_simp+
  moreover from this have "null \<in> set (frame_pool demo_one)" by (metis nth_mem one_less_numeral_iff semiring_norm(76))
  moreover have "(0 :: u64) < 64 * 4096" by simp
  ultimately show ?thesis using flush_frees_frame_zero [of demo_one] demo_boot_inv(2)
    by (simp add: frame_inv_def)
qed

text \<open>
  \<^verbatim>\<open>klock_frame\<close>, which is to mark one frame as used, marks every frame of its bitmap
  byte up to and including that one as used, and leaves the later frames alone.
\<close>

theorem klock_frame_effect:
  assumes "frame_alloc_ready s" and "f < memory_length s" and "k < 4503599627370496"
  shows "is_free (klock_frame f s) k \<longleftrightarrow>
    is_free s k \<and> (k div 8 = fnum f div 8 \<longrightarrow> fnum f mod 8 < k mod 8)"
proof -
  let ?x = "GET_BYTE_FROM_ADDRESS f" and ?j = "unat (GET_BIT_FROM_ADDRESS f)"
  have l: "klock_frame f s =
    s\<lparr>frame_bitmap := (frame_bitmap s)(?x := frame_bitmap s ?x AND push_bit ?j (0xFF - 1))\<rparr>"
    using assms(1,2) by (simp add: klock_frame_def Let_def)
  have "bit (push_bit j (0xFF - 1) :: u8) i \<longleftrightarrow> j < i" if "i < 8" "j < 8" for i j
  proof -
    have "(0xFF - 1 :: u8) = NOT 1" by simp
    then show ?thesis using that by (auto simp only: bit_simps) (simp_all add: possible_bit_word)
  qed
  then have b: "bit (push_bit (fnum f mod 8) (0xFF - 1) :: u8) (k mod 8) \<longleftrightarrow> fnum f mod 8 < k mod 8"
    by simp
  have x: "?x = of_nat (k div 8)" if "k div 8 = fnum f div 8"
    using that byte_bit_of_address(1) [of f] by (metis of_nat_unat ucast_id)
  show ?thesis
    unfolding l is_free_upd [OF assms(3)] byte_bit_of_address bit_and_iff b
    using x by (auto simp: is_free_def)
qed

theorem klock_frame_effect_witness: "\<not> is_free (klock_frame 8192 demo_boot) 1"
proof -
  have "frame_alloc_ready demo_boot" "memory_length demo_boot = 64 * 4096" by code_simp+
  then show ?thesis using klock_frame_effect [of demo_boot 8192 1] by (simp add: fnum_def)
qed

end
