(* ===== verification/Paging_Props.thy ===== *)
theory Paging_Props
  imports Paging Frame_Alloc_Props
begin

text \<open>
  What \<^verbatim>\<open>map_page\<close> does to the tree of page tables and to the address translation: the
  invariant of the tree, the entry of every page after the call, the translation of the
  page just mapped, and what remains of frames that were not cleared.
\<close>

section \<open>One level\<close>

lemma tree_ok_fill:
  assumes ok: "tree_ok m root av" and p: "is_path p" "table_at m root p = Some u" "length p < 3"
    and j: "j < 512" and e: "load64 m (slot u j) = 0"
    and f: "page_aligned f" "fnum f \<in> av"
  defines "m' \<equiv> store64 m (slot u j) (f OR PAGE_FLAGS)"
  shows "tree_ok m' root (av - {fnum f})"
    and "page_entry m' root v = page_entry m root v"
proof -
  note at = table_at_fill [OF ok p j e f, folded m'_def]
  have root: "page_aligned root" using ok by (simp add: tree_ok_def)
  have u: "page_aligned u" by (rule table_aligned [OF root p(2)])
  have new: "table_at m root q \<noteq> Some f" if "is_path q" for q
    using ok f(2) that unfolding tree_ok_def by blast
  have unique: "q = r" if "is_path q" "is_path r" "table_at m' root q = Some t" "table_at m' root r = Some t" for q r t
  proof -
    have "q = p @ [j] \<longleftrightarrow> t = f" "r = p @ [j] \<longleftrightarrow> t = f"
      using that at new by (auto split: if_splits)
    moreover have "q = r" if "t \<noteq> f"
      using that \<open>is_path q\<close> \<open>is_path r\<close> \<open>table_at m' root q = Some t\<close> \<open>table_at m' root r = Some t\<close>
        at tree_ok_unique [OF ok] calculation by auto
    ultimately show ?thesis by blast
  qed
  have used: "fnum t \<notin> av - {fnum f}" if "is_path q" "table_at m' root q = Some t" for q t
    using that at [OF that(1)] ok unfolding tree_ok_def by (auto split: if_splits)
  have zero: "load64 m' (slot g i) = 0" if g: "page_aligned g" "fnum g \<in> av - {fnum f}" "i < 512" for g i
  proof -
    have "g \<noteq> u" using ok p(1,2) g(2) unfolding tree_ok_def by blast
    moreover have "load64 m (slot g i) = 0" using ok g unfolding tree_ok_def by blast
    ultimately show ?thesis unfolding m'_def bytes.ld_st_slot [OF u j g(1,3)] by simp
  qed
  show "tree_ok m' root (av - {fnum f})"
    unfolding tree_ok_def using root unique used zero by blast
  show "page_entry m' root v = page_entry m root v"
  proof (cases "path_of v = p @ [j]")
    case True
    have uf: "u \<noteq> f" using new p(1,2) by auto
    have "load64 m' (slot f (field 12 v)) = load64 m (slot f (field 12 v))"
      unfolding m'_def bytes.ld_st_slot [OF u j f(1) field_less] using uf by simp
    moreover have "load64 m (slot f (field 12 v)) = 0"
      using ok f field_less unfolding tree_ok_def by blast
    moreover have "table_at m root (p @ [j]) = None" using e p(2) by (simp add: table_at_snoc)
    ultimately show ?thesis using at [OF is_path_path_of(1), of v] True by (simp add: page_entry_def)
  next
    case False
    then have same: "table_at m' root (path_of v) = table_at m root (path_of v)"
      using at [of "path_of v"] by simp
    have "load64 m' (slot t (field 12 v)) = load64 m (slot t (field 12 v))"
      if t: "table_at m root (path_of v) = Some t" for t
    proof -
      have "t \<noteq> u" using tree_ok_unique [OF ok p(1) is_path_path_of(1) p(2)] t p(3)
        by (metis is_path_path_of(2) less_irrefl)
      then show ?thesis
        unfolding m'_def bytes.ld_st_slot [OF u j table_aligned [OF root t] field_less] by simp
    qed
    then show ?thesis unfolding page_entry_def same by (auto split: option.split)
  qed
qed

lemma next_table_ok:
  assumes inv: "paging_inv s" and p: "is_path p" "length p < 3" "table_at (pmem s) (root_of s) p = Some u"
    and j: "j < 512" and n: "next_table u j s = (r, s')"
  shows "paging_inv s' \<and> root_of s' = root_of s \<and>
    (\<forall>v. page_entry (pmem s') (root_of s) v = page_entry (pmem s) (root_of s) v) \<and>
    (\<forall>t. r = Some t \<longrightarrow> table_at (pmem s') (root_of s) (p @ [j]) = Some t) \<and>
    tlb_flushes s' = tlb_flushes s"
proof (cases "load64 (pmem s) (slot u j) = 0")
  case False
  then show ?thesis using n inv p by (auto simp: next_table_def table_at_snoc)
next
  case e: True
  obtain f fa where k: "kalloc_frame (falloc s) = (f, fa)" by fastforce
  have fi: "frame_inv (falloc s)" and ok: "tree_ok (pmem s) (root_of s) (avail_frames (falloc s))"
    using inv by (simp_all add: paging_inv_def)
  have fi': "frame_inv fa" by (rule frames.alloc_inv [OF fi k])
  show ?thesis
  proof (cases "f = 0")
    case True
    then have "avail_frames fa = avail_frames (falloc s)" using frames.alloc_none [OF fi] k by simp
    moreover have "r = None" "s' = s\<lparr>falloc := fa\<rparr>" using n e k True by (auto simp: next_table_def)
    ultimately show ?thesis using fi' ok by (simp add: paging_inv_def root_of_def)
  next
    case False
    then have f: "page_aligned f" "fnum f \<in> avail_frames (falloc s)"
      and av: "avail_frames fa = avail_frames (falloc s) - {fnum f}"
      using frames.alloc_some [OF fi k] by auto
    have r: "r = Some f" "s' = s\<lparr>falloc := fa, pmem := store64 (pmem s) (slot u j) (f OR PAGE_FLAGS)\<rparr>"
      using n e k False by (auto simp: next_table_def)
    note fill = tree_ok_fill [OF ok p(1,3,2) j e f]
    have "table_at (pmem s') (root_of s) (p @ [j]) = Some f"
      using table_at_fill [OF ok p(1,3,2) j e f, of "p @ [j]"] p j by (simp add: r is_path_snoc)
    with fill r fi' av show ?thesis by (simp add: paging_inv_def root_of_def)
  qed
qed

section \<open>The last level\<close>

lemma tree_ok_leaf:
  fixes x :: u64
  assumes ok: "tree_ok m root av" and pt: "table_at m root (path_of v) = Some pt"
  defines "m' \<equiv> store64 m (slot pt (field 12 v)) x"
  shows "tree_ok m' root av"
    and "is_path q \<Longrightarrow> table_at m' root q = table_at m root q"
    and "page_entry m' root w =
      (if path_of w = path_of v \<and> field 12 w = field 12 v then x else page_entry m root w)"
proof -
  have root: "page_aligned root" using ok by (simp add: tree_ok_def)
  note al = table_aligned [OF root]
  note upt = tree_ok_unique [OF ok _ is_path_path_of(1) _ pt]
  have load: "load64 m' (slot t i) = load64 m (slot t i)"
    if "table_at m root q = Some t" "is_path q" "length q < 3" "i < 512" for q t i
  proof -
    have "t \<noteq> pt" using upt [OF that(2)] that(1,3) by auto
    then show ?thesis unfolding m'_def bytes.ld_st_slot [OF al [OF pt] field_less al [OF that(1)] that(4)]
      by simp
  qed
  show at: "table_at m' root q = table_at m root q" if "is_path q" for q
    using that
  proof (induction q rule: rev_induct)
    case (snoc i q)
    then have q: "is_path q" "length q < 3" "i < 512" by (simp_all add: is_path_snoc)
    show ?case unfolding table_at_snoc snoc.IH [OF q(1)]
      using load [OF _ q] by (auto split: option.split)
  qed simp
  have free: "load64 m' (slot f i) = load64 m (slot f i)" if "page_aligned f" "fnum f \<in> av" "i < 512" for f i
  proof -
    have "f \<noteq> pt" using ok pt that(2) is_path_path_of(1) unfolding tree_ok_def by blast
    then show ?thesis unfolding m'_def bytes.ld_st_slot [OF al [OF pt] field_less that(1,3)] by simp
  qed
  have zero: "load64 m (slot f i) = 0" if "page_aligned f" "fnum f \<in> av" "i < 512" for f i
    using ok that unfolding tree_ok_def by blast
  have unique: "q = r" if "is_path q" "is_path r" "table_at m' root q = Some t" "table_at m' root r = Some t" for q r t
    using that at tree_ok_unique [OF ok] by metis
  have used: "fnum t \<notin> av" if "is_path q" "table_at m' root q = Some t" for q t
    using that at ok unfolding tree_ok_def by metis
  show "tree_ok m' root av" unfolding tree_ok_def using root unique used free zero by metis
  have eq: "t = pt \<longleftrightarrow> path_of w = path_of v" if w: "table_at m root (path_of w) = Some t" for t
  proof
    assume "t = pt"
    with w show "path_of w = path_of v" by (intro upt [OF is_path_path_of(1)]) simp
  next
    assume "path_of w = path_of v"
    with w pt show "t = pt" by simp
  qed
  have leaf: "load64 m' (slot t (field 12 w)) = (if pt = t \<and> field 12 v = field 12 w then x else load64 m (slot t (field 12 w)))"
    if "table_at m root (path_of w) = Some t" for t
    unfolding m'_def by (rule bytes.ld_st_slot [OF al [OF pt] field_less al [OF that] field_less])
  show "page_entry m' root w =
      (if path_of w = path_of v \<and> field 12 w = field 12 v then x else page_entry m root w)"
  proof (cases "table_at m root (path_of w)")
    case None
    then have "path_of w \<noteq> path_of v" using pt by auto
    with None show ?thesis unfolding page_entry_def at [OF is_path_path_of(1)] by simp
  next
    case (Some t)
    then show ?thesis
      unfolding page_entry_def at [OF is_path_path_of(1)] using leaf [OF Some] eq [OF Some] by auto
  qed
qed

section \<open>The whole call\<close>

lemma map_page_ok:
  assumes inv: "paging_inv s" and m: "map_page v p s = (ok, s')"
  shows "paging_inv s' \<and> root_of s' = root_of s \<and>
    (ok \<longrightarrow> (\<exists>pt. table_at (pmem s') (root_of s) (path_of v) = Some pt) \<and> tlb_flushes s' = v # tlb_flushes s) \<and>
    (\<forall>w. page_entry (pmem s') (root_of s) w =
      (if ok \<and> path_of w = path_of v \<and> field 12 w = field 12 v then p OR PAGE_FLAGS
       else page_entry (pmem s) (root_of s) w))"
proof -
  obtain r0 s0 where n0: "next_table (cr3 s AND page_mask) (field 39 v) s = (r0, s0)" by fastforce
  have p0: "is_path []" "length [] < (3::nat)" "table_at (pmem s) (root_of s) [] = Some (cr3 s AND page_mask)"
    by (simp_all add: is_path_def root_of_def)
  note o0 = next_table_ok [OF inv p0 field_less n0]
  show ?thesis
  proof (cases r0)
    case None
    then have "\<not> ok" "s' = s0" using m n0 by (auto simp: map_page_def)
    with o0 show ?thesis by simp
  next
    case (Some pdpt)
    have p1: "is_path [field 39 v]" "length [field 39 v] < 3"
      "table_at (pmem s0) (root_of s0) [field 39 v] = Some pdpt"
      using o0 Some by (simp_all add: is_path_def)
    obtain r1 s1 where n1: "next_table pdpt (field 30 v) s0 = (r1, s1)" by fastforce
    note o1 = next_table_ok [OF _ p1 field_less n1]
    show ?thesis
    proof (cases r1)
      case None
      then have "\<not> ok" "s' = s1" using m n0 n1 Some by (auto simp: map_page_def)
      with o0 o1 show ?thesis by simp
    next
      case pd: (Some pd)
      have p2: "is_path [field 39 v, field 30 v]" "length [field 39 v, field 30 v] < 3"
        "table_at (pmem s1) (root_of s1) [field 39 v, field 30 v] = Some pd"
        using o0 o1 pd by (simp_all add: is_path_def)
      obtain r2 s2 where n2: "next_table pd (field 21 v) s1 = (r2, s2)" by fastforce
      note o2 = next_table_ok [OF _ p2 field_less n2]
      show ?thesis
      proof (cases r2)
        case None
        then have "\<not> ok" "s' = s2" using m n0 n1 n2 Some pd by (auto simp: map_page_def)
        with o0 o1 o2 show ?thesis by simp
      next
        case pt: (Some pt)
        have r: "ok" "s' = (flush_tlb_entry v s2)
            \<lparr>pmem := store64 (pmem s2) (slot pt (field 12 v)) (p OR PAGE_FLAGS)\<rparr>"
          using m n0 n1 n2 Some pd pt by (auto simp: map_page_def flush_tlb_entry_def)
        have i2: "paging_inv s2" "root_of s2 = root_of s"
          "table_at (pmem s2) (root_of s) (path_of v) = Some pt"
          "tlb_flushes s2 = tlb_flushes s"
          "\<And>w. page_entry (pmem s2) (root_of s) w = page_entry (pmem s) (root_of s) w"
          using o0 o1 o2 pt by (simp_all add: path_of_def)
        have t2: "tree_ok (pmem s2) (root_of s) (avail_frames (falloc s2))"
          using i2(1,2) by (simp add: paging_inv_def)
        note leaf = tree_ok_leaf [OF t2 i2(3), where x = "p OR PAGE_FLAGS"]
        have "paging_inv s'" using leaf(1) i2(1,2)
          by (simp add: paging_inv_def r(2) flush_tlb_entry_def root_of_def)
        then show ?thesis using leaf(2) [OF is_path_path_of(1)] leaf(3) i2 r
          by (simp add: flush_tlb_entry_def root_of_def)
      qed
    qed
  qed
qed


lemma get_physical_address_table:
  "get_physical_address v s = (case table_at (pmem s) (root_of s) (path_of v) of
     None \<Rightarrow> TRANSLATION_UNKNOWN
   | Some pt \<Rightarrow> load64 (pmem s) (slot pt (field 12 v)) AND page_mask OR (v AND 0xFFF))"
  by (simp add: get_physical_address_def path_of_def root_of_def Let_def)

lemma get_physical_address_entry:
  "page_entry (pmem s) (root_of s) v \<noteq> 0 \<Longrightarrow>
    get_physical_address v s = page_entry (pmem s) (root_of s) v AND page_mask OR (v AND 0xFFF)"
  by (auto simp: get_physical_address_table page_entry_def split: option.splits)

section \<open>The properties\<close>

text \<open>
  C8: a call of \<^verbatim>\<open>map_page\<close> that succeeds makes every address of the page translate to the
  same offset in the given frame, leaves the translation of every other mapped page
  unchanged, keeps the invariant of the tables and flushes the address from the TLB.
\<close>

theorem map_page_translates:
  assumes "paging_inv s" and "map_page v p s = (True, s')"
  shows "paging_inv s' \<and> tlb_flushes s' = v # tlb_flushes s \<and>
    (\<forall>w. path_of w = path_of v \<and> field 12 w = field 12 v \<longrightarrow>
       get_physical_address w s' = p AND page_mask OR (w AND 0xFFF)) \<and>
    (\<forall>w. page_entry (pmem s) (root_of s) w \<noteq> 0 \<and> (path_of w, field 12 w) \<noteq> (path_of v, field 12 v) \<longrightarrow>
       get_physical_address w s' = get_physical_address w s)"
proof -
  note ok = map_page_ok [OF assms]
  have fl: "(p OR PAGE_FLAGS) AND page_mask = p AND page_mask"
  proof (rule bit_eqI)
    fix k show "bit ((p OR PAGE_FLAGS) AND page_mask) k = bit (p AND page_mask) k"
      using bit_PAGE_FLAGS [of k] by (auto simp: bit_and_iff bit_or_iff bit_page_mask)
  qed
  have "get_physical_address w s' = p AND page_mask OR (w AND 0xFFF)"
    if "path_of w = path_of v" "field 12 w = field 12 v" for w
    using ok that get_physical_address_entry [of s' w] by (simp add: entry_nonzero fl)
  moreover have "get_physical_address w s' = get_physical_address w s"
    if "page_entry (pmem s) (root_of s) w \<noteq> 0" "(path_of w, field 12 w) \<noteq> (path_of v, field 12 v)" for w
    using ok that get_physical_address_entry [of s' w] get_physical_address_entry [of s w] by auto
  ultimately show ?thesis using ok by blast
qed

text \<open>A machine whose frames 1 to 4 are free, its empty top-level table in frame 5.\<close>

definition demo_frames :: frame_state where
  "demo_frames = snd (init_frame_alloc (\<lambda>k. if k = 0 then 30 else 0) demo_start)"

definition demo_paging :: paging_state where
  "demo_paging = \<lparr>falloc = demo_frames, pmem = \<lambda>_. 0, cr3 = 5 * 4096, tlb_flushes = []\<rparr>"

lemma tree_ok_empty: "page_aligned root \<Longrightarrow> fnum root \<notin> av \<Longrightarrow> tree_ok (\<lambda>_. 0) root av"
proof -
  have "table_at (\<lambda>_. 0) root p = Some t \<longleftrightarrow> p = [] \<and> t = root" for p t
    by (cases p) auto
  then show "page_aligned root \<Longrightarrow> fnum root \<notin> av \<Longrightarrow> tree_ok (\<lambda>_. 0) root av"
    by (auto simp: tree_ok_def)
qed

lemma demo_frames_avail: "frame_inv demo_frames" "5 \<notin> avail_frames demo_frames"
proof -
  have i: "init_frame_alloc (\<lambda>k. if k = 0 then 30 else 0) demo_start =
      (fst (init_frame_alloc (\<lambda>k. if k = 0 then 30 else 0) demo_start), demo_frames)"
    by (simp add: demo_frames_def)
  show "frame_inv demo_frames" "5 \<notin> avail_frames demo_frames"
    using init_frame_alloc_ok [OF i] by simp_all
qed

lemma demo_paging_inv: "paging_inv demo_paging"
proof -
  have "(20480 :: u64) AND page_mask = 20480" by (simp add: page_mask_def)
  moreover have "page_aligned 20480" "fnum 20480 = 5" by (simp_all add: page_aligned_def fnum_def)
  ultimately show ?thesis using demo_frames_avail
    by (simp add: paging_inv_def demo_paging_def root_of_def tree_ok_empty)
qed

lemma demo_map: "fst (map_page 0x201234 0x7000 demo_paging)"
  by code_simp

theorem map_page_translates_witness:
  "get_physical_address 0x201FFF (snd (map_page 0x201234 0x7000 demo_paging)) = 0x7FFF"
proof -
  have "map_page 0x201234 0x7000 demo_paging = (True, snd (map_page 0x201234 0x7000 demo_paging))"
    by (rule pair_of) (use demo_map in simp)
  note t = map_page_translates [OF demo_paging_inv this]
  have "path_of 0x201FFF = path_of 0x201234" "field 12 0x201FFF = field 12 0x201234"
    by (simp_all add: path_of_def field_def)
  with t have "get_physical_address 0x201FFF (snd (map_page 0x201234 0x7000 demo_paging)) =
      0x7000 AND page_mask OR (0x201FFF AND 0xFFF)" by blast
  then show ?thesis by (simp add: page_mask_def)
qed

text \<open>
  C26: a call of \<^verbatim>\<open>map_page\<close> that fails changes the translation of no page that was mapped;
  intermediate tables it had already linked stay linked and empty.
\<close>

theorem map_page_failure_safe:
  assumes "paging_inv s" and "map_page v p s = (False, s')"
  shows "paging_inv s' \<and> (\<forall>w. page_entry (pmem s') (root_of s) w = page_entry (pmem s) (root_of s) w)"
  using map_page_ok [OF assms] by simp

definition demo_full :: paging_state where
  "demo_full = demo_paging\<lparr>falloc := demo_frames\<lparr>frame_alloc_ready := False\<rparr>\<rparr>"

theorem map_page_failure_safe_witness:
  "page_entry (pmem (snd (map_page 0 0x7000 demo_full))) (root_of demo_full) 0 = page_entry (\<lambda>_. 0) 20480 0"
proof -
  have "fst (map_page 0 0x7000 demo_full) = False" by code_simp
  note m = pair_of [OF this]
  have "ready_frames (demo_frames\<lparr>frame_alloc_ready := False\<rparr>) = ready_frames demo_frames"
    "free_frames (demo_frames\<lparr>frame_alloc_ready := False\<rparr>) = free_frames demo_frames"
    by (simp_all add: ready_frames_def free_frames_def is_free_def split: pool_allocation_status.split)
  then have "avail_frames (demo_frames\<lparr>frame_alloc_ready := False\<rparr>) = avail_frames demo_frames"
    "frame_inv (demo_frames\<lparr>frame_alloc_ready := False\<rparr>)"
    using demo_frames_avail(1) by (simp_all add: avail_frames_def frame_inv_def pool_ok_def)
  then have "paging_inv demo_full" using demo_paging_inv
    by (simp add: paging_inv_def demo_full_def demo_paging_def root_of_def)
  moreover have "root_of demo_full = 20480" "pmem demo_full = (\<lambda>_. 0)"
    by (simp_all add: root_of_def demo_full_def demo_paging_def page_mask_def)
  ultimately show ?thesis using map_page_failure_safe [OF _ m] by simp
qed

text \<open>
  \<^verbatim>\<open>get_physical_address\<close> does not check the entry of the last level.  For a page that
  is not mapped but shares its last table with one that was just mapped, it returns the
  offset within the page, not \<^verbatim>\<open>TRANSLATION_UNKNOWN\<close>.
\<close>

theorem unmapped_neighbour_translates:
  assumes "paging_inv s" and "map_page v p s = (True, s')"
    and "path_of w = path_of v" and "field 12 w \<noteq> field 12 v"
    and "page_entry (pmem s) (root_of s) w = 0"
  shows "get_physical_address w s' = w AND 0xFFF"
proof -
  note ok = map_page_ok [OF assms(1,2)]
  then obtain pt where pt: "table_at (pmem s') (root_of s') (path_of w) = Some pt"
    using assms(3) by auto
  moreover have "page_entry (pmem s') (root_of s') w = 0" using ok assms(4,5) by simp
  ultimately show ?thesis by (simp add: get_physical_address_table page_entry_def)
qed

theorem unmapped_neighbour_translates_witness:
  "get_physical_address 0x202ABC (snd (map_page 0x201234 0x7000 demo_paging)) = 0xABC"
proof -
  have "map_page 0x201234 0x7000 demo_paging = (True, snd (map_page 0x201234 0x7000 demo_paging))"
    by (rule pair_of) (use demo_map in simp)
  moreover have "path_of 0x202ABC = path_of 0x201234" "field 12 0x202ABC \<noteq> field 12 0x201234"
    by (simp_all add: path_of_def field_def)
  moreover have "page_entry (pmem demo_paging) (root_of demo_paging) 0x202ABC = 0"
    by (simp add: page_entry_def demo_paging_def split: option.split)
  ultimately have "get_physical_address 0x202ABC (snd (map_page 0x201234 0x7000 demo_paging)) =
      0x202ABC AND 0xFFF"
    by (rule unmapped_neighbour_translates [OF demo_paging_inv])
  then show ?thesis by simp
qed

text \<open>
  \<^verbatim>\<open>map_page\<close> does not clear the frame it uses for a new last-level table.  Whatever the
  frame held before becomes the entry of every other page of the same 2 MiB region.
\<close>

theorem map_page_stale_entries:
  assumes "load64 (pmem s) (slot (root_of s) (field 39 v)) = ea" "ea \<noteq> 0" "ea AND page_mask = pdpt"
    and "load64 (pmem s) (slot pdpt (field 30 v)) = eb" "eb \<noteq> 0" "eb AND page_mask = pd"
    and "load64 (pmem s) (slot pd (field 21 v)) = 0"
    and "kalloc_frame (falloc s) = (f, fa)" "f \<noteq> null" "page_aligned f"
    and "distinct [root_of s, pdpt, pd, f]"
    and "map_page v p s = (ok, s')" and "path_of w = path_of v" "field 12 w \<noteq> field 12 v"
  shows "ok \<and> page_entry (pmem s') (root_of s) w = load64 (pmem s) (slot f (field 12 w))"
proof -
  let ?m1 = "store64 (pmem s) (slot pd (field 21 v)) (f OR PAGE_FLAGS)"
  let ?m2 = "store64 ?m1 (slot f (field 12 v)) (p OR PAGE_FLAGS)"
  have al: "page_aligned (root_of s)" "page_aligned pdpt" "page_aligned pd" "page_aligned f"
    using assms(3,6,10) by (auto simp: root_of_def)
  have s': "ok" "pmem s' = ?m2"
  proof -
    have "next_table (root_of s) (field 39 v) s = (Some pdpt, s)"
      by (simp add: next_table_def assms(1-3))
    moreover have "next_table pdpt (field 30 v) s = (Some pd, s)"
      by (simp add: next_table_def assms(4-6))
    moreover have "next_table pd (field 21 v) s = (Some f, s\<lparr>falloc := fa, pmem := ?m1\<rparr>)"
      by (simp add: next_table_def assms(7-9))
    ultimately have "map_page v p s = (True, (flush_tlb_entry v (s\<lparr>falloc := fa, pmem := ?m1\<rparr>))\<lparr>pmem := ?m2\<rparr>)"
      by (simp add: map_page_def flush_tlb_entry_def root_of_def [symmetric])
    with assms(12) show "ok" "pmem s' = ?m2" by auto
  qed
  have ld1: "load64 ?m1 (slot t i) = (if pd = t \<and> field 21 v = i then f OR PAGE_FLAGS else load64 (pmem s) (slot t i))"
    if "page_aligned t" "i < 512" for t i
    by (rule bytes.ld_st_slot [OF al(3) field_less that])
  have ld2: "load64 ?m2 (slot t i) = (if f = t \<and> field 12 v = i then p OR PAGE_FLAGS else load64 ?m1 (slot t i))"
    if "page_aligned t" "i < 512" for t i
    by (rule bytes.ld_st_slot [OF al(4) field_less that])
  have d: "f \<noteq> root_of s" "f \<noteq> pdpt" "f \<noteq> pd" "pd \<noteq> root_of s" "pd \<noteq> pdpt"
    using assms(11) by auto
  have l0: "load64 ?m2 (slot (root_of s) (field 39 v)) = ea"
    unfolding ld2 [OF al(1) field_less] ld1 [OF al(1) field_less] using d assms(1) by simp
  have l1: "load64 ?m2 (slot pdpt (field 30 v)) = eb"
    unfolding ld2 [OF al(2) field_less] ld1 [OF al(2) field_less] using d assms(4) by simp
  have l2: "load64 ?m2 (slot pd (field 21 v)) = f OR PAGE_FLAGS"
    unfolding ld2 [OF al(3) field_less] ld1 [OF al(3) field_less] using d by simp
  have t: "table_at ?m2 (root_of s) (path_of w) = Some f"
    unfolding assms(13) path_of_def [of v]
    by (simp only: table_at.simps l0 l1 l2 assms(2,3,5,6) entry_nonzero entry_of_table [OF al(4)] if_False)
  have "load64 ?m2 (slot f (field 12 w)) = load64 (pmem s) (slot f (field 12 w))"
    unfolding ld2 [OF al(4) field_less] ld1 [OF al(4) field_less] using d assms(14) by simp
  with t s' show ?thesis by (simp only: page_entry_def option.case)
qed


definition demo_stale_mem :: memory where
  "demo_stale_mem = store64 (store64 (store64 (\<lambda>_. 0) (slot 20480 0) 0x6013) (slot 0x6000 0) 0x7013)
     (slot 0x4000 2) 0x9013"

theorem map_page_stale_entries_witness:
  "page_entry (pmem (snd (map_page 0x1000 0x8000 (demo_paging\<lparr>pmem := demo_stale_mem\<rparr>)))) 20480 0x2000 = 0x9013"
proof -
  let ?s = "demo_paging\<lparr>pmem := demo_stale_mem\<rparr>"
  have r: "root_of ?s = 20480" "pmem ?s = demo_stale_mem" "falloc ?s = demo_frames"
    by (simp_all add: root_of_def demo_paging_def page_mask_def)
  have f: "field 39 0x1000 = 0" "field 30 0x1000 = 0" "field 21 0x1000 = 0"
    "field 12 0x2000 \<noteq> field 12 0x1000" "path_of 0x2000 = path_of 0x1000" "field 12 0x2000 = 2"
    by (simp_all add: field_def path_of_def)
  have l: "load64 demo_stale_mem (slot 20480 0) = 0x6013" "load64 demo_stale_mem (slot 0x6000 0) = 0x7013"
    "load64 demo_stale_mem (slot 0x7000 0) = 0" "load64 demo_stale_mem (slot 0x4000 2) = 0x9013"
    by code_simp+
  have "fst (kalloc_frame demo_frames) = 0x4000" by code_simp
  note k = pair_of [OF this]
  have m: "map_page 0x1000 0x8000 ?s = (fst (map_page 0x1000 0x8000 ?s), snd (map_page 0x1000 0x8000 ?s))"
    by simp
  have "page_entry (pmem (snd (map_page 0x1000 0x8000 ?s))) (root_of ?s) 0x2000 =
      load64 (pmem ?s) (slot 0x4000 (field 12 0x2000))"
    by (rule map_page_stale_entries [where v = "0x1000" and ea = "0x6013" and pdpt = "0x6000"
          and eb = "0x7013" and pd = "0x7000" and f = "0x4000" and p = "0x8000" and s = ?s
          and fa = "snd (kalloc_frame demo_frames)", OF _ _ _ _ _ _ _ _ _ _ _ m, THEN conjunct2])
      (use r f l k in \<open>simp_all add: page_mask_def page_aligned_def\<close>)
  then show ?thesis using r f l by simp
qed

end
