(* ===== verification/Memory_Manager.thy ===== *)
theory Memory_Manager
  imports Memory_Map Paging_Props
begin

text \<open>
  The page allocator of \<^verbatim>\<open>mm/memory_manager.c\<close>: \<^verbatim>\<open>kalloc_page\<close>, \<^verbatim>\<open>kfree_page\<close>,
  \<^verbatim>\<open>find_available_virtual_memory\<close> and \<^verbatim>\<open>kmap_page\<close>, and \<^verbatim>\<open>create_obj_pool\<close> of
  \<^verbatim>\<open>mm/obj_alloc.c\<close>, which calls it.  \<open>mm_state\<close> adds the memory map and the globals of the
  file to the state of the page tables and of the frame allocator; \<open>mmap\<close> is the memory of
  the pool \<^verbatim>\<open>mmap_pool_id\<close>.  A pointer to a descriptor is an index of \<open>mmap\<close>.
\<close>

record mm_state = paging_state +
  pools :: pool_table
  mmap :: "leokernel_memory_descriptor_t list"
  mmap_size :: u64
  mmap_last_ind :: u64
  mmap_pool_id :: pool_t
  mman_ready :: bool

definition ALLOC_MAX_PAGES :: u32 where [c_macros]: "ALLOC_MAX_PAGES = 0x8000000"

text \<open>\<^verbatim>\<open>n * PAGE_SIZE\<close> for a \<^verbatim>\<open>uint32_t\<close> is a 32-bit product, widened afterwards.\<close>

definition page_bytes :: "u32 \<Rightarrow> u64" where
  "page_bytes n = ucast (n * 4096)"

section \<open>Access to the map through its object pool\<close>

definition mmap_get :: "u64 \<Rightarrow> 'z mm_state_scheme \<Rightarrow> (bool \<times> nat option \<times> 'z mm_state_scheme) option" where
  "mmap_get i s = do {
     (ok, p, t) \<leftarrow> obj_pool_get (mmap_pool_id s) (ucast i) (pools s);
     Some (ok, p, s\<lparr>pools := t\<rparr>) }"

definition mmap_put ::
  "leokernel_memory_descriptor_t \<Rightarrow> u64 \<Rightarrow> 'z mm_state_scheme \<Rightarrow> (bool \<times> 'z mm_state_scheme) option" where
  "mmap_put d i s = do {
     (ok, t, xs) \<leftarrow> obj_pool_put zero_descriptor (mmap_pool_id s) d (ucast i) (pools s) (mmap s);
     Some (ok, s\<lparr>pools := t, mmap := xs\<rparr>) }"

text \<open>\<^verbatim>\<open>obj_pool_get(mmap_pool_id, &first_entry, 0); order_map(first_entry, mmap_last_ind)\<close>\<close>

definition order_mmap :: "'z mm_state_scheme \<Rightarrow> 'z mm_state_scheme option" where
  "order_mmap s = do {
     (ok, p, s) \<leftarrow> mmap_get 0 s;
     first \<leftarrow> p;
     ys \<leftarrow> order_map (drop first (mmap s)) (mmap_last_ind s);
     Some (s\<lparr>mmap := take first (mmap s) @ ys\<rparr>) }"

definition compress_mmap :: "'z mm_state_scheme \<Rightarrow> 'z mm_state_scheme option" where
  "compress_mmap s = do {
     (ok, p, s) \<leftarrow> mmap_get 0 s;
     first \<leftarrow> p;
     (ys, last_ind) \<leftarrow> compress_map (drop first (mmap s)) (mmap_last_ind s) (mmap_last_ind s);
     Some (s\<lparr>mmap := take first (mmap s) @ ys, mmap_last_ind := last_ind\<rparr>) }"

section \<open>Allocation\<close>

text \<open>The search of \<^verbatim>\<open>find_available_virtual_memory\<close> from index \<open>i\<close>, over at most \<open>k\<close> descriptors.\<close>

fun find_available_from ::
  "nat \<Rightarrow> nat \<Rightarrow> u32 \<Rightarrow> 'z mm_state_scheme \<Rightarrow> (nat option \<times> 'z mm_state_scheme) option" where
  "find_available_from i 0 num_pages s = Some (None, s)"
| "find_available_from i (Suc k) num_pages s = do {
     (ok, p, s) \<leftarrow> mmap_get (of_nat i) s;
     if \<not> ok then Some (None, s)
     else do {
       e \<leftarrow> p;
       entry \<leftarrow> obj_load e (mmap s);
       if \<not> descr_valid entry then Some (None, s)
       else if num_pages \<le> pages entry \<and> DESCRIPTOR_AVAILABLE (md_flags entry) \<and> md_type entry = usable
       then Some (Some e, s)
       else find_available_from (Suc i) k num_pages s } }"

definition find_available_virtual_memory ::
  "u32 \<Rightarrow> 'z mm_state_scheme \<Rightarrow> (nat option \<times> 'z mm_state_scheme) option" where
  "find_available_virtual_memory num_pages s = find_available_from 0 (unat (mmap_size s)) num_pages s"

definition free_frames_of :: "nat \<Rightarrow> u64 list \<Rightarrow> bool \<Rightarrow> 'z mm_state_scheme \<Rightarrow> 'z mm_state_scheme" where
  "free_frames_of n frames ok s =
     (if ok then s else s\<lparr>falloc := snd (kfree_frames_array n frames (falloc s))\<rparr>)"

text \<open>
  One pass of the \<^verbatim>\<open>while\<close> loop of \<^verbatim>\<open>kalloc_page\<close>; \<open>d\<close> is the index of \<^verbatim>\<open>entry\<close> and
  \<open>base\<close> the address being allocated.
\<close>

definition kalloc_page_step ::
  "nat \<Rightarrow> u64 list \<Rightarrow> nat \<Rightarrow> u64 \<Rightarrow> nat \<Rightarrow> leokernel_memory_descriptor_t \<Rightarrow> 'z mm_state_scheme \<Rightarrow>
   (leokernel_memory_descriptor_t \<times> 'z mm_state_scheme) option" where
  "kalloc_page_step d frames n base m new_entry s = do {
     (new_entry, s) \<leftarrow>
       (if 0 < m \<and> frames ! (m - 1) + PAGE_SIZE \<noteq> frames ! m
        then do {
          let new_entry = new_entry\<lparr>md_flags := md_flags new_entry OR LEOKERNEL_MEMORY_MAP_HAS_NEXT\<rparr>;
          (ok, s) \<leftarrow> mmap_put new_entry (mmap_last_ind s) s;
          let s = free_frames_of n frames ok s;
          let s = s\<lparr>mmap_last_ind := mmap_last_ind s + 1\<rparr>;
          Some (init_descriptor (virtual_address new_entry + page_bytes (of_nat m)) (frames ! m) 0
                  LEOKERNEL_MEMORY_MAP_VALID kernel_reserved, s) }
        else Some (new_entry, s));
     let (ok, s) = map_page (base + page_bytes (of_nat m)) (frames ! m) s;
     let s = free_frames_of n frames ok s;
     let new_entry = new_entry\<lparr>pages := pages new_entry + 1\<rparr>;
     entry \<leftarrow> obj_load d (mmap s);
     let s = s\<lparr>mmap := (mmap s)[d := entry\<lparr>virtual_address := virtual_address entry + PAGE_SIZE,
                                         pages := pages entry - 1\<rparr>]\<rparr>;
     if m + 1 = n
     then do {
       (ok, s) \<leftarrow> mmap_put new_entry (mmap_last_ind s) s;
       let s = free_frames_of n frames ok s;
       Some (new_entry, s\<lparr>mmap_last_ind := mmap_last_ind s + 1\<rparr>) }
     else Some (new_entry, s) }"

fun kalloc_page_loop ::
  "nat \<Rightarrow> u64 list \<Rightarrow> nat \<Rightarrow> u64 \<Rightarrow> nat \<Rightarrow> nat \<Rightarrow> leokernel_memory_descriptor_t \<Rightarrow> 'z mm_state_scheme \<Rightarrow>
   'z mm_state_scheme option" where
  "kalloc_page_loop d frames n base m 0 new_entry s = Some s"
| "kalloc_page_loop d frames n base m (Suc k) new_entry s = do {
     (new_entry, s) \<leftarrow> kalloc_page_step d frames n base m new_entry s;
     kalloc_page_loop d frames n base (Suc m) k new_entry s }"

text \<open>Deletion of the descriptor the pages were taken from, once it is used up.\<close>

definition drop_empty_entry :: "nat \<Rightarrow> 'z mm_state_scheme \<Rightarrow> 'z mm_state_scheme option" where
  "drop_empty_entry d s = do {
     entry \<leftarrow> obj_load d (mmap s);
     if pages entry = 0
     then do {
       xs \<leftarrow> (if of_nat d = mmap_size s - 1 then obj_clear zero_descriptor d 1 (mmap s)
             else obj_move zero_descriptor d (d + 1) (unat (mmap_last_ind s - of_nat d - 1)) (mmap s));
       Some (s\<lparr>mmap := xs, mmap_last_ind := mmap_last_ind s - 1\<rparr>) }
     else Some s }"

definition kalloc_page :: "u32 \<Rightarrow> 'z mm_state_scheme \<Rightarrow> (u64 \<times> 'z mm_state_scheme) option" where
  "kalloc_page n s =
     (if n = 0 \<or> ALLOC_MAX_PAGES < n then Some (null, s)
      else do {
        (found, s) \<leftarrow> find_available_virtual_memory n s;
        case found of None \<Rightarrow> Some (null, s)
        | Some d \<Rightarrow>
            let (ok, frames, fa) = kalloc_frames_array n (replicate (unat n) 0) (falloc s);
                s = s\<lparr>falloc := fa\<rparr>
            in if \<not> ok then Some (null, s)
               else do {
                 entry \<leftarrow> obj_load d (mmap s);
                 let new_entry = init_descriptor (virtual_address entry) (frames ! 0) 0
                                   LEOKERNEL_MEMORY_MAP_VALID kernel_reserved;
                 let base_address = virtual_address new_entry;
                 s \<leftarrow> kalloc_page_loop d frames (unat n) base_address 0 (unat n) new_entry s;
                 s \<leftarrow> drop_empty_entry d s;
                 s \<leftarrow> order_mmap s;
                 Some (base_address, s) } })"

section \<open>Release\<close>

text \<open>The search of \<^verbatim>\<open>kfree_page\<close>: \<open>Inl b\<close> returns \<open>b\<close> at once, \<open>Inr e\<close> found descriptor \<open>e\<close>.\<close>

fun find_base_from ::
  "nat \<Rightarrow> nat \<Rightarrow> u64 \<Rightarrow> 'z mm_state_scheme \<Rightarrow> ((bool + nat) \<times> 'z mm_state_scheme) option" where
  "find_base_from i 0 base s = Some (Inl False, s)"
| "find_base_from i (Suc k) base s = do {
     (ok, p, s) \<leftarrow> mmap_get (of_nat i) s;
     if \<not> ok then Some (Inl False, s)
     else do {
       e \<leftarrow> p;
       entry \<leftarrow> obj_load e (mmap s);
       if \<not> descr_valid entry then Some (Inl False, s)
       else if virtual_address entry = base then Some (Inr e, s)
       else find_base_from (Suc i) k base s } }"

definition free_run :: "leokernel_memory_descriptor_t \<Rightarrow> frame_state \<Rightarrow> frame_state" where
  "free_run d fa = for_loop (unat (pages d))
     (\<lambda>i fa. snd (kfree_frame (physical_address d + page_bytes (of_nat i)) fa)) fa"

definition freed_descriptor :: "leokernel_memory_descriptor_t \<Rightarrow> leokernel_memory_descriptor_t" where
  "freed_descriptor d = init_descriptor (virtual_address d) null (pages d)
     (LEOKERNEL_MEMORY_MAP_AVAIL OR LEOKERNEL_MEMORY_MAP_VALID OR LEOKERNEL_MEMORY_MAP_TRANS_UNK) usable"

text \<open>The \<^verbatim>\<open>while\<close> loop over the descriptors of one allocation; \<open>e\<close> is the index of \<^verbatim>\<open>next\<close>.\<close>

function kfree_page_loop :: "nat \<Rightarrow> 'z mm_state_scheme \<Rightarrow> 'z mm_state_scheme option" where
  "kfree_page_loop e s =
     (if length (mmap s) \<le> e then None
      else let tmp = mmap s ! e
           in if \<not> descr_valid tmp then Some s
              else let s' = s\<lparr>falloc := free_run tmp (falloc s), mmap := (mmap s)[e := freed_descriptor tmp]\<rparr>
                   in if DESCRIPTOR_HAS_NEXT (md_flags tmp) then kfree_page_loop (Suc e) s' else Some s')"
  by pat_completeness auto
termination by (relation "measure (\<lambda>(e, s). length (mmap s) - e)") auto

declare kfree_page_loop.simps [simp del]

definition kfree_page :: "u64 \<Rightarrow> 'z mm_state_scheme \<Rightarrow> (bool \<times> 'z mm_state_scheme) option" where
  "kfree_page base s =
     (if base = null \<or> memory_length (falloc s) \<le> base then Some (False, s)
      else do {
        (r, s) \<leftarrow> find_base_from 0 (unat (mmap_size s)) base s;
        case r of Inl b \<Rightarrow> Some (b, s)
        | Inr e \<Rightarrow> do {
            s \<leftarrow> kfree_page_loop e s;
            s \<leftarrow> compress_mmap s;
            Some (True, s) } })"

section \<open>Mapping a given frame\<close>

text \<open>The search of \<^verbatim>\<open>kmap_page\<close>: \<open>Inl ()\<close> fails, \<open>Inr None\<close> found no descriptor.\<close>

fun find_page_from ::
  "nat \<Rightarrow> nat \<Rightarrow> u64 \<Rightarrow> 'z mm_state_scheme \<Rightarrow> ((unit + nat option) \<times> 'z mm_state_scheme) option" where
  "find_page_from i 0 page s = Some (Inr None, s)"
| "find_page_from i (Suc k) page s = do {
     (ok, p, s) \<leftarrow> mmap_get (of_nat i) s;
     if \<not> ok then Some (Inl (), s)
     else do {
       e \<leftarrow> p;
       entry \<leftarrow> obj_load e (mmap s);
       if \<not> descr_valid entry then Some (Inl (), s)
       else if virtual_address entry \<le> page \<and> page < virtual_address entry + page_bytes (pages entry) \<and>
         1 \<le> pages entry then Some (Inr (Some e), s)
       else find_page_from (Suc i) k page s } }"

text \<open>\<open>mmap_put\<close> at the end of the map, with \<^verbatim>\<open>mmap_last_ind++\<close> if it succeeds.\<close>

definition mmap_push ::
  "leokernel_memory_descriptor_t \<Rightarrow> 'z mm_state_scheme \<Rightarrow> (bool \<times> 'z mm_state_scheme) option" where
  "mmap_push d s = do {
     (ok, s) \<leftarrow> mmap_put d (mmap_last_ind s) s;
     Some (ok, if ok then s\<lparr>mmap_last_ind := mmap_last_ind s + 1\<rparr> else s) }"

definition split_entry :: "nat \<Rightarrow> u64 \<Rightarrow> u64 \<Rightarrow> 'z mm_state_scheme \<Rightarrow> (bool \<times> 'z mm_state_scheme) option" where
  "split_entry e page_address frame_address s = do {
     r \<leftarrow> obj_load e (mmap s);
     if pages r = 1
     then Some (True, s\<lparr>mmap := (mmap s)[e := r\<lparr>physical_address := frame_address,
            md_flags := LEOKERNEL_MEMORY_MAP_VALID, md_type := kernel_reserved\<rparr>]\<rparr>)
     else do {
       let pages_before = ucast ((page_address - virtual_address r) div PAGE_SIZE);
       let pages_after = ucast (((virtual_address r + page_bytes (pages r - 1)) - page_address) div PAGE_SIZE);
       let before = init_descriptor (virtual_address r) null pages_before (md_flags r) (md_type r);
       let after = init_descriptor (page_address + PAGE_SIZE) null pages_after (md_flags r) (md_type r);
       (ok, s) \<leftarrow> (if virtual_address r < page_address then mmap_push before s else Some (True, s));
       if \<not> ok then Some (False, s)
       else do {
         r \<leftarrow> obj_load e (mmap s);
         if page_address < virtual_address r + page_bytes (pages r) then mmap_push after s
         else Some (True, s) } } }"

definition kmap_page :: "u64 \<Rightarrow> u64 \<Rightarrow> 'z mm_state_scheme \<Rightarrow> (bool \<times> 'z mm_state_scheme) option" where
  "kmap_page virtual physical s = do {
     let page_address = virtual AND 0xFFFFFFFFFFFFF000;
     let frame_address = physical AND 0xFFFFFFFFFFFFF000;
     let new_entry = init_descriptor page_address frame_address 1 LEOKERNEL_MEMORY_MAP_VALID kernel_reserved;
     (r, s) \<leftarrow> find_page_from 0 (unat (mmap_size s)) page_address s;
     case r of Inl _ \<Rightarrow> Some (False, s)
     | Inr ref \<Rightarrow> do {
         (ok, s) \<leftarrow> (case ref of None \<Rightarrow> Some (True, s) | Some e \<Rightarrow> split_entry e page_address frame_address s);
         if \<not> ok then Some (False, s)
         else do {
           (ok, s) \<leftarrow> mmap_push new_entry s;
           if \<not> ok then Some (False, s)
           else do {
             s \<leftarrow> order_mmap s;
             Some (map_page page_address frame_address s) } } } }"

section \<open>Creation of object pools\<close>

text \<open>
  In C, \<^verbatim>\<open>total_size / PAGE_SIZE + total_size % PAGE_SIZE != 0 ? 1 : 0\<close> is
  \<^verbatim>\<open>(total_size / PAGE_SIZE + total_size % PAGE_SIZE != 0) ? 1 : 0\<close>.
\<close>

definition pool_pages :: "u64 \<Rightarrow> u64" where
  "pool_pages total_size = (if total_size div PAGE_SIZE + total_size mod PAGE_SIZE \<noteq> 0 then 1 else 0)"

text \<open>
  The memory of the new pool is the cleared pages: the objects \<open>z\<close> that fit in them.  The
  result is the id of the pool and its memory, \<open>None\<close> where the C function returns false.
\<close>

definition create_obj_pool ::
  "'a \<Rightarrow> u32 \<Rightarrow> u32 \<Rightarrow> object_pool_type \<Rightarrow> 'z mm_state_scheme \<Rightarrow>
   ((pool_t \<times> 'a list) option \<times> 'z mm_state_scheme) option" where
  "create_obj_pool z osize psize ty s =
     (if obj_pools_index (pools s) = OBJECT_POOL_MAX_POOLS then Some (None, s)
      else do {
        let total_size = ucast (osize * psize);
        let pgs = pool_pages total_size;
        (base, s) \<leftarrow> kalloc_page (ucast pgs) s;
        if base = null then Some (None, s)
        else do {
          let i = obj_pools_index (pools s);
          let entry = \<lparr>pool_base = base, obj_size = osize, pool_size = psize, pool_id = ucast i,
                       top_index = 0, bottom_index = 0, pool_type = ty\<rparr>;
          ps \<leftarrow> obj_store (unat i) entry (obj_pools (pools s));
          Some (Some (ucast i, replicate (unat (pgs * PAGE_SIZE) div unat osize) z),
                s\<lparr>pools := \<lparr>obj_pools = ps, obj_pools_index = i + 1\<rparr>\<rparr>) } })"

end
