(* ===== verification/Kmalloc.thy ===== *)
theory Kmalloc
  imports Memory_Manager
begin

text \<open>
  The kernel heap of \<^verbatim>\<open>mm/kmalloc.c\<close> and \<^verbatim>\<open>init_mm\<close> of \<^verbatim>\<open>mm/memory_manager.c\<close>, which
  sets up the whole memory management.  The descriptors of the heap live in an object
  pool; \<open>kheap_map\<close> is its memory and a pointer to a descriptor an index of it.  The bytes
  of the heap are \<open>vmem\<close>, the virtual memory of the kernel.
\<close>

record kheap_descriptor_t =
  kd_base :: u64
  kd_size :: u64
  kd_flags :: u8

record kheap_state = mm_state +
  kheap :: u64
  kheap_final_size :: u64
  kheap_ready :: bool
  kheap_map_pool_id :: pool_t
  kheap_map_pool_ind :: u32
  kheap_ops :: u8
  kheap_map :: "kheap_descriptor_t list"
  vmem :: memory

definition KHEAP_MAX_DESCRIPTORS :: u32 where [c_macros]: "KHEAP_MAX_DESCRIPTORS = 128"
definition KHEAP_PREFERRED_SIZE_IN_PAGES :: u32 where [c_macros]: "KHEAP_PREFERRED_SIZE_IN_PAGES = 256"
definition KHEAP_FALLBACK_SIZE_IN_PAGES :: u32 where [c_macros]: "KHEAP_FALLBACK_SIZE_IN_PAGES = 128"
definition KHEAP_MIN_SIZE_IN_PAGES :: u32 where [c_macros]: "KHEAP_MIN_SIZE_IN_PAGES = 64"
definition KHEAP_DESCR_FLAG_NULL :: u8 where [c_macros]: "KHEAP_DESCR_FLAG_NULL = 0"
definition KHEAP_DESCR_FLAGS_FREE :: u8 where [c_macros]: "KHEAP_DESCR_FLAGS_FREE = push_bit 0 1"
definition KHEAP_NUM_OPS_BEFORE_COMPRESSION :: u8 where [c_macros]: "KHEAP_NUM_OPS_BEFORE_COMPRESSION = 32"

definition KHEAP_DESCR_IS_FREE :: "u8 \<Rightarrow> bool" where [c_macros]:
  "KHEAP_DESCR_IS_FREE fl \<longleftrightarrow> fl AND 1 \<noteq> 0"

definition zero_kdescr :: kheap_descriptor_t where
  "zero_kdescr = \<lparr>kd_base = 0, kd_size = 0, kd_flags = 0\<rparr>"

definition kheap_init_descriptor :: "u64 \<Rightarrow> u64 \<Rightarrow> u8 \<Rightarrow> kheap_descriptor_t" where
  "kheap_init_descriptor base sz fl = \<lparr>kd_base = base, kd_size = sz, kd_flags = fl\<rparr>"

definition kheap_bytes :: "'z kheap_state_scheme \<Rightarrow> u64" where
  "kheap_bytes s = kheap_final_size s * PAGE_SIZE"

section \<open>Access to the descriptors\<close>

definition kheap_get :: "u32 \<Rightarrow> 'z kheap_state_scheme \<Rightarrow> (bool \<times> nat option \<times> 'z kheap_state_scheme) option" where
  "kheap_get i s = do {
     (ok, p, t) \<leftarrow> obj_pool_get (kheap_map_pool_id s) i (pools s);
     Some (ok, p, s\<lparr>pools := t\<rparr>) }"

definition kheap_put ::
  "kheap_descriptor_t \<Rightarrow> u32 \<Rightarrow> 'z kheap_state_scheme \<Rightarrow> (bool \<times> 'z kheap_state_scheme) option" where
  "kheap_put d i s = do {
     (ok, t, xs) \<leftarrow> obj_pool_put zero_kdescr (kheap_map_pool_id s) d i (pools s) (kheap_map s);
     Some (ok, s\<lparr>pools := t, kheap_map := xs\<rparr>) }"

definition kheap_pack :: "'z kheap_state_scheme \<Rightarrow> (bool \<times> 'z kheap_state_scheme) option" where
  "kheap_pack s = do {
     (ok, t, xs) \<leftarrow> obj_pool_pack zero_kdescr (kheap_map_pool_id s) (pools s) (kheap_map s);
     Some (ok, s\<lparr>pools := t, kheap_map := xs\<rparr>) }"

section \<open>Compression of the descriptors\<close>

text \<open>
  The inner loop of \<^verbatim>\<open>__kheap_compress_map\<close>.  The result \<open>None\<close> inside is the \<^verbatim>\<open>return\<close>
  after a failed \<^verbatim>\<open>obj_pool_get\<close>.
\<close>

fun kheap_select ::
  "nat \<Rightarrow> nat \<Rightarrow> nat \<Rightarrow> 'z kheap_state_scheme \<Rightarrow> (nat option \<times> 'z kheap_state_scheme) option" where
  "kheap_select sel j 0 s = Some (Some sel, s)"
| "kheap_select sel j (Suc k) s = do {
     (ok, p, s) \<leftarrow> kheap_get (of_nat j) s;
     if \<not> ok then Some (None, s)
     else do {
       c \<leftarrow> p;
       candidate \<leftarrow> obj_load c (kheap_map s);
       selected \<leftarrow> obj_load sel (kheap_map s);
       kheap_select (if kd_base candidate < kd_base selected then c else sel) (Suc j) k s } }"

text \<open>
  The body of the outer loop for index \<open>i\<close>, where \<open>bound\<close> is \<^verbatim>\<open>__kheap_map_pool_ind - 1\<close>:
  \<open>None\<close> inside is the early \<^verbatim>\<open>return\<close>, otherwise the flag says whether a descriptor was
  merged.  After the exchange \<^verbatim>\<open>selected\<close> points to the descriptor that was at \<open>i\<close>.
\<close>

definition kheap_compress_step ::
  "nat \<Rightarrow> nat \<Rightarrow> 'z kheap_state_scheme \<Rightarrow> (bool option \<times> 'z kheap_state_scheme) option" where
  "kheap_compress_step i bound s = do {
     (ok, p, s) \<leftarrow> kheap_get (of_nat i) s;
     if \<not> ok then Some (None, s)
     else do {
       e \<leftarrow> p;
       (r, s) \<leftarrow> kheap_select e (Suc i) (bound - i) s;
       case r of None \<Rightarrow> Some (None, s)
       | Some sel \<Rightarrow> do {
           entry \<leftarrow> obj_load e (kheap_map s);
           selected \<leftarrow> obj_load sel (kheap_map s);
           let xs = (if sel \<noteq> e then (kheap_map s)[e := selected, sel := entry] else kheap_map s);
           let s = s\<lparr>kheap_map := xs\<rparr>;
           if i = 0 then Some (Some False, s)
           else do {
             prev \<leftarrow> obj_load (e - 1) (kheap_map s);
             selected \<leftarrow> obj_load sel (kheap_map s);
             if kd_base prev + kd_size prev = kd_base selected \<and>
               KHEAP_DESCR_IS_FREE (kd_flags selected) \<and> KHEAP_DESCR_IS_FREE (kd_flags prev)
             then do {
               let xs = (kheap_map s)[e - 1 := prev\<lparr>kd_size := kd_size prev + kd_size selected\<rparr>];
               xs \<leftarrow> obj_clear zero_kdescr e 1 xs;
               xs \<leftarrow> obj_move zero_kdescr e (e + 1) (bound - i) xs;
               Some (Some True, s\<lparr>kheap_map := xs\<rparr>) }
             else Some (Some False, s) } } } }"

text \<open>A merge leaves \<open>i\<close> where it is (\<^verbatim>\<open>i--\<close>, then \<^verbatim>\<open>i++\<close>) and shortens the map by one.\<close>

function kheap_compress_from ::
  "nat \<Rightarrow> nat \<Rightarrow> 'z kheap_state_scheme \<Rightarrow> 'z kheap_state_scheme option" where
  "kheap_compress_from i bound s =
     (if i < bound
      then (case kheap_compress_step i bound s of None \<Rightarrow> None
        | Some (None, s) \<Rightarrow> Some s
        | Some (Some False, s) \<Rightarrow> kheap_compress_from (Suc i) bound s
        | Some (Some True, s) \<Rightarrow>
            kheap_compress_from i (bound - 1) (s\<lparr>kheap_map_pool_ind := kheap_map_pool_ind s - 1\<rparr>))
      else Some (s\<lparr>kheap_ops := 0\<rparr>))"
  by pat_completeness auto
termination by (relation "measure (\<lambda>(i, bound, s). bound - i)") auto

declare kheap_compress_from.simps [simp del]

definition kheap_compress_map :: "'z kheap_state_scheme \<Rightarrow> 'z kheap_state_scheme option" where
  "kheap_compress_map s =
     (if kheap_map_pool_ind s < 2 \<or> \<not> kheap_ready s then Some s
      else kheap_compress_from 0 (unat (kheap_map_pool_ind s - 1)) s)"

text \<open>\<^verbatim>\<open>if (++__kheap_ops >= __KHEAP_NUM_OPS_BEFORE_COMPRESSION) {__kheap_compress_map();}\<close>\<close>

definition kheap_count_op :: "'z kheap_state_scheme \<Rightarrow> 'z kheap_state_scheme option" where
  "kheap_count_op s =
     (let s = s\<lparr>kheap_ops := kheap_ops s + 1\<rparr>
      in if KHEAP_NUM_OPS_BEFORE_COMPRESSION \<le> kheap_ops s then kheap_compress_map s else Some s)"

section \<open>Allocation\<close>

text \<open>What \<^verbatim>\<open>kmalloc\<close> does once it has found the descriptor \<open>e\<close>.\<close>

definition kmalloc_take :: "nat \<Rightarrow> u64 \<Rightarrow> 'z kheap_state_scheme \<Rightarrow> (u64 \<times> 'z kheap_state_scheme) option" where
  "kmalloc_take e sz s = do {
     entry \<leftarrow> obj_load e (kheap_map s);
     let new_entry = kheap_init_descriptor (kd_base entry) sz KHEAP_DESCR_FLAG_NULL;
     (ok, s) \<leftarrow> kheap_put new_entry (kheap_map_pool_ind s) s;
     if \<not> ok then Some (null, s)
     else do {
       let s = s\<lparr>kheap_map_pool_ind := kheap_map_pool_ind s + 1\<rparr>;
       entry \<leftarrow> obj_load e (kheap_map s);
       let entry = entry\<lparr>kd_size := kd_size entry - sz, kd_base := kd_base entry + sz\<rparr>;
       let s = s\<lparr>kheap_map := (kheap_map s)[e := entry]\<rparr>;
       (ok, s) \<leftarrow> (if kd_size entry = 0
         then do {
           (ok, s) \<leftarrow> kheap_pack (s\<lparr>kheap_map := (kheap_map s)[e := zero_kdescr]\<rparr>);
           Some (ok, if ok then s\<lparr>kheap_map_pool_ind := kheap_map_pool_ind s - 1\<rparr> else s) }
         else Some (True, s));
       if \<not> ok then Some (null, s)
       else do {
         s \<leftarrow> kheap_count_op s;
         Some (kheap s + kd_base new_entry, s) } } }"

text \<open>The \<^verbatim>\<open>for\<close> loop of \<^verbatim>\<open>kmalloc\<close>: \<open>None\<close> inside when it ends without returning.\<close>

fun kmalloc_scan ::
  "nat \<Rightarrow> nat \<Rightarrow> u64 \<Rightarrow> 'z kheap_state_scheme \<Rightarrow> (u64 option \<times> 'z kheap_state_scheme) option" where
  "kmalloc_scan i 0 sz s = Some (None, s)"
| "kmalloc_scan i (Suc k) sz s = do {
     (ok, p, s) \<leftarrow> kheap_get (of_nat i) s;
     if \<not> ok then Some (Some null, s)
     else do {
       e \<leftarrow> p;
       entry \<leftarrow> obj_load e (kheap_map s);
       if \<not> KHEAP_DESCR_IS_FREE (kd_flags entry) \<or> kd_size entry < sz
       then kmalloc_scan (Suc i) k sz s
       else do {
         (ptr, s) \<leftarrow> kmalloc_take e sz s;
         Some (Some ptr, s) } } }"

definition kmalloc :: "u64 \<Rightarrow> 'z kheap_state_scheme \<Rightarrow> (u64 \<times> 'z kheap_state_scheme) option" where
  "kmalloc sz s =
     (if sz = 0 \<or> kheap_bytes s \<le> sz \<or> \<not> kheap_ready s then Some (null, s)
      else if kheap_map_pool_ind s = KHEAP_MAX_DESCRIPTORS then Some (null, s)
      else do {
        (r, s) \<leftarrow> kmalloc_scan 0 (unat (kheap_map_pool_ind s)) sz s;
        case r of Some ptr \<Rightarrow> Some (ptr, s)
        | None \<Rightarrow> do {
            s \<leftarrow> kheap_compress_map s;
            (r, s) \<leftarrow> kmalloc_scan 0 (unat (kheap_map_pool_ind s)) sz s;
            case r of Some ptr \<Rightarrow> Some (ptr, s) | None \<Rightarrow> Some (null, s) } })"

section \<open>Release and reallocation\<close>

text \<open>\<^verbatim>\<open>base < __kheap + entry->base || base >= __kheap + entry->base + entry->size\<close>\<close>

definition outside_entry :: "u64 \<Rightarrow> kheap_descriptor_t \<Rightarrow> 'z kheap_state_scheme \<Rightarrow> bool" where
  "outside_entry base entry s \<longleftrightarrow>
     base < kheap s + kd_base entry \<or> kheap s + kd_base entry + kd_size entry \<le> base"

fun kfree_scan :: "nat \<Rightarrow> nat \<Rightarrow> u64 \<Rightarrow> 'z kheap_state_scheme \<Rightarrow> 'z kheap_state_scheme option" where
  "kfree_scan i 0 base s = Some s"
| "kfree_scan i (Suc k) base s = do {
     (ok, p, s) \<leftarrow> kheap_get (of_nat i) s;
     if \<not> ok then Some s
     else do {
       e \<leftarrow> p;
       entry \<leftarrow> obj_load e (kheap_map s);
       if outside_entry base entry s then kfree_scan (Suc i) k base s
       else kheap_count_op (s\<lparr>kheap_map := (kheap_map s)[e := entry\<lparr>kd_flags :=
              kd_flags entry OR KHEAP_DESCR_FLAGS_FREE\<rparr>]\<rparr>) } }"

definition kfree :: "u64 \<Rightarrow> 'z kheap_state_scheme \<Rightarrow> 'z kheap_state_scheme option" where
  "kfree base s =
     (if base < kheap s \<or> kheap s + kheap_bytes s \<le> base \<or> \<not> kheap_ready s then Some s
      else kfree_scan 0 (unat (kheap_map_pool_ind s)) base s)"

text \<open>
  \<^verbatim>\<open>krealloc\<close> keeps the bytes in an array on its stack.  \<^verbatim>\<open>memmove\<close> into that array clears
  the buffer they are read from; \<^verbatim>\<open>memmove\<close> out of it clears only the array.
\<close>

definition read_bytes :: "memory \<Rightarrow> u64 \<Rightarrow> nat \<Rightarrow> u8 list" where
  "read_bytes m a n = map (\<lambda>k. m (a + of_nat k)) [0..<n]"

definition write_bytes :: "u64 \<Rightarrow> u8 list \<Rightarrow> memory \<Rightarrow> memory" where
  "write_bytes a bs m = for_loop (length bs) (\<lambda>k m. m(a + of_nat k := bs ! k)) m"

fun krealloc_scan ::
  "nat \<Rightarrow> nat \<Rightarrow> u64 \<Rightarrow> u64 \<Rightarrow> 'z kheap_state_scheme \<Rightarrow> (u64 \<times> 'z kheap_state_scheme) option" where
  "krealloc_scan i 0 base new_size s = Some (null, s)"
| "krealloc_scan i (Suc k) base new_size s = do {
     (ok, p, s) \<leftarrow> kheap_get (of_nat i) s;
     if \<not> ok then Some (null, s)
     else do {
       e \<leftarrow> p;
       entry \<leftarrow> obj_load e (kheap_map s);
       if outside_entry base entry s then krealloc_scan (Suc i) k base new_size s
       else do {
         let old_size = kd_size entry;
         let src = kheap s + kd_base entry;
         let old_data = read_bytes (vmem s) src (unat old_size);
         let s = s\<lparr>vmem := memclear src old_size (vmem s)\<rparr>;
         s \<leftarrow> kfree base s;
         (new_buffer, s) \<leftarrow> kmalloc new_size s;
         if new_buffer = null then Some (null, s)
         else Some (new_buffer, s\<lparr>vmem := write_bytes new_buffer old_data (vmem s)\<rparr>) } } }"

definition krealloc :: "u64 \<Rightarrow> u64 \<Rightarrow> 'z kheap_state_scheme \<Rightarrow> (u64 \<times> 'z kheap_state_scheme) option" where
  "krealloc base new_size s =
     (if base < kheap s \<or> kheap s + kheap_bytes s \<le> base \<or> \<not> kheap_ready s \<or> kheap_bytes s \<le> new_size
      then Some (null, s)
      else krealloc_scan 0 (unat (kheap_map_pool_ind s)) base new_size s)"

section \<open>Initialisation\<close>

text \<open>
  \<^verbatim>\<open>init_kmalloc\<close> ends without a \<^verbatim>\<open>return\<close> when it succeeds: its value is then \<open>None\<close>, an
  undefined \<^verbatim>\<open>bool\<close>.
\<close>

definition init_kmalloc :: "'z kheap_state_scheme \<Rightarrow> (bool option \<times> 'z kheap_state_scheme) option" where
  "init_kmalloc s = do {
     (r, s) \<leftarrow> create_obj_pool zero_kdescr 32 KHEAP_MAX_DESCRIPTORS manual s;
     case r of None \<Rightarrow> Some (Some False, s)
     | Some (pid, xs) \<Rightarrow> do {
         let s = s\<lparr>kheap_map_pool_id := pid, kheap_map := xs\<rparr>;
         (base, n, s) \<leftarrow> do {
           (base, s) \<leftarrow> kalloc_page KHEAP_PREFERRED_SIZE_IN_PAGES s;
           if base \<noteq> null then Some (base, KHEAP_PREFERRED_SIZE_IN_PAGES, s)
           else do {
             (base, s) \<leftarrow> kalloc_page KHEAP_FALLBACK_SIZE_IN_PAGES s;
             if base \<noteq> null then Some (base, KHEAP_FALLBACK_SIZE_IN_PAGES, s)
             else do {
               (base, s) \<leftarrow> kalloc_page KHEAP_MIN_SIZE_IN_PAGES s;
               Some (base, KHEAP_MIN_SIZE_IN_PAGES, s) } } };
         let s = s\<lparr>kheap := base\<rparr>;
         if base = null then Some (Some False, s)
         else do {
           let s = s\<lparr>kheap_final_size := ucast n\<rparr>;
           let d = kheap_init_descriptor null (kheap_final_size s * PAGE_SIZE) KHEAP_DESCR_FLAGS_FREE;
           (ok, s) \<leftarrow> kheap_put d 0 s;
           if \<not> ok then do {
             (_, s) \<leftarrow> kfree_page (kheap s) s;
             Some (Some False, s) }
           else Some (None, s\<lparr>kheap_map_pool_ind := 1, kheap_ops := 0, kheap_ready := True\<rparr>) } } }"

text \<open>
  The parameters the boot loader passes to \<^verbatim>\<open>init_mm\<close>: the memory map (its address and its
  descriptors), its size, the bitmap of free frames.
\<close>

record boot_memory =
  boot_map_address :: u64
  boot_map :: "leokernel_memory_descriptor_t list"
  map_size :: u64
  boot_frame_bitmap :: "u64 \<Rightarrow> u8"

text \<open>The first loop of \<^verbatim>\<open>init_mm\<close>: \<^verbatim>\<open>entry->pages * PAGE_SIZE\<close> is a 32-bit product.\<close>

fun count_memory :: "nat \<Rightarrow> nat \<Rightarrow> leokernel_memory_descriptor_t list \<Rightarrow> u64 \<Rightarrow> u64 \<Rightarrow> (u64 \<times> u64) option" where
  "count_memory i 0 bmap len last_ind = Some (len, last_ind)"
| "count_memory i (Suc k) bmap len last_ind = do {
     entry \<leftarrow> obj_load i bmap;
     if \<not> descr_valid entry then Some (len, last_ind)
     else count_memory (Suc i) k bmap (len + page_bytes (pages entry)) (last_ind + 1) }"

fun transfer_map ::
  "nat \<Rightarrow> nat \<Rightarrow> leokernel_memory_descriptor_t list \<Rightarrow> 'z mm_state_scheme \<Rightarrow> 'z mm_state_scheme option" where
  "transfer_map i 0 bmap s = Some s"
| "transfer_map i (Suc k) bmap s = do {
     entry \<leftarrow> obj_load i bmap;
     (_, s) \<leftarrow> mmap_put entry (of_nat i) s;
     transfer_map (Suc i) k bmap s }"

text \<open>\<open>pool_memory\<close> is the address of the static array \<^verbatim>\<open>mmap_pool_memory\<close>.\<close>

definition init_mm ::
  "u64 \<Rightarrow> boot_memory \<Rightarrow> 'z kheap_state_scheme \<Rightarrow> (bool \<times> 'z kheap_state_scheme) option" where
  "init_mm pool_memory bootp s = do {
     let s = s\<lparr>mmap_size := map_size bootp, mmap_pool_id := 0, mmap_last_ind := 0\<rparr>;
     (len, last_ind) \<leftarrow> count_memory 0 (unat (map_size bootp)) (boot_map bootp) 0 0;
     let s = s\<lparr>falloc := (falloc s)\<lparr>memory_length := len\<rparr>, mmap_last_ind := last_ind\<rparr>;
     let (ok, fa) = init_frame_alloc (boot_frame_bitmap bootp) (falloc s);
     let s = s\<lparr>falloc := fa\<rparr>;
     if \<not> ok then Some (False, s)
     else do {
       let (ok, pid, t, xs) = obj_alloc_init pool_memory zero_descriptor;
       let s = s\<lparr>mmap_pool_id := pid, pools := t, mmap := xs\<rparr>;
       s \<leftarrow> transfer_map 0 (unat (mmap_last_ind s)) (boot_map bootp) s;
       let s = s\<lparr>vmem := memclear (boot_map_address bootp) (map_size bootp * 32) (vmem s)\<rparr>;
       let n = map_size bootp * 32 div PAGE_SIZE;
       if 2 ^ 32 \<le> unat n then None
       else do {
         let s = s\<lparr>falloc := for_loop (unat n)
                   (\<lambda>i fa. snd (kfree_frame (boot_map_address bootp + page_bytes (of_nat i)) fa)) (falloc s)\<rparr>;
         (r, s) \<leftarrow> init_kmalloc s;
         ok \<leftarrow> r;
         if \<not> ok then Some (False, s)
         else Some (True, s\<lparr>mman_ready := True\<rparr>) } } }"

end
