(* ===== verification/Strings.thy ===== *)
theory Strings
  imports Mem_Ops
begin

text \<open>
  The string routines of \<^verbatim>\<open>string.c\<close> and the integer routines of \<^verbatim>\<open>math.c\<close>.  A string is an
  address of byte memory.  A loop that runs until it meets a terminator is a
  \<open>partial_function\<close>: not returning is the value \<open>None\<close>.  The counters of these loops are
  \<^verbatim>\<open>uint32_t\<close> and wrap.  A character is a signed byte where it is compared for order.
\<close>

section \<open>Integer routines of math.c\<close>

definition pow :: "u32 \<Rightarrow> u32 \<Rightarrow> u32" where
  "pow base exp = (if exp = 0 then 1 else for_loop (unat (exp - 1)) (\<lambda>_ ret. ret * base) base)"

definition long_max :: "u64 \<Rightarrow> u64 \<Rightarrow> u64" where "long_max n1 n2 = (if n2 < n1 then n1 else n2)"
definition long_min :: "u64 \<Rightarrow> u64 \<Rightarrow> u64" where "long_min n1 n2 = (if n1 < n2 then n1 else n2)"
definition int_max :: "u32 \<Rightarrow> u32 \<Rightarrow> u32" where "int_max n1 n2 = ucast (long_max (ucast n1) (ucast n2))"
definition int_min :: "u32 \<Rightarrow> u32 \<Rightarrow> u32" where "int_min n1 n2 = ucast (long_min (ucast n1) (ucast n2))"
definition short_max :: "u16 \<Rightarrow> u16 \<Rightarrow> u16" where "short_max n1 n2 = ucast (long_max (ucast n1) (ucast n2))"
definition short_min :: "u16 \<Rightarrow> u16 \<Rightarrow> u16" where "short_min n1 n2 = ucast (long_min (ucast n1) (ucast n2))"
definition char_max :: "u8 \<Rightarrow> u8 \<Rightarrow> u8" where "char_max n1 n2 = ucast (long_max (ucast n1) (ucast n2))"
definition char_min :: "u8 \<Rightarrow> u8 \<Rightarrow> u8" where "char_min n1 n2 = ucast (long_min (ucast n1) (ucast n2))"

text \<open>The generator's state \<^verbatim>\<open>next_rand\<close> is passed explicitly.\<close>

definition rand :: "u32 \<Rightarrow> u32 \<times> u32" where
  "rand next_rand = (let next_rand = next_rand * 1103515245 + 12345
     in ((next_rand div 65536) mod 32768, next_rand))"

definition srand :: "u32 \<Rightarrow> u32 \<Rightarrow> u32" where "srand seed next_rand = seed"

section \<open>string.c\<close>

partial_function (option) strlen_from :: "memory \<Rightarrow> u64 \<Rightarrow> u32 \<Rightarrow> u32 option" where
  "strlen_from m str i = (if m (str + ucast i) \<noteq> 0 then strlen_from m str (i + 1) else Some i)"

definition strlen :: "u64 \<Rightarrow> memory \<Rightarrow> u32 option" where
  "strlen str m = strlen_from m str 0"

text \<open>The bound \<^verbatim>\<open>strlen(src)\<close> is read again, in the memory written so far, by every test.\<close>

partial_function (option) strcat_from :: "memory \<Rightarrow> u64 \<Rightarrow> u64 \<Rightarrow> u32 \<Rightarrow> memory option" where
  "strcat_from m dest src i = do {
     n \<leftarrow> strlen src m;
     if i < n then strcat_from (m(dest + ucast i := m (src + ucast i))) dest src (i + 1)
     else Some m }"

definition strcat :: "u64 \<Rightarrow> u64 \<Rightarrow> memory \<Rightarrow> memory option" where
  "strcat dest src m = do { n \<leftarrow> strlen dest m; strcat_from m (dest + ucast n) src 0 }"

partial_function (option) strcpy_from :: "memory \<Rightarrow> u64 \<Rightarrow> u64 \<Rightarrow> u32 \<Rightarrow> memory option" where
  "strcpy_from m dest src i =
     (if m (src + ucast i) \<noteq> 0
      then strcpy_from (m(dest + ucast i := m (src + ucast i))) dest src (i + 1)
      else Some m)"

definition strcpy :: "u64 \<Rightarrow> u64 \<Rightarrow> memory \<Rightarrow> memory option" where
  "strcpy dest src m = strcpy_from m dest src 0"

definition strncpy :: "u64 \<Rightarrow> u64 \<Rightarrow> u32 \<Rightarrow> memory \<Rightarrow> memory option" where
  "strncpy dest src n m = do {
     src_len \<leftarrow> strlen src m;
     Some (for_loop (unat n)
       (\<lambda>i m. m(dest + of_nat i := (if i < unat src_len then m (src + of_nat i) else 0))) m) }"

text \<open>The result \<^verbatim>\<open>-1\<close> of \<^verbatim>\<open>strcmp\<close> is the largest \<^verbatim>\<open>uint32_t\<close>.\<close>

fun same_from :: "nat \<Rightarrow> nat \<Rightarrow> u64 \<Rightarrow> u64 \<Rightarrow> memory \<Rightarrow> u32" where
  "same_from i 0 str1 str2 m = 0"
| "same_from i (Suc k) str1 str2 m =
     (if m (str1 + of_nat i) \<noteq> m (str2 + of_nat i) then - 1 else same_from (Suc i) k str1 str2 m)"

definition strcmp :: "u64 \<Rightarrow> u64 \<Rightarrow> memory \<Rightarrow> u32 option" where
  "strcmp str1 str2 m = do {
     str1_l \<leftarrow> strlen str1 m;
     str2_l \<leftarrow> strlen str2 m;
     Some (if str1_l \<noteq> str2_l then - 1 else same_from 0 (unat str1_l) str1 str2 m) }"

fun strncmp_from :: "nat \<Rightarrow> nat \<Rightarrow> u64 \<Rightarrow> u64 \<Rightarrow> memory \<Rightarrow> int" where
  "strncmp_from i 0 str1 str2 m = 0"
| "strncmp_from i (Suc k) str1 str2 m =
     (let c1 = sint (m (str1 + of_nat i)); c2 = sint (m (str2 + of_nat i))
      in if c2 < c1 then 1 else if c1 < c2 then - 1 else strncmp_from (Suc i) k str1 str2 m)"

definition strncmp :: "u64 \<Rightarrow> u64 \<Rightarrow> u32 \<Rightarrow> memory \<Rightarrow> int" where
  "strncmp str1 str2 n m = strncmp_from 0 (unat n) str1 str2 m"

text \<open>\<open>buffer\<close> is the address of the local array of \<^verbatim>\<open>strtok\<close>.\<close>

fun strtok_from ::
  "nat \<Rightarrow> nat \<Rightarrow> u64 \<Rightarrow> u64 \<Rightarrow> u64 \<Rightarrow> u32 \<Rightarrow> memory \<Rightarrow> (u64 \<times> memory) option" where
  "strtok_from i 0 buffer str token tok_l m = Some (null, m)"
| "strtok_from i (Suc k) buffer str token tok_l m = do {
     let m = memcpy buffer (str + of_nat i) (ucast tok_l) m;
     r \<leftarrow> strcmp buffer token m;
     if r = 0 then Some (str + of_nat i, m) else strtok_from (Suc i) k buffer str token tok_l m }"

definition strtok :: "u64 \<Rightarrow> u64 \<Rightarrow> u64 \<Rightarrow> memory \<Rightarrow> (u64 \<times> memory) option" where
  "strtok buffer str token m = do {
     tok_l \<leftarrow> strlen token m;
     str_l \<leftarrow> strlen str m;
     let m = m(buffer + ucast tok_l := 0);
     if tok_l = 0 \<or> str_l = 0 then Some (null, m)
     else if str_l < tok_l then Some (null, m)
     else if str_l = tok_l then Some (str, m)
     else strtok_from 0 (unat (str_l - tok_l)) buffer str token tok_l m }"

text \<open>
  The loop of \<^verbatim>\<open>stoi\<close>: \<open>None\<close> is the \<^verbatim>\<open>return 0\<close>.  The product with the unsigned \<^verbatim>\<open>pow\<close>
  makes the sum one of 32-bit words; the character is converted from its signed value.
\<close>

definition is_digit :: "u8 \<Rightarrow> bool" where
  "is_digit c \<longleftrightarrow> 48 \<le> sint c \<and> sint c \<le> 57"

fun stoi_from :: "nat \<Rightarrow> nat \<Rightarrow> u64 \<Rightarrow> u32 \<Rightarrow> memory \<Rightarrow> u32 \<Rightarrow> u32 option" where
  "stoi_from i 0 string len m ret = Some ret"
| "stoi_from i (Suc k) string len m ret =
     (if is_digit (m (string + of_nat i))
      then stoi_from (Suc i) k string len m
        (ret + (scast (m (string + ucast len - 1 - of_nat i)) - 48) * pow 10 (of_nat i))
      else None)"

definition stoi :: "u64 \<Rightarrow> memory \<Rightarrow> (u32 \<times> memory) option" where
  "stoi string m = do {
     len \<leftarrow> strlen string m;
     let neg = (m string = 45);
     let m = (if neg then memmove string (string + 1) (ucast len) m else m);
     let len = (if neg then len - 1 else len);
     Some ((case stoi_from 0 (unat len) string len m 0 of None \<Rightarrow> 0
       | Some ret \<Rightarrow> if neg then ret * - 1 else ret), m) }"

end
