(* ===== verification/Vsnprintf.thy ===== *)
theory Vsnprintf
  imports Strings
begin

text \<open>
  The formatted printing of \<^verbatim>\<open>tty/vsnprintf.c\<close>.  The format, the output buffer and the strings
  of \<^verbatim>\<open>%s\<close> lie in byte memory; the variable arguments are a list of 64-bit registers, and
  taking one from the empty list is undefined.  \<^verbatim>\<open>num_fmt\<close> works in its static array of 100
  bytes: it returns the index of the first character and the array, and \<open>None\<close> when it
  would write below the array.
\<close>

section \<open>Numbers\<close>

definition digits_upper :: "u8 list" where
  "digits_upper = [48, 49, 50, 51, 52, 53, 54, 55, 56, 57, 65, 66, 67, 68, 69, 70]"

definition digits_lower :: "u8 list" where
  "digits_lower = [48, 49, 50, 51, 52, 53, 54, 55, 56, 57, 97, 98, 99, 100, 101, 102]"

text \<open>\<^verbatim>\<open>*--ptr = c\<close>\<close>

definition push_front :: "u8 \<Rightarrow> nat \<times> u8 list \<Rightarrow> (nat \<times> u8 list) option" where
  "push_front c pb = (case pb of (p, b) \<Rightarrow> if p = 0 \<or> length b < p then None else Some (p - 1, b[p - 1 := c]))"

text \<open>The \<^verbatim>\<open>do\<close> loop: it returns the position and the padding that is left.\<close>

partial_function (option) num_fmt_digits ::
  "u64 \<Rightarrow> u32 \<Rightarrow> u32 \<Rightarrow> u8 list \<Rightarrow> int \<Rightarrow> nat \<times> u8 list \<Rightarrow> ((nat \<times> u8 list) \<times> u32) option" where
  "num_fmt_digits i base padding digits len pb = do {
     pb \<leftarrow> (if base = 0 \<or> length digits \<le> unat (i mod ucast base) then None
       else push_front (digits ! unat (i mod ucast base)) pb);
     let padding = (if padding \<noteq> 0 then padding - 1 else padding);
     let len = (if 0 < len then len - 1 else len);
     let i = i div ucast base;
     if i \<noteq> 0 \<and> (len = - 1 \<or> len \<noteq> 0) then num_fmt_digits i base padding digits len pb
     else Some (pb, padding) }"

fun num_fmt_pad :: "nat \<Rightarrow> u8 \<Rightarrow> nat \<times> u8 list \<Rightarrow> (nat \<times> u8 list) option" where
  "num_fmt_pad 0 pad_with pb = Some pb"
| "num_fmt_pad (Suc k) pad_with pb = do { pb \<leftarrow> push_front pad_with pb; num_fmt_pad k pad_with pb }"

definition num_fmt :: "u64 \<Rightarrow> u32 \<Rightarrow> u32 \<Rightarrow> u8 \<Rightarrow> bool \<Rightarrow> int \<Rightarrow> (nat \<times> u8 list) option" where
  "num_fmt i base padding pad_with upper len = do {
     let neg = i <s 0;
     let i = (if neg \<and> base \<noteq> 16 then i * - 1 else i);
     let digits = (if upper then digits_upper else digits_lower);
     (pb, padding) \<leftarrow> num_fmt_digits i base padding digits len (49, replicate 100 0);
     pb \<leftarrow> num_fmt_pad (unat padding) pad_with pb;
     if neg \<and> base \<noteq> 16 then push_front 45 pb else Some pb }"

text \<open>The characters from the result up to the terminator.\<close>

definition num_chars :: "nat \<times> u8 list \<Rightarrow> u8 list" where
  "num_chars pb = takeWhile (\<lambda>c. c \<noteq> 0) (drop (fst pb) (snd pb))"

section \<open>Output\<close>

text \<open>
  The output: the memory, the position and what is left of \<^verbatim>\<open>len\<close>.  When nothing is left
  \<^verbatim>\<open>FMT_PUT\<close> jumps to the end, and so do all the following tests of \<^verbatim>\<open>len\<close>.
\<close>

type_synonym sink = "memory \<times> u64 \<times> u64"

definition fmt_put :: "u8 \<Rightarrow> sink \<Rightarrow> sink" where
  "fmt_put c out = (case out of (m, buf, len) \<Rightarrow> if len = 0 then (m, buf, len) else (m(buf := c), buf + 1, len - 1))"

definition fmt_put_all :: "u8 list \<Rightarrow> sink \<Rightarrow> sink" where
  "fmt_put_all cs out = fold fmt_put cs out"

partial_function (option) fmt_put_string :: "u64 \<Rightarrow> sink \<Rightarrow> sink option" where
  "fmt_put_string s out =
     (if fst out s = 0 \<or> snd (snd out) = 0 then Some out else fmt_put_string (s + 1) (fmt_put (fst out s) out))"

section \<open>The format\<close>

partial_function (option) read_padding :: "memory \<Rightarrow> u64 \<Rightarrow> u32 \<Rightarrow> (u32 \<times> u64) option" where
  "read_padding m fmt padding =
     (if is_digit (m fmt) then read_padding m (fmt + 1) (padding * 10 + (scast (m fmt) - 48))
      else Some (padding, fmt))"

partial_function (option) read_wide :: "memory \<Rightarrow> u64 \<Rightarrow> bool \<Rightarrow> (bool \<times> u64) option" where
  "read_wide m fmt wide = (if m fmt = 108 then read_wide m (fmt + 1) True else Some (wide, fmt))"

definition va_arg :: "u64 list \<Rightarrow> (u64 \<times> u64 list) option" where
  "va_arg args = (case args of [] \<Rightarrow> None | a # args \<Rightarrow> Some (a, args))"

text \<open>\<^verbatim>\<open>i = va_arg(arg, long int)\<close> or \<^verbatim>\<open>i = va_arg(arg, int)\<close>, sign-extended.\<close>

definition va_number :: "bool \<Rightarrow> u64 list \<Rightarrow> (u64 \<times> u64 list) option" where
  "va_number wide args = do {
     (a, args) \<leftarrow> va_arg args;
     Some (if wide then a else scast (ucast a :: u32), args) }"

definition put_number :: "u64 \<Rightarrow> u32 \<Rightarrow> u32 \<Rightarrow> u8 \<Rightarrow> bool \<Rightarrow> int \<Rightarrow> sink \<Rightarrow> sink option" where
  "put_number i base padding pad_with upper len out = do {
     pb \<leftarrow> num_fmt i base padding pad_with upper len;
     Some (fmt_put_all (num_chars pb) out) }"

text \<open>The \<^verbatim>\<open>switch\<close> on the conversion character \<open>c\<close>.\<close>

definition fmt_conversion ::
  "u8 \<Rightarrow> u32 \<Rightarrow> u8 \<Rightarrow> bool \<Rightarrow> u64 list \<Rightarrow> sink \<Rightarrow> (sink \<times> u64 list) option" where
  "fmt_conversion c padding pad_with wide args out =
     (let upper = (c = 88 \<or> c = 80) in
      if c = 99 then do { (i, args) \<leftarrow> va_arg args; Some (fmt_put (ucast i) out, args) }
      else if c = 100 \<or> c = 117 then do {
        (i, args) \<leftarrow> va_number wide args;
        out \<leftarrow> put_number i 10 padding pad_with False (- 1) out;
        Some (out, args) }
      else if c = 111 then do {
        (i, args) \<leftarrow> va_number wide args;
        out \<leftarrow> put_number i 8 padding pad_with False (- 1) out;
        Some (out, args) }
      else if c = 88 \<or> c = 120 then do {
        (i, args) \<leftarrow> va_number wide args;
        out \<leftarrow> put_number i 16 padding pad_with upper (if wide then 16 else 8) out;
        Some (out, args) }
      else if c = 80 \<or> c = 112 then do {
        (i, args) \<leftarrow> va_arg args;
        out \<leftarrow> put_number i 16 padding pad_with upper 16 out;
        Some (out, args) }
      else if c = 115 then do {
        (s, args) \<leftarrow> va_arg args;
        out \<leftarrow> fmt_put_string s out;
        Some (out, args) }
      else if c = 37 then Some (fmt_put 37 out, args)
      else Some (out, args))"

text \<open>
  The \<^verbatim>\<open>while\<close> loop.  A literal character is written without counting it against \<^verbatim>\<open>len\<close>;
  after a conversion the format advances by one even from its terminator.
\<close>

partial_function (option) vsnprintf_loop :: "u64 \<Rightarrow> u64 list \<Rightarrow> sink \<Rightarrow> sink option" where
  "vsnprintf_loop fmt args out = (case out of (m, buf, len) \<Rightarrow>
     if m fmt = 0 \<or> len = 0 then Some out
     else if m fmt \<noteq> 37 then vsnprintf_loop (fmt + 1) args (m(buf := m fmt), buf + 1, len)
     else do {
       let (pad_with, fmt) = (if m (fmt + 1) = 48 then (48, fmt + 2) else (32, fmt + 1));
       (padding, fmt) \<leftarrow> read_padding m fmt 0;
       (wide, fmt) \<leftarrow> read_wide m fmt False;
       (out, args) \<leftarrow> fmt_conversion (m fmt) padding pad_with wide args out;
       vsnprintf_loop (fmt + 1) args out })"

definition vsnprintf :: "u64 \<Rightarrow> u64 \<Rightarrow> u64 \<Rightarrow> u64 list \<Rightarrow> memory \<Rightarrow> memory option" where
  "vsnprintf buf len fmt args m = do {
     (m, buf, len) \<leftarrow> vsnprintf_loop fmt args (m, buf, len);
     let (m, buf) = (if len = 0 then (m(buf := 46, buf + 1 := 46, buf + 2 := 46), buf + 3) else (m, buf));
     Some (m(buf := 0)) }"

end
