(* ===== verification/Tty.thy ===== *)
theory Tty
  imports Kmalloc Vsnprintf
begin

text \<open>
  The text terminal of \<^verbatim>\<open>tty/tty.c\<close>: the font, the grid of cells and the cursor, drawing
  into the frame buffer.  The frame buffer and the font lie in the virtual memory \<open>vmem\<close>.
\<close>

type_synonym tty_color_t = u32

record boot_video =
  frame_buffer :: u64
  frame_buffer_size :: u64
  video_height :: u64
  video_width :: u64
  video_pitch :: u64
  font :: u64

record tty_state = kheap_state +
  fb :: u64
  glyphs :: u64
  tty_height :: u64
  tty_width :: u64
  tty_size :: u64
  cursor_x :: u64
  cursor_y :: u64
  grid_height :: u64
  grid_width :: u64
  cell_height :: u8
  cell_width :: u8
  cell_pitch :: u32
  foreground :: tty_color_t
  background :: tty_color_t
  bg_transparent :: bool
  tty_ready :: bool

definition TTY_COLOR_WHITE :: tty_color_t where [c_macros]: "TTY_COLOR_WHITE = 0xFFFFFF"
definition TTY_COLOR_BLACK :: tty_color_t where [c_macros]: "TTY_COLOR_BLACK = 0x000000"
definition PRINTF_MAX_BUFFER :: u64 where [c_macros]: "PRINTF_MAX_BUFFER = 256"
definition PSF1_HEADER_MAGIC :: u16 where [c_macros]: "PSF1_HEADER_MAGIC = 0x0436"
definition PSF2_HEADER_MAGIC :: u32 where [c_macros]: "PSF2_HEADER_MAGIC = 0x864AB572"

section \<open>The font\<close>

record psf1_header =
  psf1_magic :: u16
  psf1_mode :: u8
  character_size :: u8

definition psf1_at :: "memory \<Rightarrow> u64 \<Rightarrow> psf1_header" where
  "psf1_at m a = \<lparr>psf1_magic = load_le 2 m a, psf1_mode = m (a + 2), character_size = m (a + 3)\<rparr>"

record psf2_header =
  psf2_magic :: u32
  psf2_version :: u32
  header_size :: u32
  psf2_flags :: u32
  num_glyphs :: u32
  bytes_per_glyph :: u32
  glyph_height :: u32
  glyph_width :: u32

definition psf2_at :: "memory \<Rightarrow> u64 \<Rightarrow> psf2_header" where
  "psf2_at m a = \<lparr>psf2_magic = load_le 4 m a, psf2_version = load_le 4 m (a + 4), header_size = load_le 4 m (a + 8),
     psf2_flags = load_le 4 m (a + 12), num_glyphs = load_le 4 m (a + 16), bytes_per_glyph = load_le 4 m (a + 20),
     glyph_height = load_le 4 m (a + 24), glyph_width = load_le 4 m (a + 28)\<rparr>"

text \<open>
  \<^verbatim>\<open>tty_load_font\<close> has no \<^verbatim>\<open>return\<close> on the path of a valid font: its value is then \<open>None\<close>.
\<close>

definition tty_load_font :: "u64 \<Rightarrow> 'z tty_state_scheme \<Rightarrow> bool option \<times> 'z tty_state_scheme" where
  "tty_load_font file s =
     (if file = null then (Some False, s)
      else
        let psf1 = ((load_le 2 (vmem s) file :: u16) = PSF1_HEADER_MAGIC);
            valid = (psf1 \<or> (load_le 4 (vmem s) file :: u32) = PSF2_HEADER_MAGIC)
        in if \<not> valid then (Some False, s)
           else if psf1 then
             let header = psf1_at (vmem s) file
             in (None, s\<lparr>cell_height := character_size header, cell_width := 8, glyphs := file + 4\<rparr>)
           else
             let header = psf2_at (vmem s) file
             in (None, s\<lparr>cell_height := ucast (glyph_height header),
                  cell_width := ucast (ucast (ucast (glyph_width header) :: u8) + ((8 - glyph_width header mod 8) mod 8)),
                  glyphs := file + 32\<rparr>))"

section \<open>Settings\<close>

definition set_tty_char_fg :: "tty_color_t \<Rightarrow> 'z tty_state_scheme \<Rightarrow> 'z tty_state_scheme" where
  "set_tty_char_fg new_color s = s\<lparr>foreground := new_color\<rparr>"

definition set_tty_char_bg :: "tty_color_t \<Rightarrow> 'z tty_state_scheme \<Rightarrow> 'z tty_state_scheme" where
  "set_tty_char_bg new_color s = s\<lparr>background := new_color\<rparr>"

definition get_tty_char_fg :: "'z tty_state_scheme \<Rightarrow> tty_color_t" where "get_tty_char_fg s = foreground s"
definition get_tty_char_bg :: "'z tty_state_scheme \<Rightarrow> tty_color_t" where "get_tty_char_bg s = background s"
definition get_tty_grid_height :: "'z tty_state_scheme \<Rightarrow> u64" where "get_tty_grid_height s = grid_height s"
definition get_tty_grid_width :: "'z tty_state_scheme \<Rightarrow> u64" where "get_tty_grid_width s = grid_width s"

definition tty_enable_bg :: "'z tty_state_scheme \<Rightarrow> 'z tty_state_scheme" where
  "tty_enable_bg s = s\<lparr>bg_transparent := False\<rparr>"

text \<open>It stores \<^verbatim>\<open>true\<close>, which is 1, in the background color.\<close>

definition tty_disable_bg :: "'z tty_state_scheme \<Rightarrow> 'z tty_state_scheme" where
  "tty_disable_bg s = s\<lparr>background := 1\<rparr>"

section \<open>Drawing\<close>

definition plot_pixel :: "u64 \<Rightarrow> u64 \<Rightarrow> tty_color_t \<Rightarrow> 'z tty_state_scheme \<Rightarrow> 'z tty_state_scheme" where
  "plot_pixel x y pixel s =
     (if \<not> tty_ready s then s
      else s\<lparr>vmem := store_le 4 (vmem s) (fb s + y * ucast (cell_pitch s) * 4 + x * 4) pixel\<rparr>)"

definition tty_clear :: "'z tty_state_scheme \<Rightarrow> 'z tty_state_scheme" where
  "tty_clear s = s\<lparr>vmem := memclear (fb s) (tty_size s) (vmem s), cursor_x := 0, cursor_y := 0\<rparr>"

text \<open>Bit \<open>7 - j mod 8\<close> of the glyph's byte for the row \<open>i\<close> and column \<open>j\<close>.\<close>

definition glyph_bit :: "u64 \<Rightarrow> nat \<Rightarrow> nat \<Rightarrow> 'z tty_state_scheme \<Rightarrow> bool" where
  "glyph_bit glyph i j s \<longleftrightarrow>
     drop_bit (7 - j mod 8) (vmem s (glyph + of_nat (i * unat (cell_width s) div 8) + of_nat (j div 8))) AND 1 \<noteq> 0"

definition putchar_at ::
  "u8 \<Rightarrow> u32 \<Rightarrow> u32 \<Rightarrow> tty_color_t \<Rightarrow> tty_color_t \<Rightarrow> 'z tty_state_scheme \<Rightarrow> 'z tty_state_scheme" where
  "putchar_at c x y fg bg s =
     (if \<not> tty_ready s then s
      else
        let c = (if c = 9 then 32 else c);
            glyph = glyphs s + of_nat (unat (cell_height s) * (unat (cell_width s) div 8)) * scast c
        in for_loop (unat (cell_height s)) (\<lambda>i.
             for_loop (unat (cell_width s)) (\<lambda>j s.
               if glyph_bit glyph i j s then plot_pixel (ucast (x + of_nat j)) (ucast (y + of_nat i)) fg s
               else if \<not> bg_transparent s then plot_pixel (ucast (x + of_nat j)) (ucast (y + of_nat i)) bg s
               else s)) s)"

text \<open>The first part of \<^verbatim>\<open>putchar\<close>: a new line, or the end of the row.\<close>

definition new_line :: "'z tty_state_scheme \<Rightarrow> 'z tty_state_scheme" where
  "new_line s =
     (let s = s\<lparr>cursor_x := 0\<rparr>
      in if cursor_y s < grid_height s then s\<lparr>cursor_y := cursor_y s + 1\<rparr>
         else (tty_clear s)\<lparr>cursor_x := 0, cursor_y := 0\<rparr>)"

definition putchar :: "u8 \<Rightarrow> tty_color_t \<Rightarrow> tty_color_t \<Rightarrow> 'z tty_state_scheme \<Rightarrow> 'z tty_state_scheme" where
  "putchar c fg bg s =
     (if \<not> tty_ready s then s
      else
        let s = (if c = 10 \<or> cursor_x s = grid_width s then new_line s else s)
        in if c = 10 then s
           else
             let s = putchar_at c (ucast (ucast (cell_width s) * cursor_x s))
                       (ucast (ucast (cell_height s) * cursor_y s)) fg bg s
             in s\<lparr>cursor_x := cursor_x s + 1\<rparr>)"

definition tty_clear_cell :: "u32 \<Rightarrow> u32 \<Rightarrow> 'z tty_state_scheme \<Rightarrow> 'z tty_state_scheme" where
  "tty_clear_cell x y s =
     (if grid_width s \<le> ucast x \<or> grid_height s \<le> ucast y then s
      else for_loop (unat (cell_height s)) (\<lambda>i.
             for_loop (unat (cell_width s)) (\<lambda>j s.
               plot_pixel (ucast (x * ucast (cell_width s) + of_nat j))
                 (ucast (y * ucast (cell_height s) + of_nat i)) (background s) s)) s)"

definition tty_backspace :: "'z tty_state_scheme \<Rightarrow> 'z tty_state_scheme" where
  "tty_backspace s =
     (let s = (if cursor_x s = 0
               then if 0 < cursor_y s then s\<lparr>cursor_x := grid_width s - 1, cursor_y := cursor_y s - 1\<rparr> else s
               else s\<lparr>cursor_x := cursor_x s - 1\<rparr>)
      in tty_clear_cell (ucast (cursor_x s)) (ucast (cursor_y s)) s)"

section \<open>Printing\<close>

definition is_printed :: "u8 \<Rightarrow> bool" where
  "is_printed c \<longleftrightarrow> 32 \<le> sint c \<and> sint c \<le> 126 \<or> c = 10 \<or> c = 9"

fun print_from :: "nat \<Rightarrow> nat \<Rightarrow> u64 \<Rightarrow> tty_color_t \<Rightarrow> tty_color_t \<Rightarrow> 'z tty_state_scheme \<Rightarrow> 'z tty_state_scheme" where
  "print_from i 0 str fg bg s = s"
| "print_from i (Suc k) str fg bg s =
     (let c = vmem s (str + of_nat i)
      in print_from (Suc i) k str fg bg (if is_printed c then putchar c fg bg s else s))"

definition print_color ::
  "u64 \<Rightarrow> tty_color_t \<Rightarrow> tty_color_t \<Rightarrow> 'z tty_state_scheme \<Rightarrow> 'z tty_state_scheme option" where
  "print_color str fg bg s =
     (if \<not> tty_ready s then Some s
      else do { len \<leftarrow> strlen str (vmem s); Some (print_from 0 (unat len) str fg bg s) })"

text \<open>\<open>buf\<close> is the address of the local array of \<^verbatim>\<open>printf\<close>.\<close>

definition printf :: "u64 \<Rightarrow> u64 \<Rightarrow> u64 list \<Rightarrow> 'z tty_state_scheme \<Rightarrow> 'z tty_state_scheme option" where
  "printf buf fmt args s =
     (if \<not> tty_ready s then Some s
      else do {
        m \<leftarrow> vsnprintf buf PRINTF_MAX_BUFFER fmt args (vmem s);
        let s = s\<lparr>vmem := m\<rparr>;
        print_color buf (foreground s) (background s) s })"

section \<open>Initialisation\<close>

text \<open>
  When the font is valid the test \<^verbatim>\<open>if (tty_load_font(...))\<close> reads an undefined value.
  A division by a zero cell size is undefined as well.
\<close>

definition init_tty :: "boot_video \<Rightarrow> 'z tty_state_scheme \<Rightarrow> (bool \<times> 'z tty_state_scheme) option" where
  "init_tty bp s =
     (if tty_ready s then Some (False, s)
      else do {
        let (r, s) = tty_load_font (font bp) s;
        r \<leftarrow> r;
        if r then Some (False, s)
        else do {
          let s = s\<lparr>fb := frame_buffer bp, tty_height := video_height bp, tty_width := video_width bp,
                    tty_size := frame_buffer_size bp, foreground := TTY_COLOR_WHITE,
                    background := TTY_COLOR_BLACK, bg_transparent := True, cell_pitch := ucast (video_pitch bp)\<rparr>;
          if cell_width s = 0 \<or> cell_height s = 0 then None
          else do {
            let s = s\<lparr>grid_width := tty_width s div ucast (cell_width s),
                      grid_height := tty_height s div ucast (cell_height s), cursor_x := 0, cursor_y := 0\<rparr>;
            Some (True, (tty_clear s)\<lparr>tty_ready := True\<rparr>) } } })"

section \<open>Printing a constant text\<close>

text \<open>
  Where the strings of the program and the local variables lie: the buffer of \<^verbatim>\<open>printf\<close>,
  the string constant being printed, the local character of \<^verbatim>\<open>term_putc\<close> and the string
  \<^verbatim>\<open>prompt\<close>.
\<close>

record frame =
  printf_buf :: u64
  literal :: u64
  local_char :: u64
  prompt :: u64

definition bytes_of :: "string \<Rightarrow> u8 list" where
  "bytes_of cs = map (\<lambda>c. of_nat (of_char c)) cs"

definition write_literal :: "frame \<Rightarrow> string \<Rightarrow> 'z tty_state_scheme \<Rightarrow> 'z tty_state_scheme" where
  "write_literal F cs s = s\<lparr>vmem := write_bytes (literal F) (bytes_of cs @ [0]) (vmem s)\<rparr>"

definition kprintf ::
  "frame \<Rightarrow> string \<Rightarrow> u64 list \<Rightarrow> 'z tty_state_scheme \<Rightarrow> 'z tty_state_scheme option" where
  "kprintf F cs args s = printf (printf_buf F) (literal F) args (write_literal F cs s)"

end
