(* ===== verification/Files.thy ===== *)
theory Files
  imports Tty
begin

text \<open>
  The file functions of \<^verbatim>\<open>io/files.c\<close>.  The file descriptors live in an object pool whose
  memory is \<open>files_map\<close>; the contents are buffers of the kernel heap.
\<close>

datatype file_type_t = data | dev | stream

record file_t =
  file_type :: file_type_t
  file_size :: u32
  file_ptr :: u64

record files_state = tty_state +
  files_ready :: bool
  files_descr_pool :: pool_t
  files_pool_last_ind :: u32
  files_map :: "file_t list"

definition MAX_FILES :: u32 where [c_macros]: "MAX_FILES = 2048"
definition STDIN_FILENO :: u32 where [c_macros]: "STDIN_FILENO = 0"
definition STDOUT_FILENO :: u32 where [c_macros]: "STDOUT_FILENO = 1"
definition STDERR_FILENO :: u32 where [c_macros]: "STDERR_FILENO = 2"

text \<open>A file as static storage holds it: \<^verbatim>\<open>stdin\<close>, \<^verbatim>\<open>stdout\<close> and \<^verbatim>\<open>stderr\<close> are never set.\<close>

definition zero_file :: file_t where
  "zero_file = \<lparr>file_type = data, file_size = 0, file_ptr = null\<rparr>"

definition init_file_descriptor :: "file_type_t \<Rightarrow> file_t \<Rightarrow> file_t" where
  "init_file_descriptor ty file = file\<lparr>file_type := ty, file_size := 0, file_ptr := null\<rparr>"

definition files_put :: "file_t \<Rightarrow> u32 \<Rightarrow> 'z files_state_scheme \<Rightarrow> (bool \<times> 'z files_state_scheme) option" where
  "files_put f i s = do {
     (ok, t, xs) \<leftarrow> obj_pool_put zero_file (files_descr_pool s) f i (pools s) (files_map s);
     Some (ok, s\<lparr>pools := t, files_map := xs\<rparr>) }"

definition init_files :: "'z files_state_scheme \<Rightarrow> (bool \<times> 'z files_state_scheme) option" where
  "init_files s = do {
     (r, s) \<leftarrow> create_obj_pool zero_file 16 MAX_FILES manual s;
     case r of None \<Rightarrow> Some (False, s)
     | Some (pid, xs) \<Rightarrow> do {
         let s = s\<lparr>files_descr_pool := pid, files_map := xs\<rparr>;
         (_, s) \<leftarrow> files_put zero_file 0 s;
         (_, s) \<leftarrow> files_put zero_file 1 s;
         (_, s) \<leftarrow> files_put zero_file 2 s;
         Some (True, s\<lparr>files_pool_last_ind := 3, files_ready := True\<rparr>) } }"

text \<open>The pointer to a file is an index of the pool; \<open>None\<close> inside is the null pointer.\<close>

definition get_file :: "u32 \<Rightarrow> 'z files_state_scheme \<Rightarrow> (nat option \<times> 'z files_state_scheme) option" where
  "get_file fd s =
     (if \<not> files_ready s \<or> MAX_FILES \<le> fd then Some (None, s)
      else do {
        (ok, p, t) \<leftarrow> obj_pool_get (files_descr_pool s) fd (pools s);
        Some (if ok then p else None, s\<lparr>pools := t\<rparr>) })"

definition set_file :: "nat \<Rightarrow> file_t \<Rightarrow> 'z files_state_scheme \<Rightarrow> 'z files_state_scheme option" where
  "set_file p f s = do { xs \<leftarrow> obj_store p f (files_map s); Some (s\<lparr>files_map := xs\<rparr>) }"

definition file_write :: "u32 \<Rightarrow> u64 \<Rightarrow> u64 \<Rightarrow> 'z files_state_scheme \<Rightarrow> (u64 \<times> 'z files_state_scheme) option" where
  "file_write fd buffer n_bytes s =
     (if buffer = null \<or> n_bytes = 0 \<or> \<not> files_ready s \<or> MAX_FILES \<le> fd then Some (0, s)
      else do {
        (r, s) \<leftarrow> get_file fd s;
        case r of None \<Rightarrow> Some (0, s)
        | Some p \<Rightarrow> do {
            file \<leftarrow> obj_load p (files_map s);
            let new_size = file_size file + ucast n_bytes;
            (ptr, s) \<leftarrow> (if file_ptr file \<noteq> null then krealloc (file_ptr file) (ucast new_size) s
              else kmalloc (ucast new_size) s);
            s \<leftarrow> set_file p (file\<lparr>file_ptr := ptr\<rparr>) s;
            if ptr = null then Some (0, s)
            else do {
              let s = s\<lparr>vmem := memcpy (ptr + ucast (file_size file)) buffer n_bytes (vmem s)\<rparr>;
              s \<leftarrow> set_file p (file\<lparr>file_ptr := ptr, file_size := file_size file + ucast n_bytes\<rparr>) s;
              Some (n_bytes, s) } } })"

definition file_read :: "u32 \<Rightarrow> u64 \<Rightarrow> u64 \<Rightarrow> 'z files_state_scheme \<Rightarrow> (u64 \<times> 'z files_state_scheme) option" where
  "file_read fd buffer n_bytes s =
     (if n_bytes = 0 \<or> MAX_FILES \<le> fd \<or> \<not> files_ready s then Some (0, s)
      else do {
        (r, s) \<leftarrow> get_file fd s;
        case r of None \<Rightarrow> Some (0, s)
        | Some p \<Rightarrow> do {
            file \<leftarrow> obj_load p (files_map s);
            let n_bytes = (if ucast (file_size file) < n_bytes then ucast (file_size file) else n_bytes);
            let s = (if buffer \<noteq> null then s\<lparr>vmem := memcpy buffer (file_ptr file) n_bytes (vmem s)\<rparr> else s);
            s \<leftarrow> set_file p (file\<lparr>file_size := ucast (ucast (file_size file) - n_bytes)\<rparr>) s;
            Some (n_bytes, s) } })"

end
