(* ===== verification/Machine.thy ===== *)
theory Machine
  imports Files
begin

text \<open>
  The hardware as the kernel sees it.  Devices are not part of the kernel: a \<open>bus\<close> says what
  a port or register access does to their state \<open>'d\<close>, and every definition that uses them
  takes it as an argument.  The theory holds the port accesses of \<^verbatim>\<open>io/port_io.c\<close>, the
  instructions of \<^verbatim>\<open>low_level.c\<close>, \<^verbatim>\<open>assert.c\<close>, and the segment descriptors of
  \<^verbatim>\<open>mm/segmentation.c\<close>.
\<close>

record 'd bus =
  dev_inb :: "u16 \<Rightarrow> 'd \<Rightarrow> u8 \<times> 'd"
  dev_outb :: "u16 \<Rightarrow> u8 \<Rightarrow> 'd \<Rightarrow> 'd"
  dev_inw :: "u16 \<Rightarrow> 'd \<Rightarrow> u16 \<times> 'd"
  dev_outw :: "u16 \<Rightarrow> u16 \<Rightarrow> 'd \<Rightarrow> 'd"
  dev_inl :: "u16 \<Rightarrow> 'd \<Rightarrow> u32 \<times> 'd"
  dev_outl :: "u16 \<Rightarrow> u32 \<Rightarrow> 'd \<Rightarrow> 'd"
  dev_read32 :: "u64 \<Rightarrow> 'd \<Rightarrow> u32 \<times> 'd"
  dev_write32 :: "u64 \<Rightarrow> u32 \<Rightarrow> 'd \<Rightarrow> 'd"
  dev_cpuid :: "u32 \<Rightarrow> 'd \<Rightarrow> u32 \<times> u32 \<times> u32 \<times> u32"
  dev_rdmsr :: "u32 \<Rightarrow> 'd \<Rightarrow> u32 \<times> u32"
  dev_wrmsr :: "u32 \<Rightarrow> u32 \<times> u32 \<Rightarrow> 'd \<Rightarrow> 'd"
  dev_cr2 :: "'d \<Rightarrow> u64"

text \<open>
  A segment descriptor, with its two 4-bit fields kept as bytes that only hold their low
  half, and the descriptors of the interrupt table.
\<close>

record gdt_t =
  limit_0 :: u16
  base_0 :: u16
  base_1 :: u8
  access :: u8
  limit_1 :: u8
  gdt_flags :: u8
  base_2 :: u8

record gdtr_t =
  gdtr_size :: u16
  gdtr_base :: u64

record idt_t =
  isr_0 :: u16
  kernel_cs :: u16
  ist :: u8
  idt_flags :: u8
  isr_1 :: u16
  isr_2 :: u32
  idt_reserved :: u32

record idtr_t =
  idtr_limit :: u16
  idtr_base :: u64

record 'd machine_state = files_state +
  device :: 'd
  interrupts_enabled :: bool
  halted :: bool
  gdt :: "gdt_t list"
  gdtr :: gdtr_t
  idt :: "idt_t list"
  idtr :: idtr_t
  gsi_map :: "u8 list"
  isr_hooks :: "u64 list list"
  nmi_enabled :: bool

section \<open>port_io.c\<close>

definition inb :: "'d bus \<Rightarrow> u16 \<Rightarrow> ('d, 'z) machine_state_scheme \<Rightarrow> u8 \<times> ('d, 'z) machine_state_scheme" where
  "inb B port s = (let (v, d) = dev_inb B port (device s) in (v, s\<lparr>device := d\<rparr>))"

definition outb :: "'d bus \<Rightarrow> u16 \<Rightarrow> u8 \<Rightarrow> ('d, 'z) machine_state_scheme \<Rightarrow> ('d, 'z) machine_state_scheme" where
  "outb B port v s = s\<lparr>device := dev_outb B port v (device s)\<rparr>"

definition inw :: "'d bus \<Rightarrow> u16 \<Rightarrow> ('d, 'z) machine_state_scheme \<Rightarrow> u16 \<times> ('d, 'z) machine_state_scheme" where
  "inw B port s = (let (v, d) = dev_inw B port (device s) in (v, s\<lparr>device := d\<rparr>))"

definition outw :: "'d bus \<Rightarrow> u16 \<Rightarrow> u16 \<Rightarrow> ('d, 'z) machine_state_scheme \<Rightarrow> ('d, 'z) machine_state_scheme" where
  "outw B port v s = s\<lparr>device := dev_outw B port v (device s)\<rparr>"

definition inl :: "'d bus \<Rightarrow> u16 \<Rightarrow> ('d, 'z) machine_state_scheme \<Rightarrow> u32 \<times> ('d, 'z) machine_state_scheme" where
  "inl B port s = (let (v, d) = dev_inl B port (device s) in (v, s\<lparr>device := d\<rparr>))"

definition outl :: "'d bus \<Rightarrow> u16 \<Rightarrow> u32 \<Rightarrow> ('d, 'z) machine_state_scheme \<Rightarrow> ('d, 'z) machine_state_scheme" where
  "outl B port v s = s\<lparr>device := dev_outl B port v (device s)\<rparr>"

section \<open>low_level.c\<close>

definition sys_hlt :: "('d, 'z) machine_state_scheme \<Rightarrow> ('d, 'z) machine_state_scheme" where
  "sys_hlt s = s\<lparr>interrupts_enabled := False, halted := True\<rparr>"

definition disable_int :: "('d, 'z) machine_state_scheme \<Rightarrow> ('d, 'z) machine_state_scheme" where
  "disable_int s = s\<lparr>interrupts_enabled := False\<rparr>"

definition enable_int :: "('d, 'z) machine_state_scheme \<Rightarrow> ('d, 'z) machine_state_scheme" where
  "enable_int s = s\<lparr>interrupts_enabled := True\<rparr>"

definition get_cr2 :: "'d bus \<Rightarrow> ('d, 'z) machine_state_scheme \<Rightarrow> u64" where
  "get_cr2 B s = dev_cr2 B (device s)"

definition get_cr3 :: "('d, 'z) machine_state_scheme \<Rightarrow> u64" where
  "get_cr3 s = cr3 s"

definition cpuid :: "'d bus \<Rightarrow> u32 \<Rightarrow> ('d, 'z) machine_state_scheme \<Rightarrow> u32 \<times> u32 \<times> u32 \<times> u32" where
  "cpuid B leaf s = dev_cpuid B leaf (device s)"

definition get_msr :: "'d bus \<Rightarrow> u32 \<Rightarrow> ('d, 'z) machine_state_scheme \<Rightarrow> u32 \<times> u32" where
  "get_msr B msr s = dev_rdmsr B msr (device s)"

definition set_msr :: "'d bus \<Rightarrow> u32 \<Rightarrow> u32 \<Rightarrow> u32 \<Rightarrow> ('d, 'z) machine_state_scheme \<Rightarrow> ('d, 'z) machine_state_scheme" where
  "set_msr B msr lo hi s = s\<lparr>device := dev_wrmsr B msr (lo, hi) (device s)\<rparr>"

section \<open>assert.c\<close>

text \<open>
  A failed assertion prints its message and halts the machine: the code after it does not
  run, which is the value \<open>None\<close>.
\<close>

definition assert_true :: "bool \<Rightarrow> 's \<Rightarrow> 's option" where
  "assert_true test s = (if test then Some s else None)"

definition assert_false :: "bool \<Rightarrow> 's \<Rightarrow> 's option" where
  "assert_false test s = assert_true (\<not> test) s"

section \<open>segmentation.c\<close>

definition GDT_MAX_ENTRIES :: u32 where [c_macros]: "GDT_MAX_ENTRIES = 8"
definition GDT_NULL_ENTRY :: u32 where [c_macros]: "GDT_NULL_ENTRY = 0"
definition GDT_KERNEL_CS :: u32 where [c_macros]: "GDT_KERNEL_CS = 1"
definition GDT_KERNEL_DS :: u32 where [c_macros]: "GDT_KERNEL_DS = 2"
definition GDT_USER_CS :: u32 where [c_macros]: "GDT_USER_CS = 3"
definition GDT_USER_DS :: u32 where [c_macros]: "GDT_USER_DS = 4"

definition load_gdt ::
  "u32 \<Rightarrow> u64 \<Rightarrow> u32 \<Rightarrow> u8 \<Rightarrow> u8 \<Rightarrow> ('d, 'z) machine_state_scheme \<Rightarrow> bool \<times> ('d, 'z) machine_state_scheme" where
  "load_gdt n base limit acc flags s =
     (if GDT_MAX_ENTRIES \<le> n then (False, s)
      else (True, s\<lparr>gdt := (gdt s)[unat n :=
        \<lparr>limit_0 = ucast (limit AND 0xFFFF), base_0 = ucast (base AND 0xFFFF),
         base_1 = ucast (drop_bit 16 base AND 0xFF), access = acc,
         limit_1 = ucast (drop_bit 16 limit AND 0x0F), gdt_flags = flags AND 0x0F,
         base_2 = ucast (drop_bit 24 base AND 0xFF)\<rparr>]\<rparr>))"

text \<open>\<open>gdt_addr\<close> is the address of the array \<^verbatim>\<open>gdt\<close>; an entry has 8 bytes.\<close>

definition setup_gdt :: "u64 \<Rightarrow> ('d, 'z) machine_state_scheme \<Rightarrow> (bool \<times> ('d, 'z) machine_state_scheme) option" where
  "setup_gdt gdt_addr s = do {
     let (ok, s) = load_gdt GDT_NULL_ENTRY 0 0 0 0 s; s \<leftarrow> assert_true ok s;
     let (ok, s) = load_gdt GDT_KERNEL_CS 0 0xFFFFF 0x9A 0xA s; s \<leftarrow> assert_true ok s;
     let (ok, s) = load_gdt GDT_KERNEL_DS 0 0xFFFFF 0x92 0xA s; s \<leftarrow> assert_true ok s;
     let (ok, s) = load_gdt GDT_USER_CS 0 0xFFFFF 0xFA 0xA s; s \<leftarrow> assert_true ok s;
     let (ok, s) = load_gdt GDT_USER_DS 0 0xFFFFF 0xF2 0xA s; s \<leftarrow> assert_true ok s;
     let s = disable_int (s\<lparr>gdtr := \<lparr>gdtr_size = 5 * 8 - 1, gdtr_base = gdt_addr\<rparr>\<rparr>);
     Some (True, enable_int s) }"

end
