(* ===== verification/Interrupts.thy ===== *)
theory Interrupts
  imports Machine
begin

text \<open>
  The interrupt table, the non-maskable interrupt and the hooks of \<^verbatim>\<open>int/int.c\<close>.
  \<open>isr_hooks\<close> holds for each vector the addresses of up to four handlers, null where the
  place is free.
\<close>

definition ISR_TYPE_INT :: u8 where [c_macros]: "ISR_TYPE_INT = 0x0E"
definition ISR_FLAG_PRESENT :: u8 where [c_macros]: "ISR_FLAG_PRESENT = 0x80"
definition ISR_FLAG_RING0 :: u8 where [c_macros]: "ISR_FLAG_RING0 = 0x00"
definition MAX_INTERRUPT :: nat where [c_macros]: "MAX_INTERRUPT = 256"
definition NMI_CONTROL_REGISTER :: u16 where [c_macros]: "NMI_CONTROL_REGISTER = 0x70"
definition ISR_MAX_HOOKS :: u8 where [c_macros]: "ISR_MAX_HOOKS = 4"

text \<open>The routines of \<^verbatim>\<open>int/isr.c\<close> and the table \<^verbatim>\<open>isrs\<close> of their addresses.\<close>

datatype isr = exception nat | irq nat

definition isrs :: "isr option list" where
  "isrs = map (\<lambda>n. Some (exception n)) [0..<23] @ [Some (irq 0), Some (irq 1), Some (irq 2)] @
     replicate 11 None @ [Some (irq 14), Some (irq 15)] @ replicate 217 None"

definition isr_entry :: "(isr \<Rightarrow> u64) \<Rightarrow> nat \<Rightarrow> u64" where
  "isr_entry isr_addr i = (case isrs ! i of None \<Rightarrow> null | Some r \<Rightarrow> isr_addr r)"

section \<open>The interrupt table\<close>

definition set_idt_entry ::
  "u8 \<Rightarrow> u64 \<Rightarrow> u8 \<Rightarrow> ('d, 'z) machine_state_scheme \<Rightarrow> ('d, 'z) machine_state_scheme" where
  "set_idt_entry n isr flags s = s\<lparr>idt := (idt s)[unat n :=
     \<lparr>isr_0 = ucast (isr AND 0xFFFF), kernel_cs = ucast (GDT_KERNEL_CS * 8), ist = 0, idt_flags = flags,
      isr_1 = ucast (drop_bit 16 isr AND 0xFFFF), isr_2 = ucast (drop_bit 32 isr AND 0xFFFFFFFF),
      idt_reserved = 0\<rparr>]\<rparr>"

text \<open>The first loop of \<^verbatim>\<open>setup_interrupts\<close>; it returns \<^verbatim>\<open>limit\<close>.\<close>

fun install_isrs ::
  "(isr \<Rightarrow> u64) \<Rightarrow> nat \<Rightarrow> nat \<Rightarrow> u16 \<Rightarrow> ('d, 'z) machine_state_scheme \<Rightarrow> u16 \<times> ('d, 'z) machine_state_scheme" where
  "install_isrs isr_addr i 0 limit s = (limit, s)"
| "install_isrs isr_addr i (Suc k) limit s =
     (if isr_entry isr_addr i = null then (limit, s)
      else install_isrs isr_addr (Suc i) k (limit + 1)
        (set_idt_entry (of_nat i) (isr_entry isr_addr i) (ISR_FLAG_PRESENT OR ISR_FLAG_RING0 OR ISR_TYPE_INT) s))"

definition nmi_enable :: "'d bus \<Rightarrow> ('d, 'z) machine_state_scheme \<Rightarrow> ('d, 'z) machine_state_scheme" where
  "nmi_enable B s =
     (let (v, s) = inb B NMI_CONTROL_REGISTER s;
          s = outb B NMI_CONTROL_REGISTER (v AND 0x7F) s;
          (_, s) = inb B 0x71 s
      in s\<lparr>nmi_enabled := True\<rparr>)"

definition nmi_disable :: "'d bus \<Rightarrow> ('d, 'z) machine_state_scheme \<Rightarrow> ('d, 'z) machine_state_scheme" where
  "nmi_disable B s =
     (let (v, s) = inb B NMI_CONTROL_REGISTER s;
          s = outb B NMI_CONTROL_REGISTER (v OR 0x80) s;
          (_, s) = inb B 0x71 s
      in s\<lparr>nmi_enabled := False\<rparr>)"

text \<open>\<open>idt_addr\<close> is the address of the array \<^verbatim>\<open>idt\<close>; an entry has 16 bytes.\<close>

definition setup_interrupts ::
  "'d bus \<Rightarrow> (isr \<Rightarrow> u64) \<Rightarrow> u64 \<Rightarrow> ('d, 'z) machine_state_scheme \<Rightarrow> bool \<times> ('d, 'z) machine_state_scheme" where
  "setup_interrupts B isr_addr idt_addr s =
     (let (limit, s) = install_isrs isr_addr 0 (MAX_INTERRUPT - 1) 0 s;
          s = s\<lparr>idtr := \<lparr>idtr_limit = limit * 16 - 1, idtr_base = idt_addr\<rparr>\<rparr>;
          s = enable_int (disable_int s);
          s = nmi_enable B s;
          s = s\<lparr>gsi_map := for_loop 256 (\<lambda>i m. m[i := of_nat i]) (gsi_map s)\<rparr>
      in (True, s\<lparr>isr_hooks := replicate 256 (replicate 4 null)\<rparr>))"

section \<open>Hooks\<close>

fun free_hook :: "nat \<Rightarrow> u64 list \<Rightarrow> u8 \<Rightarrow> u8" where
  "free_hook 0 hs i = i"
| "free_hook (Suc k) hs i =
     (if i < ISR_MAX_HOOKS \<and> hs ! unat i \<noteq> null then free_hook k hs (i + 1) else i)"

definition int_hook :: "u8 \<Rightarrow> u64 \<Rightarrow> ('d, 'z) machine_state_scheme \<Rightarrow> u8 \<times> ('d, 'z) machine_state_scheme" where
  "int_hook int_n handler s =
     (if handler = null then (0xFF, s)
      else
        let hs = isr_hooks s ! unat int_n;
            i = free_hook 4 hs 0
        in if i = ISR_MAX_HOOKS then (0xFF, s)
           else (i, s\<lparr>isr_hooks := (isr_hooks s)[unat int_n := hs[unat i := handler]]\<rparr>))"

definition int_unhook :: "u8 \<Rightarrow> u8 \<Rightarrow> ('d, 'z) machine_state_scheme \<Rightarrow> bool \<times> ('d, 'z) machine_state_scheme" where
  "int_unhook int_n hook_n s =
     (if ISR_MAX_HOOKS \<le> hook_n then (False, s)
      else (True, s\<lparr>isr_hooks := (isr_hooks s)[unat int_n := (isr_hooks s ! unat int_n)[unat hook_n := null]]\<rparr>))"

text \<open>
  \<^verbatim>\<open>int_exec_hooks\<close> of \<^verbatim>\<open>int/isr.c\<close>.  \<open>call\<close> is what the function at an address does to the
  state.
\<close>

fun exec_hooks_from ::
  "(u64 \<Rightarrow> 's \<Rightarrow> 's option) \<Rightarrow> ('s \<Rightarrow> u64 list list) \<Rightarrow> nat \<Rightarrow> nat \<Rightarrow> nat \<Rightarrow> 's \<Rightarrow> 's option" where
  "exec_hooks_from call hooks n i 0 s = Some s"
| "exec_hooks_from call hooks n i (Suc k) s = do {
     s \<leftarrow> (let handler = hooks s ! n ! i in if handler \<noteq> null then call handler s else Some s);
     exec_hooks_from call hooks n (Suc i) k s }"

definition int_exec_hooks ::
  "(u64 \<Rightarrow> ('d, 'z) machine_state_scheme \<Rightarrow> ('d, 'z) machine_state_scheme option) \<Rightarrow> u8 \<Rightarrow>
   ('d, 'z) machine_state_scheme \<Rightarrow> ('d, 'z) machine_state_scheme option" where
  "int_exec_hooks call int_n s = exec_hooks_from call isr_hooks (unat int_n) 0 4 s"

end
