(* ===== verification/Apic.thy ===== *)
theory Apic
  imports Interrupts
begin

text \<open>
  The local and I/O APICs of \<^verbatim>\<open>int/apic.c\<close>.  Their registers are reached by 32-bit accesses
  at memory addresses, which are operations of the bus.  A \<^verbatim>\<open>panic\<close> does not return: it is
  the value \<open>None\<close>.
\<close>

record lapic_t =
  cpu_id :: u8
  lapic_id :: u8
  lapic_flags :: u32

record ioapic_t =
  ioapic_id :: u8
  ioapic_addr :: u32
  global_system_interrupt_base :: u32
  max_redirections :: u8

record 'd apic_state = "'d machine_state" +
  lapic_address :: u64
  system_lapics :: "lapic_t list"
  system_ioapics :: "ioapic_t list"
  lapics_array_index :: u32
  apic_sleep_ready :: bool
  apic_timer_frequency :: u32
  apic_sleep_in_progress :: bool

datatype ioapic_int_delivery_mode_t = fixed_mode | low_priority | smi | nmi_mode | init_mode | extint

fun delivery_code :: "ioapic_int_delivery_mode_t \<Rightarrow> u32" where
  "delivery_code fixed_mode = 0"
| "delivery_code low_priority = 1"
| "delivery_code smi = 2"
| "delivery_code nmi_mode = 4"
| "delivery_code init_mode = 5"
| "delivery_code extint = 7"

definition DEFAULT_LAPIC_ADDRESS :: u64 where [c_macros]: "DEFAULT_LAPIC_ADDRESS = 0xFEE00000"
definition APIC_ARRAYS_LENGTH :: u32 where [c_macros]: "APIC_ARRAYS_LENGTH = 16"
definition LAPIC_EOI_REGISTER :: u32 where [c_macros]: "LAPIC_EOI_REGISTER = 0xB0"
definition LAPIC_SIV_REGISTER :: u32 where [c_macros]: "LAPIC_SIV_REGISTER = 0xF0"
definition APIC_TIMER_ICR :: u32 where [c_macros]: "APIC_TIMER_ICR = 0x380"
definition APIC_TIMER_CCR :: u32 where [c_macros]: "APIC_TIMER_CCR = 0x390"
definition APIC_TIMER_DCR :: u32 where [c_macros]: "APIC_TIMER_DCR = 0x3E0"
definition LAPIC_LVT_TIMER :: u32 where [c_macros]: "LAPIC_LVT_TIMER = 0x320"
definition LAPIC_LVT_LINT0 :: u32 where [c_macros]: "LAPIC_LVT_LINT0 = 0x350"
definition LAPIC_LVT_LINT1 :: u32 where [c_macros]: "LAPIC_LVT_LINT1 = 0x360"
definition LAPIC_TIMER_DIV1 :: u8 where [c_macros]: "LAPIC_TIMER_DIV1 = 7"
definition LAPIC_TIMER_PERIODIC_MODE :: u8 where [c_macros]: "LAPIC_TIMER_PERIODIC_MODE = 1"
definition MASTER_PIC_DATA :: u16 where [c_macros]: "MASTER_PIC_DATA = 0x21"
definition SLAVE_PIC_DATA :: u16 where [c_macros]: "SLAVE_PIC_DATA = 0xA1"

definition read32 :: "'d bus \<Rightarrow> u64 \<Rightarrow> ('d, 'z) machine_state_scheme \<Rightarrow> u32 \<times> ('d, 'z) machine_state_scheme" where
  "read32 B a s = (let (v, d) = dev_read32 B a (device s) in (v, s\<lparr>device := d\<rparr>))"

definition write32 :: "'d bus \<Rightarrow> u64 \<Rightarrow> u32 \<Rightarrow> ('d, 'z) machine_state_scheme \<Rightarrow> ('d, 'z) machine_state_scheme" where
  "write32 B a v s = s\<lparr>device := dev_write32 B a v (device s)\<rparr>"

section \<open>The local APIC\<close>

definition lapic_read :: "'d bus \<Rightarrow> u32 \<Rightarrow> ('d, 'z) apic_state_scheme \<Rightarrow> u32 \<times> ('d, 'z) apic_state_scheme" where
  "lapic_read B reg s = read32 B (lapic_address s + ucast reg) s"

definition lapic_write :: "'d bus \<Rightarrow> u32 \<Rightarrow> u32 \<Rightarrow> ('d, 'z) apic_state_scheme \<Rightarrow> ('d, 'z) apic_state_scheme" where
  "lapic_write B reg v s = write32 B (lapic_address s + ucast reg) v s"

definition lapic_set_lvt_entry ::
  "'d bus \<Rightarrow> u32 \<Rightarrow> u8 \<Rightarrow> u8 \<Rightarrow> u8 \<Rightarrow> bool \<Rightarrow> ('d, 'z) apic_state_scheme \<Rightarrow> ('d, 'z) apic_state_scheme" where
  "lapic_set_lvt_entry B reg int_num polarity trigger masked s =
     (if reg < 0x2F0 \<or> 0x370 < reg then s
      else
        let (old, s) = lapic_read B reg s;
            v = old AND 0xFFFE5800;
            v = v OR ucast int_num;
            v = v OR push_bit 16 (of_bool masked AND 1);
            v = (if reg = LAPIC_LVT_TIMER
              then let v = (if \<not> masked then v OR push_bit 10 1 else v);
                       v = v OR push_bit 13 (of_bool (polarity = 0) AND 1)
                   in v OR push_bit 15 (ucast trigger AND 1)
              else v)
        in lapic_write B reg v s)"

definition apic_lvt_set_mask ::
  "'d bus \<Rightarrow> u32 \<Rightarrow> bool \<Rightarrow> ('d, 'z) apic_state_scheme \<Rightarrow> ('d, 'z) apic_state_scheme" where
  "apic_lvt_set_mask B reg masked s =
     (let (old, s) = lapic_read B reg s
      in lapic_write B reg (old AND 0xFFFEFFFF OR push_bit 16 (of_bool masked)) s)"

definition send_eoi :: "'d bus \<Rightarrow> ('d, 'z) apic_state_scheme \<Rightarrow> ('d, 'z) apic_state_scheme" where
  "send_eoi B s = for_loop 10 (\<lambda>_. lapic_write B LAPIC_EOI_REGISTER 0) s"

definition apic_timer_mode :: "'d bus \<Rightarrow> u8 \<Rightarrow> ('d, 'z) apic_state_scheme \<Rightarrow> ('d, 'z) apic_state_scheme" where
  "apic_timer_mode B mode s =
     (let (old, s) = lapic_read B LAPIC_LVT_TIMER s
      in lapic_write B LAPIC_LVT_TIMER (old AND 0xFFF9FFFF OR push_bit 17 (ucast mode AND 3)) s)"

definition apic_timer_div :: "'d bus \<Rightarrow> u8 \<Rightarrow> ('d, 'z) apic_state_scheme \<Rightarrow> ('d, 'z) apic_state_scheme" where
  "apic_timer_div B n s =
     (let (old, s) = lapic_read B APIC_TIMER_DCR s
      in lapic_write B APIC_TIMER_DCR
           (old AND 0xFFFFFFF4 OR ((ucast n AND 3) OR push_bit 1 (ucast n AND 4))) s)"

definition apic_timer_set_count :: "'d bus \<Rightarrow> u32 \<Rightarrow> ('d, 'z) apic_state_scheme \<Rightarrow> ('d, 'z) apic_state_scheme" where
  "apic_timer_set_count B n s = lapic_write B APIC_TIMER_ICR n s"

definition apic_timer_get_count :: "'d bus \<Rightarrow> ('d, 'z) apic_state_scheme \<Rightarrow> u32 \<times> ('d, 'z) apic_state_scheme" where
  "apic_timer_get_count B s = lapic_read B APIC_TIMER_CCR s"

definition apic_timer_hook :: "('d, 'z) apic_state_scheme \<Rightarrow> ('d, 'z) apic_state_scheme" where
  "apic_timer_hook s = s\<lparr>apic_sleep_in_progress := False\<rparr>"

definition save_lapic_info ::
  "u8 \<Rightarrow> u8 \<Rightarrow> u32 \<Rightarrow> ('d, 'z) apic_state_scheme \<Rightarrow> ('d, 'z) apic_state_scheme" where
  "save_lapic_info lid cid flags s =
     (if APIC_ARRAYS_LENGTH \<le> lapics_array_index s then s
      else s\<lparr>system_lapics := (system_lapics s)[unat (lapics_array_index s) :=
               \<lparr>cpu_id = cid, lapic_id = lid, lapic_flags = flags\<rparr>],
             lapics_array_index := lapics_array_index s + 1\<rparr>)"

section \<open>The I/O APICs\<close>

fun ioapic_by_irq_from :: "nat \<Rightarrow> nat \<Rightarrow> u8 \<Rightarrow> ioapic_t list \<Rightarrow> nat option" where
  "ioapic_by_irq_from i 0 n xs = None"
| "ioapic_by_irq_from i (Suc k) n xs =
     (let entry = xs ! i; gsi_base = global_system_interrupt_base entry
      in if ioapic_addr entry \<noteq> 0 \<and> gsi_base \<le> ucast n \<and> ucast n - gsi_base < ucast (max_redirections entry)
         then Some i else ioapic_by_irq_from (Suc i) k n xs)"

definition get_ioapic_by_irq :: "u8 \<Rightarrow> ('d, 'z) apic_state_scheme \<Rightarrow> ioapic_t option" where
  "get_ioapic_by_irq n s = map_option ((!) (system_ioapics s)) (ioapic_by_irq_from 0 256 n (system_ioapics s))"

definition ioapic_read ::
  "'d bus \<Rightarrow> u8 \<Rightarrow> u32 \<Rightarrow> ('d, 'z) apic_state_scheme \<Rightarrow> (u32 \<times> ('d, 'z) apic_state_scheme) option" where
  "ioapic_read B n reg s =
     (let ioapic = system_ioapics s ! unat n
      in if ioapic_id ioapic \<noteq> n then None
         else Some (read32 B (ucast (ioapic_addr ioapic + 0x10))
                (write32 B (ucast (ioapic_addr ioapic)) (reg AND 0xFF) s)))"

definition ioapic_write ::
  "'d bus \<Rightarrow> u8 \<Rightarrow> u32 \<Rightarrow> u32 \<Rightarrow> ('d, 'z) apic_state_scheme \<Rightarrow> ('d, 'z) apic_state_scheme option" where
  "ioapic_write B n reg v s =
     (let ioapic = system_ioapics s ! unat n
      in if ioapic_id ioapic \<noteq> n then None
         else Some (write32 B (ucast (ioapic_addr ioapic + 0x10)) v
                (write32 B (ucast (ioapic_addr ioapic)) (reg AND 0xFF) s)))"

definition ioapic_read_irq_entry ::
  "'d bus \<Rightarrow> u8 \<Rightarrow> ('d, 'z) apic_state_scheme \<Rightarrow> (bool \<times> u64 \<times> ('d, 'z) apic_state_scheme) option" where
  "ioapic_read_irq_entry B n s =
     (case get_ioapic_by_irq n s of None \<Rightarrow> Some (False, 0, s)
      | Some ioapic \<Rightarrow> do {
          (lo, s) \<leftarrow> ioapic_read B (ioapic_id ioapic) (0x10 + 2 * ucast n) s;
          (hi, s) \<leftarrow> ioapic_read B (ioapic_id ioapic) (0x10 + 2 * ucast n + 1) s;
          Some (True, ucast lo OR push_bit 32 (ucast hi), s) })"

definition apic_irq ::
  "'d bus \<Rightarrow> u8 \<Rightarrow> u8 \<Rightarrow> ioapic_int_delivery_mode_t \<Rightarrow> u8 \<Rightarrow> u8 \<Rightarrow> u8 \<Rightarrow> bool \<Rightarrow> u8 \<Rightarrow>
   ('d, 'z) apic_state_scheme \<Rightarrow> (bool \<times> ('d, 'z) apic_state_scheme) option" where
  "apic_irq B n int_vector del_mode dest_mode polarity trigger_mode masked destination s =
     (case get_ioapic_by_irq n s of None \<Rightarrow> Some (False, s)
      | Some ioapic \<Rightarrow> do {
          (lo, s) \<leftarrow> ioapic_read B (ioapic_id ioapic) (0x10 + 2 * ucast n) s;
          (hi, s) \<leftarrow> ioapic_read B (ioapic_id ioapic) (0x10 + 2 * ucast n + 1) s;
          let lo = lo AND 0xFFFE5000;
          let hi = hi AND 0xF0FFFFFF;
          let lo = lo OR (ucast int_vector AND 0xFF);
          let lo = lo OR push_bit 8 (delivery_code del_mode AND 7);
          let lo = lo OR push_bit 11 (ucast dest_mode AND 1);
          let lo = lo OR push_bit 13 (ucast polarity AND 1);
          let lo = lo OR push_bit 15 (ucast trigger_mode AND 1);
          let lo = lo OR push_bit 16 (of_bool masked AND 1);
          let hi = hi OR push_bit 24 (ucast destination AND 0x0F);
          s \<leftarrow> ioapic_write B (ioapic_id ioapic) (0x10 + 2 * ucast n) lo s;
          s \<leftarrow> ioapic_write B (ioapic_id ioapic) (0x10 + 2 * ucast n + 1) hi s;
          Some (True, s) })"

definition apic_clear_irq ::
  "'d bus \<Rightarrow> u8 \<Rightarrow> ('d, 'z) apic_state_scheme \<Rightarrow> (bool \<times> ('d, 'z) apic_state_scheme) option" where
  "apic_clear_irq B n s =
     (case get_ioapic_by_irq n s of None \<Rightarrow> Some (False, s)
      | Some ioapic \<Rightarrow> do {
          s \<leftarrow> ioapic_write B (ioapic_id ioapic) (0x10 + 2 * ucast n) (push_bit 16 1) s;
          s \<leftarrow> ioapic_write B (ioapic_id ioapic) (0x10 + 2 * ucast n + 1) 0 s;
          Some (True, s) })"

definition apic_set_mask ::
  "'d bus \<Rightarrow> u8 \<Rightarrow> bool \<Rightarrow> ('d, 'z) apic_state_scheme \<Rightarrow> (bool \<times> ('d, 'z) apic_state_scheme) option" where
  "apic_set_mask B n masked s =
     (case get_ioapic_by_irq n s of None \<Rightarrow> Some (False, s)
      | Some ioapic \<Rightarrow> do {
          (lo, s) \<leftarrow> ioapic_read B (ioapic_id ioapic) (0x10 + 2 * ucast n) s;
          let lo = lo AND 0xFFFEFFFF OR push_bit 16 (of_bool masked AND 1);
          s \<leftarrow> ioapic_write B (ioapic_id ioapic) (0x10 + 2 * ucast n) lo s;
          Some (True, s) })"

text \<open>\<^verbatim>\<open>ioapic_read\<close> is called while \<^verbatim>\<open>max_redirections\<close> still has its old value.\<close>

definition save_ioapic_info ::
  "'d bus \<Rightarrow> u8 \<Rightarrow> u32 \<Rightarrow> u32 \<Rightarrow> ('d, 'z) apic_state_scheme \<Rightarrow> ('d, 'z) apic_state_scheme option" where
  "save_ioapic_info B n addr gsib s = do {
     let entry = (system_ioapics s ! unat n)\<lparr>ioapic_id := n, ioapic_addr := addr, global_system_interrupt_base := gsib\<rparr>;
     let s = s\<lparr>system_ioapics := (system_ioapics s)[unat n := entry]\<rparr>;
     (v, s) \<leftarrow> ioapic_read B n 1 s;
     Some (s\<lparr>system_ioapics := (system_ioapics s)[unat n :=
       entry\<lparr>max_redirections := ucast (drop_bit 16 v AND 0xFF)\<rparr>]\<rparr>) }"

section \<open>Initialisation\<close>

definition disable_pic :: "'d bus \<Rightarrow> ('d, 'z) machine_state_scheme \<Rightarrow> ('d, 'z) machine_state_scheme" where
  "disable_pic B s = outb B MASTER_PIC_DATA 0xFF (outb B SLAVE_PIC_DATA 0xFF s)"

definition check_apic :: "'d bus \<Rightarrow> ('d, 'z) machine_state_scheme \<Rightarrow> bool" where
  "check_apic B s = (case cpuid B 1 s of (eax, ebx, ecx, edx) \<Rightarrow> drop_bit 9 edx AND 1 \<noteq> 0)"

fun clear_irqs ::
  "'d bus \<Rightarrow> nat \<Rightarrow> nat \<Rightarrow> ('d, 'z) apic_state_scheme \<Rightarrow> ('d, 'z) apic_state_scheme option" where
  "clear_irqs B i 0 s = Some s"
| "clear_irqs B i (Suc k) s = do { (_, s) \<leftarrow> apic_clear_irq B (of_nat i) s; clear_irqs B (Suc i) k s }"

definition clear_int_redirection_table ::
  "'d bus \<Rightarrow> ('d, 'z) apic_state_scheme \<Rightarrow> ('d, 'z) apic_state_scheme option" where
  "clear_int_redirection_table B s = clear_irqs B 0 256 s"

definition translates_to_itself :: "u64 \<Rightarrow> ('d, 'z) apic_state_scheme \<Rightarrow> bool" where
  "translates_to_itself a s \<longleftrightarrow> get_physical_address a s = a"

definition check_apic_addresses :: "('d, 'z) apic_state_scheme \<Rightarrow> bool" where
  "check_apic_addresses s \<longleftrightarrow>
     translates_to_itself (lapic_address s) s \<and>
     list_all (\<lambda>ioapic. ioapic_addr ioapic = 0 \<or> translates_to_itself (ucast (ioapic_addr ioapic)) s)
       (take 256 (system_ioapics s))"

text \<open>
  \<^verbatim>\<open>memclear(isr_hooks, 256 * ISR_MAX_HOOKS)\<close> clears 1024 bytes, which are the hooks of the
  first 32 vectors.
\<close>

definition init_apic ::
  "'d bus \<Rightarrow> frame \<Rightarrow> ('d, 'z) apic_state_scheme \<Rightarrow> (bool \<times> ('d, 'z) apic_state_scheme) option" where
  "init_apic B F s =
     (if \<not> check_apic B s then Some (False, s)
      else do {
        let s = disable_pic B s;
        let s = (if lapic_address s = null
          then let (lo, hi) = get_msr B 0x1B s
               in s\<lparr>lapic_address := ucast lo OR push_bit 32 (ucast hi AND 0x0F)\<rparr>
          else s);
        let s = (if lapic_address s = null then s\<lparr>lapic_address := DEFAULT_LAPIC_ADDRESS\<rparr> else s);
        if \<not> check_apic_addresses s
        then do {
          s \<leftarrow> kprintf F (''LAPIC or I/O APIC(s) addresses are not mapped in virtual memory'' @ [CHR 10]) [] s;
          Some (False, s) }
        else do {
          s \<leftarrow> clear_int_redirection_table B s;
          let s = lapic_set_lvt_entry B LAPIC_LVT_TIMER 0x19 1 0 True s;
          let s = lapic_set_lvt_entry B LAPIC_LVT_LINT0 0x2 1 0 False s;
          let s = lapic_set_lvt_entry B LAPIC_LVT_LINT1 0x2 1 0 False s;
          let (v, s) = lapic_read B LAPIC_SIV_REGISTER s;
          let s = lapic_write B LAPIC_SIV_REGISTER (v OR 0x100) s;
          let s = s\<lparr>apic_sleep_ready := False, apic_timer_frequency := 0, apic_sleep_in_progress := False\<rparr>;
          Some (True, s\<lparr>isr_hooks := replicate 32 (replicate 4 null) @ drop 32 (isr_hooks s)\<rparr>) } })"

end
