(* ===== verification/Timers.thy ===== *)
theory Timers
  imports Apic
begin

text \<open>
  The programmable interval timer of \<^verbatim>\<open>io/pit.c\<close>, the waiting of \<^verbatim>\<open>sleep.c\<close>, the timer
  functions of \<^verbatim>\<open>int/apic.c\<close> and the clock of \<^verbatim>\<open>io/rtc.c\<close>.

  While the kernel waits for an interrupt it only tests a flag.  \<open>idle\<close> stands for what
  happens to the state between two tests; a wait that never ends is \<open>None\<close>.
\<close>

record 'd timer_state = "'d apic_state" +
  pit_ready :: bool
  sleep_in_progress :: bool

definition PIT_CHANNEL0_DATA_PORT :: u8 where [c_macros]: "PIT_CHANNEL0_DATA_PORT = 0x40"
definition PIT_CHANNEL1_DATA_PORT :: u8 where [c_macros]: "PIT_CHANNEL1_DATA_PORT = 0x41"
definition PIT_CHANNEL2_DATA_PORT :: u8 where [c_macros]: "PIT_CHANNEL2_DATA_PORT = 0x42"
definition PIT_MODE_COMMAND_REGISTER_PORT :: u16 where [c_macros]: "PIT_MODE_COMMAND_REGISTER_PORT = 0x43"
definition PIT_IRQ :: u8 where [c_macros]: "PIT_IRQ = 2"
definition PIT_COMM_BIN :: u8 where [c_macros]: "PIT_COMM_BIN = 0"
definition PIT_COMM_RATE_GENERATOR :: u8 where [c_macros]: "PIT_COMM_RATE_GENERATOR = push_bit 1 2"
definition PIT_COMM_LOBYTE_HIBYTE :: u8 where [c_macros]: "PIT_COMM_LOBYTE_HIBYTE = push_bit 4 3"
definition PIT_COMM_CHANNEL0 :: u8 where [c_macros]: "PIT_COMM_CHANNEL0 = push_bit 6 0"

section \<open>pit.c\<close>

definition init_pit :: "'d bus \<Rightarrow> ('d, 'z) timer_state_scheme \<Rightarrow> ('d, 'z) timer_state_scheme option" where
  "init_pit B s = do {
     (ok, s) \<leftarrow> apic_irq B PIT_IRQ 0x17 fixed_mode 0 0 0 True 0 s;
     Some (if ok then s\<lparr>pit_ready := True\<rparr> else s) }"

definition pit_command :: "'d bus \<Rightarrow> u8 \<Rightarrow> ('d, 'z) timer_state_scheme \<Rightarrow> ('d, 'z) timer_state_scheme" where
  "pit_command B command s = (if \<not> pit_ready s then s else outb B PIT_MODE_COMMAND_REGISTER_PORT command s)"

definition pit_write :: "'d bus \<Rightarrow> u8 \<Rightarrow> u8 \<Rightarrow> ('d, 'z) timer_state_scheme \<Rightarrow> ('d, 'z) timer_state_scheme" where
  "pit_write B channel v s =
     (if \<not> pit_ready s then s
      else if channel = 0 then outb B (ucast PIT_CHANNEL0_DATA_PORT) v s
      else if channel = 1 then outb B (ucast PIT_CHANNEL1_DATA_PORT) v s
      else if channel = 2 then outb B (ucast PIT_CHANNEL2_DATA_PORT) v s
      else s)"

definition pit_run :: "'d bus \<Rightarrow> ('d, 'z) timer_state_scheme \<Rightarrow> ('d, 'z) timer_state_scheme option" where
  "pit_run B s = (if \<not> pit_ready s then Some s else do { (_, s) \<leftarrow> apic_set_mask B PIT_IRQ False s; Some s })"

definition pit_stop :: "'d bus \<Rightarrow> ('d, 'z) timer_state_scheme \<Rightarrow> ('d, 'z) timer_state_scheme option" where
  "pit_stop B s = (if \<not> pit_ready s then Some s else do { (_, s) \<leftarrow> apic_set_mask B PIT_IRQ True s; Some s })"

section \<open>Waiting\<close>

partial_function (option) wait_while :: "('s \<Rightarrow> bool) \<Rightarrow> ('s \<Rightarrow> 's option) \<Rightarrow> 's \<Rightarrow> 's option" where
  "wait_while flag idle s = (if flag s then do { s \<leftarrow> idle s; wait_while flag idle s } else Some s)"

definition sleep_notify :: "('d, 'z) timer_state_scheme \<Rightarrow> ('d, 'z) timer_state_scheme" where
  "sleep_notify s = s\<lparr>sleep_in_progress := False\<rparr>"

fun sleep_ticks ::
  "(('d, 'z) timer_state_scheme \<Rightarrow> ('d, 'z) timer_state_scheme option) \<Rightarrow> nat \<Rightarrow>
   ('d, 'z) timer_state_scheme \<Rightarrow> ('d, 'z) timer_state_scheme option" where
  "sleep_ticks idle 0 s = Some s"
| "sleep_ticks idle (Suc n) s = do {
     s \<leftarrow> wait_while sleep_in_progress idle (s\<lparr>sleep_in_progress := True\<rparr>);
     sleep_ticks idle n s }"

text \<open>
  \<open>notify\<close> is the address of \<^verbatim>\<open>sleep_notify\<close>, and \<open>idle\<close> is what happens between two tests of
  \<^verbatim>\<open>sleep_in_progress\<close>: interrupts arrive there and nowhere else.  As \<open>idle\<close> is an argument, the
  mask bit that \<^verbatim>\<open>pit_run\<close> and \<^verbatim>\<open>pit_stop\<close> set does not decide whether a tick arrives.
\<close>

definition sleep ::
  "'d bus \<Rightarrow> (('d, 'z) timer_state_scheme \<Rightarrow> ('d, 'z) timer_state_scheme option) \<Rightarrow> u64 \<Rightarrow> u16 \<Rightarrow>
   ('d, 'z) timer_state_scheme \<Rightarrow> (bool \<times> ('d, 'z) timer_state_scheme) option" where
  "sleep B idle notify ms s =
     (if \<not> pit_ready s then Some (False, s)
      else if ms = 0 then Some (True, s)
      else
        let (hook_n, s) = int_hook 0x17 notify s
        in if hook_n = 0xFF then Some (False, s)
           else do {
             let s = pit_command B (PIT_COMM_BIN OR PIT_COMM_RATE_GENERATOR OR PIT_COMM_CHANNEL0 OR PIT_COMM_LOBYTE_HIBYTE) s;
             let s = pit_write B 0 0xA6 s;
             let s = pit_write B 0 0x04 s;
             s \<leftarrow> pit_run B s;
             s \<leftarrow> sleep_ticks idle (unat ms) s;
             s \<leftarrow> pit_stop B s;
             Some (int_unhook 0x17 hook_n s) })"

section \<open>The APIC timer\<close>

fun apic_sleep_ticks ::
  "'d bus \<Rightarrow> (('d, 'z) timer_state_scheme \<Rightarrow> ('d, 'z) timer_state_scheme option) \<Rightarrow> nat \<Rightarrow>
   ('d, 'z) timer_state_scheme \<Rightarrow> ('d, 'z) timer_state_scheme option" where
  "apic_sleep_ticks B idle 0 s = Some s"
| "apic_sleep_ticks B idle (Suc n) s = do {
     let s = s\<lparr>apic_sleep_in_progress := True\<rparr>;
     s \<leftarrow> wait_while apic_sleep_in_progress idle (apic_timer_set_count B (apic_timer_frequency s) s);
     apic_sleep_ticks B idle n s }"

definition apic_sleep ::
  "'d bus \<Rightarrow> (('d, 'z) timer_state_scheme \<Rightarrow> ('d, 'z) timer_state_scheme option) \<Rightarrow> u64 \<Rightarrow> u32 \<Rightarrow>
   ('d, 'z) timer_state_scheme \<Rightarrow> ('d, 'z) timer_state_scheme option" where
  "apic_sleep B idle hook ms s =
     (if \<not> apic_sleep_ready s then Some s
      else do {
        let s = apic_timer_div B LAPIC_TIMER_DIV1 s;
        let s = apic_timer_mode B LAPIC_TIMER_PERIODIC_MODE s;
        let s = apic_lvt_set_mask B LAPIC_LVT_TIMER False s;
        let (hook_n, s) = int_hook 0x19 hook s;
        s \<leftarrow> apic_sleep_ticks B idle (unat ms) s;
        let (_, s) = int_unhook 0x19 hook_n s;
        Some (apic_lvt_set_mask B LAPIC_LVT_TIMER True s) })"

fun measure_ticks ::
  "'d bus \<Rightarrow> (('d, 'z) timer_state_scheme \<Rightarrow> ('d, 'z) timer_state_scheme option) \<Rightarrow> u64 \<Rightarrow> nat \<Rightarrow> u64 \<Rightarrow>
   ('d, 'z) timer_state_scheme \<Rightarrow> (u64 \<times> ('d, 'z) timer_state_scheme) option" where
  "measure_ticks B idle notify 0 avg s = Some (avg, s)"
| "measure_ticks B idle notify (Suc n) avg s = do {
     let s = apic_timer_set_count B 0xFFFFFFFF s;
     (_, s) \<leftarrow> sleep B idle notify 1 s;
     let (now, s) = apic_timer_get_count B s;
     measure_ticks B idle notify n (avg + ucast (0xFFFFFFFF - now)) s }"

definition apic_timer_init ::
  "'d bus \<Rightarrow> (('d, 'z) timer_state_scheme \<Rightarrow> ('d, 'z) timer_state_scheme option) \<Rightarrow> u64 \<Rightarrow>
   ('d, 'z) timer_state_scheme \<Rightarrow> ('d, 'z) timer_state_scheme option" where
  "apic_timer_init B idle notify s = do {
     let s = apic_timer_div B LAPIC_TIMER_DIV1 s;
     let s = apic_timer_mode B LAPIC_TIMER_PERIODIC_MODE s;
     let s = apic_lvt_set_mask B LAPIC_LVT_TIMER False s;
     (avg, s) \<leftarrow> measure_ticks B idle notify 100 0 s;
     let s = apic_lvt_set_mask B LAPIC_LVT_TIMER True s;
     Some (s\<lparr>apic_timer_frequency := ucast (avg div 100), apic_sleep_ready := True\<rparr>) }"

section \<open>rtc.c\<close>

record time_t =
  millisecond :: u8
  second :: u8
  minute :: u8
  hour :: u8

record date_t =
  week_day :: u8
  month_day :: u8
  month :: u8
  year :: u16
  century :: u16

record timedate_t =
  td_time :: time_t
  td_date :: date_t

definition CMOS_SELECT_PORT :: u16 where [c_macros]: "CMOS_SELECT_PORT = 0x70"
definition CMOS_DATA_PORT :: u16 where [c_macros]: "CMOS_DATA_PORT = 0x71"
definition CMOS_SECONDS_REGISTER :: u8 where [c_macros]: "CMOS_SECONDS_REGISTER = 0x00"
definition CMOS_MINUTES_REGISTER :: u8 where [c_macros]: "CMOS_MINUTES_REGISTER = 0x02"
definition CMOS_HOURS_REGISTER :: u8 where [c_macros]: "CMOS_HOURS_REGISTER = 0x04"
definition CMOS_WEEK_DAY_REGISTER :: u8 where [c_macros]: "CMOS_WEEK_DAY_REGISTER = 0x06"
definition CMOS_MONTH_DAY_REGISTER :: u8 where [c_macros]: "CMOS_MONTH_DAY_REGISTER = 0x07"
definition CMOS_MONTH_REGISTER :: u8 where [c_macros]: "CMOS_MONTH_REGISTER = 0x08"
definition CMOS_YEAR_REGISTER :: u8 where [c_macros]: "CMOS_YEAR_REGISTER = 0x09"
definition CMOS_CENTURY_REGISTER :: u8 where [c_macros]: "CMOS_CENTURY_REGISTER = 0x32"
definition CMOS_STATUS_A_REGISTER :: u8 where [c_macros]: "CMOS_STATUS_A_REGISTER = 0x0A"
definition CMOS_STATUS_B_REGISTER :: u8 where [c_macros]: "CMOS_STATUS_B_REGISTER = 0x0B"
definition RTC_BASE_YEAR :: u16 where [c_macros]: "RTC_BASE_YEAR = 2000"

definition BCD_TO_BINARY_BYTE :: "u8 \<Rightarrow> u8" where
  "BCD_TO_BINARY_BYTE n = ((n AND 0x0F) + ((n AND 0x70) div 16) * 10) OR (n AND 0x80)"

definition cmos_read_register ::
  "'d bus \<Rightarrow> u8 \<Rightarrow> ('d, 'z) machine_state_scheme \<Rightarrow> u8 \<times> ('d, 'z) machine_state_scheme" where
  "cmos_read_register B reg s =
     inb B CMOS_DATA_PORT (outb B CMOS_SELECT_PORT (reg OR push_bit 7 (of_bool (\<not> nmi_enabled s))) s)"

text \<open>Without the inversion; the missing \<^verbatim>\<open>return\<close> does not matter as nobody calls it.\<close>

definition cmos_write_register ::
  "'d bus \<Rightarrow> u8 \<Rightarrow> u8 \<Rightarrow> ('d, 'z) machine_state_scheme \<Rightarrow> ('d, 'z) machine_state_scheme" where
  "cmos_write_register B reg v s =
     outb B CMOS_DATA_PORT v (outb B CMOS_SELECT_PORT (reg OR push_bit 7 (of_bool (nmi_enabled s))) s)"

definition cmos_update_in_progress ::
  "'d bus \<Rightarrow> ('d, 'z) machine_state_scheme \<Rightarrow> bool \<times> ('d, 'z) machine_state_scheme" where
  "cmos_update_in_progress B s =
     (let (v, s) = cmos_read_register B CMOS_STATUS_A_REGISTER s in (drop_bit 7 v AND 1 \<noteq> 0, s))"

partial_function (option) cmos_wait ::
  "'d bus \<Rightarrow> ('d, 'z) machine_state_scheme \<Rightarrow> ('d, 'z) machine_state_scheme option" where
  "cmos_wait B s =
     (case cmos_update_in_progress B s of (busy, s) \<Rightarrow> if busy then cmos_wait B s else Some s)"

definition rtc_read_timedate ::
  "'d bus \<Rightarrow> ('d, 'z) machine_state_scheme \<Rightarrow> (timedate_t \<times> ('d, 'z) machine_state_scheme) option" where
  "rtc_read_timedate B s = do {
     let (status_b, s) = cmos_read_register B CMOS_STATUS_B_REGISTER s;
     let binary = (drop_bit 2 status_b AND 1 \<noteq> 0);
     s \<leftarrow> cmos_wait B s;
     let (sec, s) = cmos_read_register B CMOS_SECONDS_REGISTER s;
     let (min, s) = cmos_read_register B CMOS_MINUTES_REGISTER s;
     let (hr, s) = cmos_read_register B CMOS_HOURS_REGISTER s;
     let (wd, s) = cmos_read_register B CMOS_WEEK_DAY_REGISTER s;
     let (md, s) = cmos_read_register B CMOS_MONTH_DAY_REGISTER s;
     let (mon, s) = cmos_read_register B CMOS_MONTH_REGISTER s;
     let (yr, s) = cmos_read_register B CMOS_YEAR_REGISTER s;
     let (cen, s) = cmos_read_register B CMOS_CENTURY_REGISTER s;
     let conv = (if \<not> binary then BCD_TO_BINARY_BYTE else (\<lambda>n. n));
     Some (\<lparr>td_time = \<lparr>millisecond = 0, second = conv sec, minute = conv min, hour = conv hr\<rparr>,
            td_date = \<lparr>week_day = wd, month_day = conv md, month = conv mon,
              year = RTC_BASE_YEAR + ucast (conv yr), century = ucast (conv cen)\<rparr>\<rparr>, s) }"

end
