(* ===== verification/Keyboard.thy ===== *)
theory Keyboard
  imports Timers
begin

text \<open>
  The keyboard and the command line: the scancodes of \<^verbatim>\<open>io/ps2_keyboard.c\<close>, the key codes
  and the keyboard status of \<^verbatim>\<open>io/keyboard.c\<close>, the character tables of \<^verbatim>\<open>keymappings.c\<close>,
  and the terminal of \<^verbatim>\<open>tty/term.c\<close>, which \<^verbatim>\<open>keypressed\<close> calls.
\<close>

section \<open>Key codes\<close>

definition KEYCODE_NULL :: u8 where [c_macros]: "KEYCODE_NULL = 0"
definition KEYCODE_LSHIFT_DOWN :: u8 where [c_macros]: "KEYCODE_LSHIFT_DOWN = 1"
definition KEYCODE_RSHIFT_DOWN :: u8 where [c_macros]: "KEYCODE_RSHIFT_DOWN = 2"
definition KEYCODE_LSHIFT_UP :: u8 where [c_macros]: "KEYCODE_LSHIFT_UP = 3"
definition KEYCODE_RSHIFT_UP :: u8 where [c_macros]: "KEYCODE_RSHIFT_UP = 4"
definition KEYCODE_LCTRL_DOWN :: u8 where [c_macros]: "KEYCODE_LCTRL_DOWN = 5"
definition KEYCODE_RCTRL_DOWN :: u8 where [c_macros]: "KEYCODE_RCTRL_DOWN = 6"
definition KEYCODE_LCTRL_UP :: u8 where [c_macros]: "KEYCODE_LCTRL_UP = 7"
definition KEYCODE_RCTRL_UP :: u8 where [c_macros]: "KEYCODE_RCTRL_UP = 11"
definition KEYCODE_ALT_DOWN :: u8 where [c_macros]: "KEYCODE_ALT_DOWN = 12"
definition KEYCODE_ALT_UP :: u8 where [c_macros]: "KEYCODE_ALT_UP = 14"
definition KEYCODE_ALTGR_DOWN :: u8 where [c_macros]: "KEYCODE_ALTGR_DOWN = 15"
definition KEYCODE_ALTGR_UP :: u8 where [c_macros]: "KEYCODE_ALTGR_UP = 16"
definition KEYCODE_CAPS_LOCK :: u8 where [c_macros]: "KEYCODE_CAPS_LOCK = 21"
definition KEYCODE_BACKSPACE :: u8 where [c_macros]: "KEYCODE_BACKSPACE = 8"
definition KEYCODE_TAB :: u8 where [c_macros]: "KEYCODE_TAB = 9"
definition KEYCODE_LINE_FEED :: u8 where [c_macros]: "KEYCODE_LINE_FEED = 10"
definition KEYCODE_CARRIAGE_RETURN :: u8 where [c_macros]: "KEYCODE_CARRIAGE_RETURN = 13"
definition KEYCODE_UP_ARROW :: u8 where [c_macros]: "KEYCODE_UP_ARROW = 17"
definition KEYCODE_RIGHT_ARROW :: u8 where [c_macros]: "KEYCODE_RIGHT_ARROW = 18"
definition KEYCODE_DOWN_ARROW :: u8 where [c_macros]: "KEYCODE_DOWN_ARROW = 19"
definition KEYCODE_LEFT_ARROW :: u8 where [c_macros]: "KEYCODE_LEFT_ARROW = 20"
definition KEYCODE_CANCEL :: u8 where [c_macros]: "KEYCODE_CANCEL = 24"
definition KEYCODE_ESCAPE :: u8 where [c_macros]: "KEYCODE_ESCAPE = 27"
definition KEYCODE_DEL :: u8 where [c_macros]: "KEYCODE_DEL = 127"

definition IS_KEYBOARD_CONTROL :: "u8 \<Rightarrow> bool" where
  "IS_KEYBOARD_CONTROL c \<longleftrightarrow> 1 \<le> c \<and> c \<le> 7 \<or> 11 \<le> c \<and> c \<le> 12 \<or> 14 \<le> c \<and> c \<le> 16 \<or> c = 21"

definition IS_TERMINAL_CONTROL :: "u8 \<Rightarrow> bool" where
  "IS_TERMINAL_CONTROL c \<longleftrightarrow> 8 \<le> c \<and> c \<le> 10 \<or> c = 13 \<or> 17 \<le> c \<and> c \<le> 20 \<or> c = 24 \<or> c = 27 \<or> c = 127"

definition IS_PRINTABLE :: "u8 \<Rightarrow> bool" where
  "IS_PRINTABLE c \<longleftrightarrow> \<not> IS_KEYBOARD_CONTROL c \<and> \<not> IS_TERMINAL_CONTROL c \<and> c < 128"

definition keyboard_codes :: "u8 list" where
  "keyboard_codes =
    [KEYCODE_ESCAPE, 49, 50, 51, 52, 53, 54, 55,
     56, 57, 48, 39, 105, KEYCODE_BACKSPACE, KEYCODE_TAB, 113,
     119, 101, 114, 116, 121, 117, 105, 111,
     112, 101, 43, KEYCODE_LINE_FEED, KEYCODE_LCTRL_DOWN, 97, 115, 100,
     102, 103, 104, 106, 107, 108, 111, 97,
     117, KEYCODE_LSHIFT_DOWN, 60, 122, 120, 99, 118, 98,
     110, 109, 44, 46, 45, KEYCODE_RSHIFT_DOWN, 42, KEYCODE_ALT_DOWN,
     32, KEYCODE_CAPS_LOCK, 55, 56, 57, 45, 52, 53,
     54, 43, 49, 50, 51, 48, 46, KEYCODE_LCTRL_UP,
     KEYCODE_LSHIFT_UP, KEYCODE_RSHIFT_UP, KEYCODE_ALT_UP]"

definition keyboard_shift_codes :: "u8 list" where
  "keyboard_shift_codes =
    [0, 33, 34, 0, 36, 37, 38, 47, 40, 41, 61, 63, 94, 0, 0, 81,
     87, 69, 82, 84, 89, 79, 80, 101, 42, 0, 0, 65, 83, 68, 70, 71,
     72, 74, 75, 76, 67, 0, 0, 0, 62, 90, 88, 67, 86, 66, 78, 77,
     59, 58, 95, 0, 0, 0, 0, 0, 0, 0, 0, 0, 0, 0, 0, 0,
     0, 0, 0, 0, 0, 0, 0, 0, 0]"

definition us_qwerty_map :: "u8 list" where
  "us_qwerty_map =
    [0, 27, 49, 50, 51, 52, 53, 54, 55, 56, 57, 48, 45, 61, 8, 32,
     81, 87, 69, 82, 84, 89, 85, 73, 79, 80, 91, 93, 13, 0, 65, 83,
     68, 70, 71, 72, 106, 75, 76, 59, 39, 0, 0, 92, 90, 88, 67, 86,
     66, 78, 77, 44, 46, 47, 0, 42, 0, 32, 17]"

section \<open>Scancodes\<close>

definition PS2_EXT_SCANCODE :: u8 where [c_macros]: "PS2_EXT_SCANCODE = 0xE0"

text \<open>An index outside the table is undefined.\<close>

definition key_at :: "u8 \<Rightarrow> u8 option" where
  "key_at i = (if unat i < length keyboard_codes then Some (keyboard_codes ! unat i) else None)"

definition ps2_switch_scancode :: "u8 \<Rightarrow> u8 option" where
  "ps2_switch_scancode sc =
     (if 1 \<le> sc \<and> sc \<le> 0x3A then key_at (sc - 1)
      else if 0x47 \<le> sc \<and> sc \<le> 0x53 then key_at (sc - 0x47)
      else if sc = 0x9D then Some KEYCODE_LCTRL_UP
      else if sc = 0xAA then Some KEYCODE_LSHIFT_UP
      else if sc = 0xB6 then Some KEYCODE_RSHIFT_UP
      else if sc = 0xB8 then Some KEYCODE_ALT_UP
      else Some 0)"

definition ps2_switch_ext_scancode :: "u8 \<Rightarrow> u8" where
  "ps2_switch_ext_scancode sc =
     (if sc = 0x38 then KEYCODE_ALTGR_DOWN
      else if sc = 0xB8 then KEYCODE_ALTGR_UP
      else if sc = 0x1D then KEYCODE_RCTRL_DOWN
      else if sc = 0x9D then KEYCODE_RCTRL_UP
      else 0)"

section \<open>The state\<close>

datatype keyboard_layout_type_t = no_layout | us_qwerty

text \<open>The map of a layout has 95 characters; the code does not use it.\<close>

record keyboard_layout_t =
  layout_type :: keyboard_layout_type_t
  layout_map :: "u8 list"

datatype keyboard_source_t = ps2 | usb | bluetooth

record keyboard_status_t =
  capslock :: bool
  numlock :: bool
  scroll_lock :: bool
  shift :: bool
  ctrl :: bool
  altgr :: bool
  alt :: bool
  fn_key :: bool
  key_layout :: keyboard_layout_t
  key_source :: keyboard_source_t

record 'd keyboard_state = "'d timer_state" +
  prev_ext :: bool
  ks :: keyboard_status_t
  keyboard_ready :: bool
  keyboard_wait_in_progress :: bool
  command_ready :: bool
  term_command :: u64

definition ps2_in :: "'d bus \<Rightarrow> ('d, 'z) keyboard_state_scheme \<Rightarrow> (u8 \<times> ('d, 'z) keyboard_state_scheme) option" where
  "ps2_in B s =
     (let (status, s) = inb B 0x64 s
      in if status AND 1 = 0 then Some (0, s)
         else
           let (scancode, s) = inb B 0x60 s
           in if scancode = PS2_EXT_SCANCODE then Some (0, s\<lparr>prev_ext := True\<rparr>)
              else if prev_ext s then Some (ps2_switch_ext_scancode scancode, s\<lparr>prev_ext := False\<rparr>)
              else do { code \<leftarrow> ps2_switch_scancode scancode; Some (code, s) })"

section \<open>The command line\<close>

definition TERMINAL_COMMAND_LENGTH :: u64 where [c_macros]: "TERMINAL_COMMAND_LENGTH = 128"
definition CLEAR_SCREEN_ON_TERMINAL_START :: bool where [c_macros]: "CLEAR_SCREEN_ON_TERMINAL_START = False"

definition term_control :: "u8 \<Rightarrow> ('d, 'z) keyboard_state_scheme \<Rightarrow> ('d, 'z) keyboard_state_scheme option" where
  "term_control code s = do {
     s \<leftarrow> assert_true (IS_TERMINAL_CONTROL code) s;
     if code = KEYCODE_LINE_FEED then do {
       (_, s) \<leftarrow> file_read STDIN_FILENO (term_command s) TERMINAL_COMMAND_LENGTH s;
       Some (s\<lparr>command_ready := True\<rparr>) }
     else if code = KEYCODE_BACKSPACE then do {
       (_, s) \<leftarrow> file_read STDIN_FILENO null 1 (tty_backspace s);
       Some s }
     else Some s }"

text \<open>The character a key stands for under the status of the keyboard.\<close>

definition interpret_key :: "keyboard_status_t \<Rightarrow> u8 \<Rightarrow> u8" where
  "interpret_key k c =
     (if (capslock k \<or> shift k) \<and> 97 \<le> sint c \<and> sint c \<le> 122 then c - 32
      else if altgr k then if c = 111 then 64 else if c = 97 then 35 else c
      else c)"

definition term_putc ::
  "frame \<Rightarrow> u8 \<Rightarrow> ('d, 'z) keyboard_state_scheme \<Rightarrow> ('d, 'z) keyboard_state_scheme option" where
  "term_putc F c s = do {
     s \<leftarrow> assert_true (IS_PRINTABLE c) s;
     let c = interpret_key (ks s) c;
     s \<leftarrow> kprintf F ''%c'' [ucast c] s;
     (_, s) \<leftarrow> file_write STDIN_FILENO (local_char F) 1 (s\<lparr>vmem := (vmem s)(local_char F := c)\<rparr>);
     Some s }"

text \<open>The start of \<^verbatim>\<open>init_terminal\<close>, and one turn of its endless loop.\<close>

definition terminal_start :: "('d, 'z) keyboard_state_scheme \<Rightarrow> ('d, 'z) keyboard_state_scheme option" where
  "terminal_start s = do {
     let s = (if CLEAR_SCREEN_ON_TERMINAL_START then tty_clear s else s);
     (p, s) \<leftarrow> kmalloc TERMINAL_COMMAND_LENGTH s;
     Some (s\<lparr>term_command := p, command_ready := False, vmem := memclear p TERMINAL_COMMAND_LENGTH (vmem s)\<rparr>) }"

definition terminal_turn ::
  "frame \<Rightarrow> (('d, 'z) keyboard_state_scheme \<Rightarrow> ('d, 'z) keyboard_state_scheme option) \<Rightarrow>
   ('d, 'z) keyboard_state_scheme \<Rightarrow> ('d, 'z) keyboard_state_scheme option" where
  "terminal_turn F idle s = do {
     let s = set_tty_char_fg (push_bit 16 51 OR push_bit 8 153 OR 0) s;
     s \<leftarrow> kprintf F ''%s'' [prompt F] s;
     let s = set_tty_char_fg TTY_COLOR_WHITE s;
     s \<leftarrow> kprintf F ''%c '' [35] s;
     s \<leftarrow> wait_while (\<lambda>s. \<not> command_ready s) idle s;
     s \<leftarrow> kprintf F (CHR 10 # ''%s'' @ [CHR 10]) [term_command s] s;
     Some (s\<lparr>vmem := memclear (term_command s) TERMINAL_COMMAND_LENGTH (vmem s), command_ready := False\<rparr>) }"

section \<open>keyboard.c\<close>

text \<open>\<^verbatim>\<open>init_keyboard\<close> has no \<^verbatim>\<open>return\<close>; its only caller does not use the result.\<close>

definition init_keyboard ::
  "'d bus \<Rightarrow> ('d, 'z) keyboard_state_scheme \<Rightarrow> ('d, 'z) keyboard_state_scheme option" where
  "init_keyboard B s = do {
     let s = s\<lparr>ks := (ks s)\<lparr>capslock := False, numlock := False, scroll_lock := False, shift := False, ctrl := False,
               altgr := False, alt := False, fn_key := False, key_source := ps2\<rparr>\<rparr>;
     (_, s) \<leftarrow> apic_irq B 1 0x18 fixed_mode 0 0 0 False 0 s;
     Some (s\<lparr>keyboard_ready := True\<rparr>) }"

definition keyboard_status_after :: "u8 \<Rightarrow> keyboard_status_t \<Rightarrow> keyboard_status_t" where
  "keyboard_status_after c k =
     (if c = KEYCODE_LSHIFT_DOWN \<or> c = KEYCODE_RSHIFT_DOWN then k\<lparr>shift := True\<rparr>
      else if c = KEYCODE_LSHIFT_UP \<or> c = KEYCODE_RSHIFT_UP then k\<lparr>shift := False\<rparr>
      else if c = KEYCODE_LCTRL_DOWN \<or> c = KEYCODE_RCTRL_DOWN then k\<lparr>ctrl := True\<rparr>
      else if c = KEYCODE_LCTRL_UP \<or> c = KEYCODE_RCTRL_UP then k\<lparr>ctrl := False\<rparr>
      else if c = KEYCODE_ALT_DOWN then k\<lparr>alt := True\<rparr>
      else if c = KEYCODE_ALT_UP then k\<lparr>alt := False\<rparr>
      else if c = KEYCODE_ALTGR_DOWN then k\<lparr>altgr := True\<rparr>
      else if c = KEYCODE_ALTGR_UP then k\<lparr>altgr := False\<rparr>
      else if c = KEYCODE_CAPS_LOCK then k\<lparr>capslock := \<not> capslock k\<rparr>
      else k)"

definition keyboard_control :: "u8 \<Rightarrow> ('d, 'z) keyboard_state_scheme \<Rightarrow> ('d, 'z) keyboard_state_scheme" where
  "keyboard_control c s = (if \<not> IS_KEYBOARD_CONTROL c then s else s\<lparr>ks := keyboard_status_after c (ks s)\<rparr>)"

definition keypressed ::
  "frame \<Rightarrow> u8 \<Rightarrow> ('d, 'z) keyboard_state_scheme \<Rightarrow> ('d, 'z) keyboard_state_scheme option" where
  "keypressed F code s =
     (if \<not> keyboard_ready s \<or> code = 0 then Some s
      else if IS_PRINTABLE code then term_putc F code s
      else if IS_KEYBOARD_CONTROL code then Some (keyboard_control code s)
      else if IS_TERMINAL_CONTROL code then term_control code s
      else Some s)"

definition keyboard_wait_handler :: "('d, 'z) keyboard_state_scheme \<Rightarrow> ('d, 'z) keyboard_state_scheme" where
  "keyboard_wait_handler s = s\<lparr>keyboard_wait_in_progress := False\<rparr>"

text \<open>\<open>handler\<close> is the address of \<^verbatim>\<open>keyboard_wait_handler\<close>.\<close>

definition keyboard_wait ::
  "frame \<Rightarrow> (('d, 'z) keyboard_state_scheme \<Rightarrow> ('d, 'z) keyboard_state_scheme option) \<Rightarrow> u64 \<Rightarrow> u64 \<Rightarrow>
   ('d, 'z) keyboard_state_scheme \<Rightarrow> ('d, 'z) keyboard_state_scheme option" where
  "keyboard_wait F idle handler msg s = do {
     s \<leftarrow> (if msg \<noteq> null then kprintf F (''%s'' @ [CHR 10]) [msg] s else Some s);
     let s = s\<lparr>keyboard_wait_in_progress := True\<rparr>;
     let (hook_n, s) = int_hook 0x18 handler s;
     s \<leftarrow> kprintf F (''hook n %d'' @ [CHR 10]) [ucast hook_n] s;
     s \<leftarrow> wait_while keyboard_wait_in_progress idle s;
     let (_, s) = int_unhook 0x18 hook_n s;
     Some s }"

end
