(* ===== verification/Acpi.thy ===== *)
theory Acpi
  imports Keyboard
begin

text \<open>
  The ACPI tables and their parser, \<^verbatim>\<open>acpi/acpi_parser.c\<close>.  The tables lie in memory and are
  read at the offsets of the packed structures of \<^verbatim>\<open>acpi/include/acpi.h\<close>.
\<close>

record 'd acpi_state = "'d keyboard_state" +
  acpi_xsdt :: u64
  acpi_fadt :: u64
  acpi_madt :: u64
  acpi_dsdt :: u64
  acpi_facs :: u64
  machine_type :: u8
  acpi_manager_ready :: bool

section \<open>The tables\<close>

record acpi_table_header =
  signature :: "u8 list"
  table_length :: u32
  revision :: u8
  checksum :: u8
  OEMID :: "u8 list"
  OEMTableID :: "u8 list"
  OEMRevision :: u32
  creatorID :: u32
  creatorRevision :: u32

definition header_at :: "memory \<Rightarrow> u64 \<Rightarrow> acpi_table_header" where
  "header_at m a = \<lparr>signature = read_bytes m a 4, table_length = load_le 4 m (a + 4), revision = m (a + 8),
     checksum = m (a + 9), OEMID = read_bytes m (a + 10) 6, OEMTableID = read_bytes m (a + 16) 8,
     OEMRevision = load_le 4 m (a + 24), creatorID = load_le 4 m (a + 28), creatorRevision = load_le 4 m (a + 32)\<rparr>"

text \<open>The size of the packed header, and the fields of the FADT and the MADT that are used.\<close>

definition HEADER_SIZE :: u64 where [c_macros]: "HEADER_SIZE = 36"
definition MADT_SIZE :: u64 where [c_macros]: "MADT_SIZE = 44"

definition fadt_firmware_ctrl :: "memory \<Rightarrow> u64 \<Rightarrow> u32" where "fadt_firmware_ctrl m a = load_le 4 m (a + 36)"
definition fadt_preferred_pm_profile :: "memory \<Rightarrow> u64 \<Rightarrow> u8" where "fadt_preferred_pm_profile m a = m (a + 45)"
definition fadt_x_firmware_ctrl :: "memory \<Rightarrow> u64 \<Rightarrow> u64" where "fadt_x_firmware_ctrl m a = load_le 8 m (a + 132)"
definition fadt_x_dsdt :: "memory \<Rightarrow> u64 \<Rightarrow> u64" where "fadt_x_dsdt m a = load_le 8 m (a + 140)"
definition madt_local_apic_addr :: "memory \<Rightarrow> u64 \<Rightarrow> u32" where "madt_local_apic_addr m a = load_le 4 m (a + 36)"

record acpi_madt_entry_lapic =
  me_acpi_cpu_id :: u8
  me_apic_id :: u8
  me_flags :: u32

definition madt_lapic_at :: "memory \<Rightarrow> u64 \<Rightarrow> acpi_madt_entry_lapic" where
  "madt_lapic_at m a = \<lparr>me_acpi_cpu_id = m (a + 2), me_apic_id = m (a + 3), me_flags = load_le 4 m (a + 4)\<rparr>"

record acpi_madt_entry_io_apic =
  io_apic_id :: u8
  io_apic_addr :: u32
  io_apic_gsi_base :: u32

definition madt_io_apic_at :: "memory \<Rightarrow> u64 \<Rightarrow> acpi_madt_entry_io_apic" where
  "madt_io_apic_at m a = \<lparr>io_apic_id = m (a + 2), io_apic_addr = load_le 4 m (a + 4), io_apic_gsi_base = load_le 4 m (a + 8)\<rparr>"

record acpi_madt_entry_io_source_override =
  bus_source :: u8
  irq_source :: u8
  override_gsi :: u32
  override_flags :: u16

definition madt_override_at :: "memory \<Rightarrow> u64 \<Rightarrow> acpi_madt_entry_io_source_override" where
  "madt_override_at m a = \<lparr>bus_source = m (a + 2), irq_source = m (a + 3), override_gsi = load_le 4 m (a + 4),
     override_flags = load_le 2 m (a + 8)\<rparr>"

definition madt_lapic_phys_addr :: "memory \<Rightarrow> u64 \<Rightarrow> u64" where
  "madt_lapic_phys_addr m a = load_le 8 m (a + 4)"

section \<open>Finding a table\<close>

text \<open>
  The loop of \<^verbatim>\<open>acpi_validate_checksum\<close>.  Its \<^verbatim>\<open>int\<close> index is a number here: the overflow of the
  index for a table of 2 GiB and more, which C leaves undefined, is not modelled.
\<close>

fun byte_sum :: "nat \<Rightarrow> nat \<Rightarrow> memory \<Rightarrow> u64 \<Rightarrow> u8 \<Rightarrow> u8" where
  "byte_sum i 0 m a acc = acc"
| "byte_sum i (Suc k) m a acc = byte_sum (Suc i) k m a (acc + m (a + of_nat i))"

definition acpi_validate_checksum :: "memory \<Rightarrow> u64 \<Rightarrow> bool" where
  "acpi_validate_checksum m header \<longleftrightarrow>
     byte_sum 0 (unat (table_length (header_at m header))) m header 0 = 0"

fun locate_from :: "nat \<Rightarrow> nat \<Rightarrow> memory \<Rightarrow> u64 \<Rightarrow> u8 list \<Rightarrow> u32 \<Rightarrow> u32 \<Rightarrow> u64" where
  "locate_from i 0 m xsdt sig n seen = null"
| "locate_from i (Suc k) m xsdt sig n seen =
     (let table = load64 m (xsdt + HEADER_SIZE + of_nat i * 8)
      in if \<not> acpi_validate_checksum m table then locate_from (Suc i) k m xsdt sig n seen
         else if signature (header_at m table) = sig
         then if seen = n then table else locate_from (Suc i) k m xsdt sig n (seen + 1)
         else locate_from (Suc i) k m xsdt sig n seen)"

text \<open>The signature is given by its four characters, which is all that \<^verbatim>\<open>strncmp\<close> compares.\<close>

definition acpi_locate_table :: "u8 list \<Rightarrow> u32 \<Rightarrow> ('d, 'z) acpi_state_scheme \<Rightarrow> u64" where
  "acpi_locate_table sig n s =
     (if \<not> acpi_manager_ready s then null
      else if sig = bytes_of ''DSDT'' then acpi_dsdt s
      else
        let xsdt = acpi_xsdt s;
            num_entries = ucast ((ucast (table_length (header_at (vmem s) xsdt)) - HEADER_SIZE) div 8) :: u32
        in locate_from 0 (unat num_entries) (vmem s) xsdt sig n 0)"

section \<open>Parsing\<close>

definition acpi_parse_fadt :: "u64 \<Rightarrow> ('d, 'z) acpi_state_scheme \<Rightarrow> ('d, 'z) acpi_state_scheme" where
  "acpi_parse_fadt fadt s =
     (let fc = ucast (fadt_firmware_ctrl (vmem s) fadt)
      in s\<lparr>acpi_dsdt := fadt_x_dsdt (vmem s) fadt,
           acpi_facs := (if fc \<noteq> null then fc else fadt_x_firmware_ctrl (vmem s) fadt),
           machine_type := fadt_preferred_pm_profile (vmem s) fadt\<rparr>)"

definition acpi_switch_madt_entry ::
  "'d bus \<Rightarrow> frame \<Rightarrow> u64 \<Rightarrow> u8 \<Rightarrow> ('d, 'z) acpi_state_scheme \<Rightarrow> ('d, 'z) acpi_state_scheme option" where
  "acpi_switch_madt_entry B F entry ty s =
     (if ty = 0 then
        let e = madt_lapic_at (vmem s) entry
        in Some (save_lapic_info (me_apic_id e) (me_acpi_cpu_id e) (me_flags e) s)
      else if ty = 1 then
        let e = madt_io_apic_at (vmem s) entry
        in save_ioapic_info B (io_apic_id e) (io_apic_addr e) (io_apic_gsi_base e) s
      else if ty = 2 then
        let e = madt_override_at (vmem s) entry
        in Some (s\<lparr>gsi_map := (gsi_map s)[unat (irq_source e) := ucast (override_gsi e)]\<rparr>)
      else if ty = 3 \<or> ty = 4 then Some s
      else if ty = 5 then Some (s\<lparr>lapic_address := madt_lapic_phys_addr (vmem s) entry\<rparr>)
      else kprintf F (''Unknown MADT entry: %d'' @ [CHR 10]) [ucast ty] s)"

text \<open>The loop does not end when it meets an entry of size 0: the value is then \<open>None\<close>.\<close>

partial_function (option) madt_entries_from ::
  "'d bus \<Rightarrow> frame \<Rightarrow> u64 \<Rightarrow> u64 \<Rightarrow> ('d, 'z) acpi_state_scheme \<Rightarrow> ('d, 'z) acpi_state_scheme option" where
  "madt_entries_from B F madt offset s =
     (if offset < ucast (table_length (header_at (vmem s) madt)) - MADT_SIZE
      then do {
        let entry = madt + MADT_SIZE + offset;
        let entry_type = vmem s entry;
        let entry_size = vmem s (entry + 1);
        s \<leftarrow> acpi_switch_madt_entry B F entry entry_type s;
        madt_entries_from B F madt (offset + ucast entry_size) s }
      else Some s)"

definition acpi_parse_madt ::
  "'d bus \<Rightarrow> frame \<Rightarrow> u64 \<Rightarrow> ('d, 'z) acpi_state_scheme \<Rightarrow> ('d, 'z) acpi_state_scheme option" where
  "acpi_parse_madt B F madt s =
     madt_entries_from B F madt 0 (s\<lparr>lapic_address := ucast (madt_local_apic_addr (vmem s) madt)\<rparr>)"

definition init_acpi ::
  "'d bus \<Rightarrow> frame \<Rightarrow> u64 \<Rightarrow> ('d, 'z) acpi_state_scheme \<Rightarrow> (bool \<times> ('d, 'z) acpi_state_scheme) option" where
  "init_acpi B F xsdt s = do {
     let s = s\<lparr>acpi_xsdt := xsdt, acpi_manager_ready := True\<rparr>;
     let s = s\<lparr>acpi_fadt := acpi_locate_table (bytes_of ''FACP'') 0 s\<rparr>;
     let s = s\<lparr>acpi_madt := acpi_locate_table (bytes_of ''APIC'') 0 s\<rparr>;
     if acpi_fadt s = null \<or> acpi_madt s = null then Some (False, s)
     else do {
       let s = acpi_parse_fadt (acpi_fadt s) s;
       if acpi_dsdt s = null then Some (False, s)
       else do {
         let a = madt_local_apic_addr (vmem s) (acpi_madt s);
         let s = s\<lparr>lapic_address := (if a \<noteq> 0 then ucast a else null), lapics_array_index := 0\<rparr>;
         s \<leftarrow> acpi_parse_madt B F (acpi_madt s) s;
         Some (True, s) } } }"

end
