(* ===== verification/Pci.thy ===== *)
theory Pci
  imports Acpi
begin

text \<open>
  The configuration headers of \<^verbatim>\<open>io/include/pci.h\<close> and the device tree of \<^verbatim>\<open>io/pci_tree.c\<close>.
  A configuration space lies in memory and is read at the offsets of the packed structures.
  The nodes of the tree are buffers of the kernel heap, linked by their addresses.
\<close>

record 'd pci_state = "'d acpi_state" +
  pci_tree_root :: u64

section \<open>Configuration headers\<close>

definition vendor_id :: "memory \<Rightarrow> u64 \<Rightarrow> u16" where "vendor_id m p = load_le 2 m p"
definition prog_if :: "memory \<Rightarrow> u64 \<Rightarrow> u8" where "prog_if m p = m (p + 9)"
definition sub_class :: "memory \<Rightarrow> u64 \<Rightarrow> u8" where "sub_class m p = m (p + 10)"
definition class_code :: "memory \<Rightarrow> u64 \<Rightarrow> u8" where "class_code m p = m (p + 11)"
definition header_type :: "memory \<Rightarrow> u64 \<Rightarrow> u8" where "header_type m p = m (p + 14)"

text \<open>The base addresses, and the interrupt pin, of a general device.\<close>

definition bar :: "memory \<Rightarrow> u64 \<Rightarrow> nat \<Rightarrow> u32" where "bar m p n = load_le 4 m (p + 16 + of_nat (4 * n))"
definition int_pin :: "memory \<Rightarrow> u64 \<Rightarrow> u8" where "int_pin m p = m (p + 61)"

text \<open>The bus numbers of a bridge.\<close>

definition secondary_bus_number :: "memory \<Rightarrow> u64 \<Rightarrow> u8" where "secondary_bus_number m p = m (p + 25)"
definition subordinate_bus_number :: "memory \<Rightarrow> u64 \<Rightarrow> u8" where "subordinate_bus_number m p = m (p + 26)"

definition mass_storage :: u8 where [c_macros]: "mass_storage = 1"
definition general_device :: u8 where [c_macros]: "general_device = 0"
definition pci_to_pci_bridge :: u8 where [c_macros]: "pci_to_pci_bridge = 1"

section \<open>The nodes of the tree\<close>

text \<open>A bus node (24 bytes), a device node (24 bytes) and a bridge node (32 bytes).\<close>

definition bus_id :: "memory \<Rightarrow> u64 \<Rightarrow> u8" where "bus_id m b = m b"
definition bus_bridges :: "memory \<Rightarrow> u64 \<Rightarrow> u64" where "bus_bridges m b = load64 m (b + 8)"
definition bus_devs :: "memory \<Rightarrow> u64 \<Rightarrow> u64" where "bus_devs m b = load64 m (b + 16)"

definition node_dev :: "memory \<Rightarrow> u64 \<Rightarrow> u64" where "node_dev m d = load64 m d"
definition node_bus :: "memory \<Rightarrow> u64 \<Rightarrow> u64" where "node_bus m d = load64 m (d + 8)"
definition node_next :: "memory \<Rightarrow> u64 \<Rightarrow> u64" where "node_next m d = load64 m (d + 16)"

definition bridge_primary :: "memory \<Rightarrow> u64 \<Rightarrow> u64" where "bridge_primary m r = load64 m r"
definition bridge_secondary :: "memory \<Rightarrow> u64 \<Rightarrow> u64" where "bridge_secondary m r = load64 m (r + 8)"
definition bridge_config :: "memory \<Rightarrow> u64 \<Rightarrow> u64" where "bridge_config m r = load64 m (r + 16)"
definition bridge_next :: "memory \<Rightarrow> u64 \<Rightarrow> u64" where "bridge_next m r = load64 m (r + 24)"

definition pci_tree_create_bus ::
  "u8 \<Rightarrow> ('d, 'z) pci_state_scheme \<Rightarrow> (u64 \<times> ('d, 'z) pci_state_scheme) option" where
  "pci_tree_create_bus n s = do {
     (node, s) \<leftarrow> kmalloc 24 s;
     if node = null then Some (null, s)
     else do {
       let m = (vmem s)(node := n);
       let m = store64 m (node + 16) null;
       let m = store64 m (node + 8) null;
       Some (node, s\<lparr>vmem := m\<rparr>) } }"

definition init_pci_tree :: "('d, 'z) pci_state_scheme \<Rightarrow> (bool \<times> ('d, 'z) pci_state_scheme) option" where
  "init_pci_tree s = do {
     (root, s) \<leftarrow> pci_tree_create_bus 0 s;
     Some (root \<noteq> null, s\<lparr>pci_tree_root := root\<rparr>) }"

definition pci_tree_create_device ::
  "u64 \<Rightarrow> u64 \<Rightarrow> ('d, 'z) pci_state_scheme \<Rightarrow> (u64 \<times> ('d, 'z) pci_state_scheme) option" where
  "pci_tree_create_device dv b s = do {
     (node, s) \<leftarrow> kmalloc 24 s;
     if node = null then Some (null, s)
     else do {
       let m = store64 (vmem s) (node + 8) b;
       let m = store64 m node dv;
       let m = store64 m (node + 16) null;
       Some (node, s\<lparr>vmem := m\<rparr>) } }"

text \<open>The last node of a list, \<open>off\<close> being the offset of the pointer to the next one.\<close>

partial_function (option) last_node :: "u64 \<Rightarrow> memory \<Rightarrow> u64 \<Rightarrow> u64 option" where
  "last_node off m cur =
     (if load64 m (cur + off) \<noteq> null then last_node off m (load64 m (cur + off)) else Some cur)"

definition pci_tree_install_device ::
  "u64 \<Rightarrow> u64 \<Rightarrow> ('d, 'z) pci_state_scheme \<Rightarrow> (bool \<times> ('d, 'z) pci_state_scheme) option" where
  "pci_tree_install_device dv b s =
     (if dv = null \<or> b = null then Some (False, s)
      else do {
        let m = store64 (vmem s) (dv + 8) b;
        let m = store64 m (dv + 16) null;
        if bus_devs m b = null then Some (True, s\<lparr>vmem := store64 m (b + 16) dv\<rparr>)
        else do {
          cur \<leftarrow> last_node 16 m (bus_devs m b);
          Some (True, s\<lparr>vmem := store64 m (cur + 16) dv\<rparr>) } })"

definition pci_tree_install_bus ::
  "u64 \<Rightarrow> u64 \<Rightarrow> u64 \<Rightarrow> ('d, 'z) pci_state_scheme \<Rightarrow> (bool \<times> ('d, 'z) pci_state_scheme) option" where
  "pci_tree_install_bus pri sec config s =
     (if pri = null \<or> sec = null then Some (False, s)
      else do {
        (node, s) \<leftarrow> kmalloc 32 s;
        if node = null then Some (False, s)
        else do {
          let m = store64 (vmem s) (node + 16) config;
          let m = store64 m node pri;
          let m = store64 m (node + 8) sec;
          let m = store64 m (node + 24) null;
          if bus_bridges m pri = null then Some (True, s\<lparr>vmem := store64 m (pri + 8) node\<rparr>)
          else do {
            cur \<leftarrow> last_node 24 m (bus_bridges m pri);
            Some (True, s\<lparr>vmem := store64 m (cur + 24) node\<rparr>) } } })"

section \<open>Searching and printing\<close>

text \<open>The inner loop: the first bridge whose range of buses contains the searched one.\<close>

partial_function (option) find_bridge :: "memory \<Rightarrow> u8 \<Rightarrow> u64 \<Rightarrow> u64 option" where
  "find_bridge m n r =
     (if bus_id m (bridge_primary m r) \<le> n \<and> n \<le> subordinate_bus_number m (bridge_config m r) then Some r
      else if bridge_next m r \<noteq> null then find_bridge m n (bridge_next m r)
      else Some null)"

partial_function (option) bus_by_id :: "memory \<Rightarrow> u8 \<Rightarrow> u64 \<Rightarrow> u64 option" where
  "bus_by_id m n current =
     (if bus_id m current = n then Some current
      else if bus_bridges m current = null then Some null
      else do {
        r \<leftarrow> find_bridge m n (bus_bridges m current);
        if r = null then Some null else bus_by_id m n (bridge_secondary m r) })"

definition pci_tree_get_bus_by_id :: "u8 \<Rightarrow> ('d, 'z) pci_state_scheme \<Rightarrow> u64 option" where
  "pci_tree_get_bus_by_id n s = bus_by_id (vmem s) n (pci_tree_root s)"

fun pci_tree_print_indent ::
  "frame \<Rightarrow> nat \<Rightarrow> ('d, 'z) pci_state_scheme \<Rightarrow> ('d, 'z) pci_state_scheme option" where
  "pci_tree_print_indent F 0 s = Some s"
| "pci_tree_print_indent F (Suc n) s = do { s \<leftarrow> kprintf F ''    '' [] s; pci_tree_print_indent F n s }"

partial_function (option) print_devices ::
  "frame \<Rightarrow> u8 \<Rightarrow> u64 \<Rightarrow> ('d, 'z) pci_state_scheme \<Rightarrow> ('d, 'z) pci_state_scheme option" where
  "print_devices F indent d s = do {
     s \<leftarrow> pci_tree_print_indent F (unat indent) s;
     let p = node_dev (vmem s) d;
     let pin = int_pin (vmem s) p;
     s \<leftarrow> kprintf F (''class code %d, subclass %d, INT%c#'' @ [CHR 10])
            [ucast (class_code (vmem s) p), ucast (sub_class (vmem s) p), if pin \<noteq> 0 then 64 + ucast pin else 70] s;
     if node_next (vmem s) d \<noteq> null then print_devices F indent (node_next (vmem s) d) s else Some s }"

text \<open>
  \<^verbatim>\<open>pci_tree_print_bus\<close> and its loop over the bridges call each other: a task is a bus to
  print or a bridge from which to go on.
\<close>

datatype print_task = Print_Bus u64 | Print_Bridges u64

partial_function (option) print_tree ::
  "frame \<Rightarrow> print_task \<Rightarrow> u8 \<Rightarrow> ('d, 'z) pci_state_scheme \<Rightarrow> ('d, 'z) pci_state_scheme option" where
  "print_tree F task indent s =
     (case task of
        Print_Bus b \<Rightarrow>
          if bus_devs (vmem s) b = null
          then do {
            s \<leftarrow> pci_tree_print_indent F (unat indent) s;
            kprintf F (''no devices'' @ [CHR 10]) [] s }
          else do {
            s \<leftarrow> pci_tree_print_indent F (unat indent) s;
            s \<leftarrow> kprintf F (''BUS #%d'' @ [CHR 10]) [ucast (bus_id (vmem s) b)] s;
            s \<leftarrow> print_devices F indent (bus_devs (vmem s) b) s;
            if bus_bridges (vmem s) b = null then Some s
            else print_tree F (Print_Bridges (bus_bridges (vmem s) b)) indent s }
      | Print_Bridges r \<Rightarrow> do {
          s \<leftarrow> print_tree F (Print_Bus (bridge_secondary (vmem s) r)) (indent + 1) s;
          if bridge_next (vmem s) r \<noteq> null then print_tree F (Print_Bridges (bridge_next (vmem s) r)) indent s
          else Some s })"

definition pci_tree_print :: "frame \<Rightarrow> ('d, 'z) pci_state_scheme \<Rightarrow> ('d, 'z) pci_state_scheme option" where
  "pci_tree_print F s = print_tree F (Print_Bus (pci_tree_root s)) 0 s"

end
