(* ===== verification/Ide.thy ===== *)
theory Ide
  imports Pci
begin

text \<open>
  The IDE driver: registers and transactions (\<^verbatim>\<open>drv/ide/ide.c\<close>), programmed I/O
  (\<^verbatim>\<open>ide_pio.c\<close>), identification and setup (\<^verbatim>\<open>ide_setup.c\<close>), and the wrapper by number
  (\<^verbatim>\<open>ide_wrapper.c\<close>).  A bus object is a buffer of the kernel heap; a device is an object of
  its pool.  A loop that waits for the drive may not end, which is \<open>None\<close>.
\<close>

text \<open>
  The enumerations are kept as the numbers that the code compares and stores: an object that
  was never set, as those of a new pool, holds a number that is no enumerator.
\<close>

definition ide_pata :: u32 where [c_macros]: "ide_pata = 0"
definition ide_sata :: u32 where [c_macros]: "ide_sata = 1"
definition ide_patapi :: u32 where [c_macros]: "ide_patapi = 2"
definition ide_satapi :: u32 where [c_macros]: "ide_satapi = 3"
definition ide_unknown :: u32 where [c_macros]: "ide_unknown = 4"
definition chs :: u32 where [c_macros]: "chs = 0"
definition lba28 :: u32 where [c_macros]: "lba28 = 1"
definition lba48 :: u32 where [c_macros]: "lba48 = 2"
definition drive_master :: u32 where [c_macros]: "drive_master = 0xA0"
definition drive_slave :: u32 where [c_macros]: "drive_slave = 0xB0"

definition IDE_BAR_OFFSET_DATA_REG :: u8 where [c_macros]: "IDE_BAR_OFFSET_DATA_REG = 0"
definition IDE_BAR_OFFSET_ERROR_REG :: u8 where [c_macros]: "IDE_BAR_OFFSET_ERROR_REG = 1"
definition IDE_BAR_OFFSET_SECTOR_COUNT :: u8 where [c_macros]: "IDE_BAR_OFFSET_SECTOR_COUNT = 2"
definition IDE_BAR_OFFSET_LBA_LO :: u8 where [c_macros]: "IDE_BAR_OFFSET_LBA_LO = 3"
definition IDE_BAR_OFFSET_LBA_MID :: u8 where [c_macros]: "IDE_BAR_OFFSET_LBA_MID = 4"
definition IDE_BAR_OFFSET_LBA_HI :: u8 where [c_macros]: "IDE_BAR_OFFSET_LBA_HI = 5"
definition IDE_BAR_OFFSET_DRIVE_HEAD :: u8 where [c_macros]: "IDE_BAR_OFFSET_DRIVE_HEAD = 6"
definition IDE_BAR_OFFSET_STATUS :: u8 where [c_macros]: "IDE_BAR_OFFSET_STATUS = 7"
definition IDE_BAR_OFFSET_COMMAND :: u8 where [c_macros]: "IDE_BAR_OFFSET_COMMAND = 7"
definition IDE_BAR_OFFSET_DEV_CTRL :: u8 where [c_macros]: "IDE_BAR_OFFSET_DEV_CTRL = 0"
definition IDE_COMM_READ_PIO :: u8 where [c_macros]: "IDE_COMM_READ_PIO = 0x20"
definition IDE_COMM_READ_PIO_EXT :: u8 where [c_macros]: "IDE_COMM_READ_PIO_EXT = 0x24"
definition IDE_COMM_WRITE_PIO :: u8 where [c_macros]: "IDE_COMM_WRITE_PIO = 0x30"
definition IDE_COMM_WRITE_PIO_EXT :: u8 where [c_macros]: "IDE_COMM_WRITE_PIO_EXT = 0x34"
definition IDE_COMM_CACHE_FLUSH :: u8 where [c_macros]: "IDE_COMM_CACHE_FLUSH = 0xE7"
definition IDE_COMM_CACHE_FLUSH_EXT :: u8 where [c_macros]: "IDE_COMM_CACHE_FLUSH_EXT = 0xEA"
definition IDE_COMM_IDENTIFY :: u8 where [c_macros]: "IDE_COMM_IDENTIFY = 0xEC"
definition IDE_DEVICE_MAGIC :: u8 where [c_macros]: "IDE_DEVICE_MAGIC = 0xC0"

record ide_device_t =
  ide_bus :: u64
  ide_type :: u32
  addr_mode :: u32
  sectors :: u64
  drive :: u32
  magic :: u8

record 'd ide_state = "'d pci_state" +
  ide_devices_pool_id :: pool_t
  ide_devices_pool_last_ind :: u16
  ide_devices :: "ide_device_t list"

section \<open>ide.c\<close>

text \<open>The fields of a bus object, 24 bytes long, at an address.\<close>

definition io_bar :: "('d, 'z) pci_state_scheme \<Rightarrow> u64 \<Rightarrow> u32" where "io_bar s b = load_le 4 (vmem s) b"
definition ctrl_bar :: "('d, 'z) pci_state_scheme \<Rightarrow> u64 \<Rightarrow> u32" where "ctrl_bar s b = load_le 4 (vmem s) (b + 4)"

definition ide_read_reg ::
  "'d bus \<Rightarrow> u32 \<Rightarrow> u8 \<Rightarrow> ('d, 'z) pci_state_scheme \<Rightarrow> u16 \<times> ('d, 'z) pci_state_scheme" where
  "ide_read_reg B br reg s = inw B (ucast (br + ucast reg)) s"

definition ide_write_reg ::
  "'d bus \<Rightarrow> u32 \<Rightarrow> u8 \<Rightarrow> u16 \<Rightarrow> ('d, 'z) pci_state_scheme \<Rightarrow> ('d, 'z) pci_state_scheme" where
  "ide_write_reg B br reg v s = outw B (ucast (br + ucast reg)) v s"

definition ide_status :: "'d bus \<Rightarrow> u64 \<Rightarrow> ('d, 'z) pci_state_scheme \<Rightarrow> u8 \<times> ('d, 'z) pci_state_scheme" where
  "ide_status B b s = (let (v, s) = ide_read_reg B (io_bar s b) IDE_BAR_OFFSET_STATUS s in (ucast v, s))"

definition ide_wait :: "'d bus \<Rightarrow> u64 \<Rightarrow> ('d, 'z) pci_state_scheme \<Rightarrow> ('d, 'z) pci_state_scheme" where
  "ide_wait B b s = for_loop 15 (\<lambda>_ s. snd (ide_status B b s)) s"

text \<open>The loop \<^verbatim>\<open>while (ide_status(bus) >> 7 & 1);\<close>.\<close>

partial_function (option) wait_busy ::
  "'d bus \<Rightarrow> u64 \<Rightarrow> ('d, 'z) pci_state_scheme \<Rightarrow> ('d, 'z) pci_state_scheme option" where
  "wait_busy B b s = (case ide_status B b s of (st, s) \<Rightarrow> if bit st 7 then wait_busy B b s else Some s)"

definition ide_select_drive ::
  "'d bus \<Rightarrow> u64 \<Rightarrow> u32 \<Rightarrow> ('d, 'z) pci_state_scheme \<Rightarrow> ('d, 'z) pci_state_scheme option" where
  "ide_select_drive B b drv s =
     (if b = null then Some s
      else
        let (v, s) = ide_read_reg B (io_bar s b) IDE_BAR_OFFSET_DRIVE_HEAD s
        in if ucast (ucast v :: u8) = drv then Some s
           else do {
             s \<leftarrow> wait_busy B b s;
             let s = ide_write_reg B (io_bar s b) IDE_BAR_OFFSET_DRIVE_HEAD (ucast (drv AND 0xFF)) s;
             Some (ide_wait B b s) })"

definition ide_error :: "'d bus \<Rightarrow> u64 \<Rightarrow> ('d, 'z) pci_state_scheme \<Rightarrow> u8 \<times> ('d, 'z) pci_state_scheme" where
  "ide_error B b s = (let (v, s) = ide_read_reg B (io_bar s b) IDE_BAR_OFFSET_ERROR_REG s in (ucast v, s))"

definition ide_check_error :: "'d bus \<Rightarrow> u64 \<Rightarrow> ('d, 'z) pci_state_scheme \<Rightarrow> bool \<times> ('d, 'z) pci_state_scheme" where
  "ide_check_error B b s = (let (st, s) = ide_status B b s in (bit st 0 \<or> bit st 5, s))"

text \<open>The second status is read only when bit 7 of the first is clear.\<close>

definition not_ready :: "'d bus \<Rightarrow> u64 \<Rightarrow> ('d, 'z) pci_state_scheme \<Rightarrow> bool \<times> ('d, 'z) pci_state_scheme" where
  "not_ready B b s =
     (let (st, s) = ide_status B b s
      in if bit st 7 then (True, s) else let (st, s) = ide_status B b s in (\<not> bit st 3, s))"

partial_function (option) ide_poll ::
  "'d bus \<Rightarrow> u64 \<Rightarrow> ('d, 'z) pci_state_scheme \<Rightarrow> ('d, 'z) pci_state_scheme option" where
  "ide_poll B b s =
     (case not_ready B b s of (nr, s) \<Rightarrow>
        if \<not> nr then Some s
        else case ide_check_error B b s of (err, s) \<Rightarrow> if err then Some s else ide_poll B b s)"

definition ide_reset :: "'d bus \<Rightarrow> u64 \<Rightarrow> ('d, 'z) pci_state_scheme \<Rightarrow> ('d, 'z) pci_state_scheme" where
  "ide_reset B b s =
     (let (v, s) = ide_read_reg B (ctrl_bar s b) 0 s;
          old = ucast v :: u8;
          s = ide_write_reg B (ctrl_bar s b) IDE_BAR_OFFSET_DEV_CTRL (ucast old OR 4) s
      in ide_write_reg B (ctrl_bar s b) IDE_BAR_OFFSET_DEV_CTRL (ucast old) s)"

definition ide_command ::
  "'d bus \<Rightarrow> u64 \<Rightarrow> u8 \<Rightarrow> ('d, 'z) pci_state_scheme \<Rightarrow> ('d, 'z) pci_state_scheme option" where
  "ide_command B b command s =
     (if b = null then Some s
      else do {
        s \<leftarrow> wait_busy B b s;
        Some (ide_write_reg B (io_bar s b) IDE_BAR_OFFSET_COMMAND (ucast command) s) })"

text \<open>A device argument is \<open>None\<close> where the pointer is null.\<close>

definition ide_write_regs ::
  "'d bus \<Rightarrow> u64 \<Rightarrow> (u8 \<times> u16) list \<Rightarrow> ('d, 'z) pci_state_scheme \<Rightarrow> ('d, 'z) pci_state_scheme" where
  "ide_write_regs B b rs s = fold (\<lambda>(reg, v) s. ide_write_reg B (io_bar s b) reg v s) rs s"

definition transaction_regs :: "ide_device_t \<Rightarrow> u64 \<Rightarrow> u64 \<Rightarrow> (u8 \<times> u16) list option" where
  "transaction_regs dv address n =
     (if addr_mode dv = chs then
        let selection = ucast (drive dv) OR ucast (drop_bit 24 address AND 0x0F) :: u8
        in Some [(IDE_BAR_OFFSET_DRIVE_HEAD, ucast selection), (IDE_BAR_OFFSET_SECTOR_COUNT, ucast n),
                 (IDE_BAR_OFFSET_LBA_LO, ucast (address AND 0xFF)), (IDE_BAR_OFFSET_LBA_MID, ucast (drop_bit 8 address AND 0xFF)),
                 (IDE_BAR_OFFSET_LBA_HI, ucast (drop_bit 16 address AND 0xFF))]
      else if addr_mode dv = lba28 then
        let selection = ucast (drive dv) OR 0x40 OR ucast (drop_bit 24 address AND 0x0F) :: u8
        in Some [(IDE_BAR_OFFSET_DRIVE_HEAD, ucast selection), (IDE_BAR_OFFSET_SECTOR_COUNT, ucast (ucast n :: u8)),
                 (IDE_BAR_OFFSET_LBA_LO, ucast (address AND 0xFF)), (IDE_BAR_OFFSET_LBA_MID, ucast (drop_bit 8 address AND 0xFF)),
                 (IDE_BAR_OFFSET_LBA_HI, ucast (drop_bit 16 address AND 0xFF))]
      else if addr_mode dv = lba48 then
        let selection = ucast (drive dv) OR 0x40 :: u8
        in Some [(IDE_BAR_OFFSET_DRIVE_HEAD, ucast selection), (IDE_BAR_OFFSET_SECTOR_COUNT, ucast (drop_bit 8 n AND 0xFF)),
                 (IDE_BAR_OFFSET_LBA_LO, ucast (drop_bit 24 address AND 0xFF)),
                 (IDE_BAR_OFFSET_LBA_MID, ucast (drop_bit 32 address AND 0xFF)),
                 (IDE_BAR_OFFSET_LBA_HI, ucast (drop_bit 40 address AND 0xFF)),
                 (IDE_BAR_OFFSET_SECTOR_COUNT, ucast (n AND 0xFF)), (IDE_BAR_OFFSET_LBA_LO, ucast (address AND 0xFF)),
                 (IDE_BAR_OFFSET_LBA_MID, ucast (drop_bit 8 address AND 0xFF)),
                 (IDE_BAR_OFFSET_LBA_HI, ucast (drop_bit 16 address AND 0xFF))]
      else None)"

definition ide_init_transaction ::
  "'d bus \<Rightarrow> ide_device_t option \<Rightarrow> u64 \<Rightarrow> u64 \<Rightarrow> ('d, 'z) pci_state_scheme \<Rightarrow> bool \<times> ('d, 'z) pci_state_scheme" where
  "ide_init_transaction B dvp address n s =
     (case dvp of None \<Rightarrow> (False, s)
      | Some dv \<Rightarrow>
          if n = 0 \<or> ide_bus dv = null then (False, s)
          else if sectors dv < n then (False, s)
          else case transaction_regs dv address n of None \<Rightarrow> (False, s)
            | Some rs \<Rightarrow> (True, ide_write_regs B (ide_bus dv) rs s))"

section \<open>ide_pio.c\<close>

definition ide_check_type :: "ide_device_t \<Rightarrow> bool" where
  "ide_check_type dv \<longleftrightarrow> ide_type dv = ide_pata \<or> ide_type dv = ide_sata"

text \<open>The loop of \<^verbatim>\<open>ide_read\<close>, for the words \<open>i\<close>, \<open>i + 1\<close>, \<open>\<dots>\<close> of the buffer.\<close>

fun ide_read_words ::
  "'d bus \<Rightarrow> u64 \<Rightarrow> u64 \<Rightarrow> nat \<Rightarrow> nat \<Rightarrow> ('d, 'z) pci_state_scheme \<Rightarrow> (bool \<times> ('d, 'z) pci_state_scheme) option" where
  "ide_read_words B b buffer i 0 s = Some (True, s)"
| "ide_read_words B b buffer i (Suc k) s = do {
     s \<leftarrow> ide_poll B b s;
     let (err, s) = ide_check_error B b s;
     if err then Some (False, s)
     else do {
       let (v, s) = ide_read_reg B (io_bar s b) IDE_BAR_OFFSET_DATA_REG s;
       ide_read_words B b buffer (Suc i) k (s\<lparr>vmem := store_le 2 (vmem s) (buffer + 2 * of_nat i) v\<rparr>) } }"

text \<open>After a successful \<^verbatim>\<open>ide_init_transaction\<close> the addressing mode is one of the three.\<close>

definition ide_read ::
  "'d bus \<Rightarrow> ide_device_t option \<Rightarrow> u64 \<Rightarrow> u32 \<Rightarrow> u64 \<Rightarrow> ('d, 'z) pci_state_scheme \<Rightarrow>
   (bool \<times> ('d, 'z) pci_state_scheme) option" where
  "ide_read B dvp address n buffer s =
     (case dvp of None \<Rightarrow> Some (False, s)
      | Some dv \<Rightarrow>
          if buffer = null \<or> n = 0 \<or> ide_bus dv = null then Some (False, s)
          else if \<not> ide_check_type dv then Some (False, s)
          else do {
            s \<leftarrow> ide_select_drive B (ide_bus dv) (drive dv) s;
            let (ok, s) = ide_init_transaction B dvp address (ucast n) s;
            if \<not> ok then Some (False, s)
            else do {
              s \<leftarrow> ide_command B (ide_bus dv)
                     (if addr_mode dv = chs \<or> addr_mode dv = lba28 then IDE_COMM_READ_PIO else IDE_COMM_READ_PIO_EXT) s;
              (ok, s) \<leftarrow> ide_read_words B (ide_bus dv) buffer 0 (unat (n * 256)) s;
              if ok then Some (True, s)
              else Some (False, s\<lparr>vmem := memclear buffer (ucast (n * 512)) (vmem s)\<rparr>) } })"

fun ide_write_words ::
  "'d bus \<Rightarrow> u64 \<Rightarrow> u64 \<Rightarrow> u8 \<Rightarrow> nat \<Rightarrow> nat \<Rightarrow> ('d, 'z) pci_state_scheme \<Rightarrow> ('d, 'z) pci_state_scheme option" where
  "ide_write_words B b src flush i 0 s = Some s"
| "ide_write_words B b src flush i (Suc k) s = do {
     s \<leftarrow> ide_poll B b s;
     let s = ide_write_reg B (io_bar s b) IDE_BAR_OFFSET_DATA_REG (load_le 2 (vmem s) (src + 2 * of_nat i)) s;
     s \<leftarrow> ide_command B b flush s;
     ide_write_words B b src flush (Suc i) k s }"

definition ide_write ::
  "'d bus \<Rightarrow> ide_device_t option \<Rightarrow> u64 \<Rightarrow> u32 \<Rightarrow> u64 \<Rightarrow> ('d, 'z) pci_state_scheme \<Rightarrow>
   (bool \<times> ('d, 'z) pci_state_scheme) option" where
  "ide_write B dvp address n src s =
     (case dvp of None \<Rightarrow> Some (False, s)
      | Some dv \<Rightarrow>
          if src = null \<or> n = 0 \<or> ide_bus dv = null then Some (False, s)
          else if \<not> ide_check_type dv then Some (False, s)
          else do {
            s \<leftarrow> ide_select_drive B (ide_bus dv) (drive dv) s;
            let (ok, s) = ide_init_transaction B dvp address (ucast n) s;
            if \<not> ok then Some (False, s)
            else do {
              let ext = \<not> (addr_mode dv = chs \<or> addr_mode dv = lba28);
              s \<leftarrow> ide_command B (ide_bus dv) (if ext then IDE_COMM_WRITE_PIO_EXT else IDE_COMM_WRITE_PIO) s;
              s \<leftarrow> ide_write_words B (ide_bus dv) src (if ext then IDE_COMM_CACHE_FLUSH_EXT else IDE_COMM_CACHE_FLUSH)
                     0 (unat (n * 256)) s;
              Some (True, s) } })"

section \<open>ide_wrapper.c\<close>

definition ide_check_magic :: "ide_device_t \<Rightarrow> bool" where
  "ide_check_magic dv \<longleftrightarrow> magic dv = IDE_DEVICE_MAGIC"

definition ide_read_wrapper ::
  "'d bus \<Rightarrow> u32 \<Rightarrow> u64 \<Rightarrow> u64 \<Rightarrow> u64 \<Rightarrow> ('d, 'z) ide_state_scheme \<Rightarrow> (bool \<times> ('d, 'z) ide_state_scheme) option" where
  "ide_read_wrapper B ide_id address n buffer s =
     (if buffer = null then Some (False, s)
      else if n = 0 then Some (True, s)
      else do {
        (ok, p, t) \<leftarrow> obj_pool_get (ide_devices_pool_id s) ide_id (pools s);
        let s = s\<lparr>pools := t\<rparr>;
        if \<not> ok then Some (False, s)
        else do {
          i \<leftarrow> p;
          dv \<leftarrow> obj_load i (ide_devices s);
          if \<not> ide_check_magic dv then Some (False, s)
          else ide_read B (Some dv) address (ucast n) buffer s } })"

definition ide_write_wrapper ::
  "'d bus \<Rightarrow> u32 \<Rightarrow> u64 \<Rightarrow> u64 \<Rightarrow> u64 \<Rightarrow> ('d, 'z) ide_state_scheme \<Rightarrow> (bool \<times> ('d, 'z) ide_state_scheme) option" where
  "ide_write_wrapper B ide_id address n src s =
     (if src = null then Some (False, s)
      else if n = 0 then Some (True, s)
      else do {
        (ok, p, t) \<leftarrow> obj_pool_get (ide_devices_pool_id s) ide_id (pools s);
        let s = s\<lparr>pools := t\<rparr>;
        if \<not> ok then Some (False, s)
        else do {
          i \<leftarrow> p;
          dv \<leftarrow> obj_load i (ide_devices s);
          if \<not> ide_check_magic dv then Some (False, s)
          else ide_write B (Some dv) address (ucast n) src s } })"

section \<open>ide\_test.c\<close>

text \<open>\<open>test_str\<close> and \<open>buffer\<close> are the addresses of the string constant and of the local array.\<close>

fun print_bytes ::
  "frame \<Rightarrow> u64 \<Rightarrow> nat \<Rightarrow> nat \<Rightarrow> ('d, 'z) ide_state_scheme \<Rightarrow> ('d, 'z) ide_state_scheme option" where
  "print_bytes F buffer i 0 s = Some s"
| "print_bytes F buffer i (Suc k) s = do {
     s \<leftarrow> kprintf F ''%c'' [ucast (vmem s (buffer + of_nat i))] s;
     print_bytes F buffer (Suc i) k s }"

definition ide_test ::
  "'d bus \<Rightarrow> frame \<Rightarrow> u64 \<Rightarrow> u64 \<Rightarrow> ('d, 'z) ide_state_scheme \<Rightarrow> (bool \<times> ('d, 'z) ide_state_scheme) option" where
  "ide_test B F test_str buffer s = do {
     (ok, s) \<leftarrow> ide_write_wrapper B 0 200 1 test_str s;
     if \<not> ok then Some (False, s)
     else do {
       let s = s\<lparr>vmem := memclear buffer 512 (vmem s)\<rparr>;
       (ok, s) \<leftarrow> ide_read_wrapper B 0 200 1 buffer s;
       if \<not> ok then Some (False, s)
       else do {
         s \<leftarrow> print_bytes F buffer 0 50 s;
         Some (True, s) } } }"

end
