(* ===== verification/Ide_Setup.thy ===== *)
theory Ide_Setup
  imports Ide
begin

text \<open>
  The search for IDE drives: \<^verbatim>\<open>drv/ide/ide_setup.c\<close>.  The buffer of the IDENTIFY data is a
  list of 256 words; what an uninitialised local device holds is an argument.
\<close>

text \<open>\<^verbatim>\<open>ide_bus_select_t\<close> and \<^verbatim>\<open>ide_channel_mode_t\<close>.\<close>

datatype ide_bus_select_t = primary | secondary
datatype ide_channel_mode_t = native | compatibility

definition ide_subclass :: u8 where [c_macros]: "ide_subclass = 1"

text \<open>The second loop of \<^verbatim>\<open>ide_identify\<close> that waits, for the DRQ or the ERR bit.\<close>

partial_function (option) wait_data ::
  "'d bus \<Rightarrow> u64 \<Rightarrow> ('d, 'z) pci_state_scheme \<Rightarrow> ('d, 'z) pci_state_scheme option" where
  "wait_data B b s =
     (case ide_status B b s of (st, s) \<Rightarrow>
        if bit st 3 then Some s
        else case ide_status B b s of (st, s) \<Rightarrow> if bit st 0 then Some s else wait_data B b s)"

fun read_info ::
  "'d bus \<Rightarrow> u64 \<Rightarrow> nat \<Rightarrow> nat \<Rightarrow> u16 list \<Rightarrow> ('d, 'z) pci_state_scheme \<Rightarrow> u16 list \<times> ('d, 'z) pci_state_scheme" where
  "read_info B b i 0 info s = (info, s)"
| "read_info B b i (Suc k) info s =
     (let (v, s) = ide_read_reg B (io_bar s b) IDE_BAR_OFFSET_DATA_REG s in read_info B b (Suc i) k (info[i := v]) s)"

definition ide_identify ::
  "'d bus \<Rightarrow> ide_device_t \<Rightarrow> u16 list \<Rightarrow> ('d, 'z) pci_state_scheme \<Rightarrow>
   (bool \<times> u16 list \<times> ('d, 'z) pci_state_scheme) option" where
  "ide_identify B dv info s =
     (let b = ide_bus dv
      in if b = null then Some (False, info, s)
         else do {
           s \<leftarrow> ide_select_drive B b (drive dv) s;
           let s = ide_write_regs B b [(IDE_BAR_OFFSET_SECTOR_COUNT, 0), (IDE_BAR_OFFSET_LBA_LO, 0),
                     (IDE_BAR_OFFSET_LBA_MID, 0), (IDE_BAR_OFFSET_LBA_HI, 0)] s;
           s \<leftarrow> ide_command B b IDE_COMM_IDENTIFY s;
           let (st, s) = ide_status B b s;
           if st = 0 then Some (False, info, s)
           else do {
             let (err, s) = ide_check_error B b s;
             if err then Some (False, info, s)
             else do {
               s \<leftarrow> wait_busy B b s;
               s \<leftarrow> wait_data B b s;
               let (err, s) = ide_check_error B b s;
               if err then Some (False, info, s)
               else do {
                 let (info, s) = read_info B b 0 256 info s;
                 Some (True, info, s) } } } })"

text \<open>The words \<open>n\<close>, \<open>n + 1\<close>, \<open>\<dots>\<close> of the data read as one little-endian number.\<close>

definition info32 :: "u16 list \<Rightarrow> nat \<Rightarrow> u32" where
  "info32 info n = ucast (info ! n) OR push_bit 16 (ucast (info ! (n + 1)))"

definition info64 :: "u16 list \<Rightarrow> nat \<Rightarrow> u64" where
  "info64 info n = ucast (info32 info n) OR push_bit 32 (ucast (info32 info (n + 2)))"

definition ide_save_device_info :: "u16 list \<Rightarrow> ide_device_t \<Rightarrow> ide_device_t" where
  "ide_save_device_info info dv =
     (let dv = dv\<lparr>addr_mode := chs, magic := IDE_DEVICE_MAGIC\<rparr>;
          dv = (if bit (info ! 83) 10 then dv\<lparr>addr_mode := lba48\<rparr> else dv);
          lba28_sectors = info32 info 60;
          lba48_sectors = info64 info 100;
          dv = (if lba28_sectors \<noteq> 0 then dv\<lparr>addr_mode := lba28, sectors := ucast lba28_sectors\<rparr> else dv)
      in if lba48_sectors \<noteq> 0 then dv\<lparr>addr_mode := lba48, sectors := lba48_sectors\<rparr> else dv)"

definition signature_type :: "u8 \<Rightarrow> u8 \<Rightarrow> u32" where
  "signature_type cl ch =
     (if cl = 0x14 \<and> ch = 0xEB then ide_patapi
      else if cl = 0x69 \<and> ch = 0x96 then ide_satapi
      else if cl = 0x00 \<and> ch = 0x00 then ide_pata
      else if cl = 0x3C \<and> ch = 0xC3 then ide_sata
      else ide_unknown)"

definition ide_save_device_ide_type ::
  "'d bus \<Rightarrow> ide_device_t \<Rightarrow> ('d, 'z) pci_state_scheme \<Rightarrow> (ide_device_t \<times> ('d, 'z) pci_state_scheme) option" where
  "ide_save_device_ide_type B dv s =
     (let b = ide_bus dv
      in if b = null then Some (dv, s)
         else do {
           let s = ide_reset B b s;
           let s = ide_wait B b s;
           s \<leftarrow> ide_select_drive B b (drive dv) s;
           let (cl, s) = ide_read_reg B (io_bar s b) IDE_BAR_OFFSET_LBA_MID s;
           let (ch, s) = ide_read_reg B (io_bar s b) IDE_BAR_OFFSET_LBA_HI s;
           Some (dv\<lparr>ide_type := signature_type (ucast cl) (ucast ch)\<rparr>, s) })"

definition zero_ide_device :: ide_device_t where
  "zero_ide_device = \<lparr>ide_bus = null, ide_type = 0, addr_mode = 0, sectors = 0, drive = 0, magic = 0\<rparr>"

text \<open>The end of both halves of \<^verbatim>\<open>ide_bus_test_and_add_drives\<close>: \<open>found\<close> counts the drives.\<close>

definition add_drive ::
  "ide_device_t \<Rightarrow> u8 \<Rightarrow> ('d, 'z) ide_state_scheme \<Rightarrow> (u8 \<times> ('d, 'z) ide_state_scheme) option" where
  "add_drive dv found s = do {
     (ok, t, xs) \<leftarrow> obj_pool_put zero_ide_device (ide_devices_pool_id s) dv (ucast (ide_devices_pool_last_ind s)) (pools s)
                      (ide_devices s);
     let s = s\<lparr>pools := t, ide_devices := xs\<rparr>;
     if ok then Some (found + 1, s\<lparr>ide_devices_pool_last_ind := ide_devices_pool_last_ind s + 1\<rparr>) else Some (found, s) }"

text \<open>
  \<open>u\<close> and \<open>v\<close> are what the uninitialised local devices hold.  The data of the slave is saved
  in a third local device, which is not used afterwards, so the slave keeps what \<open>v\<close> holds.
\<close>

definition ide_bus_test_and_add_drives ::
  "'d bus \<Rightarrow> ide_device_t \<Rightarrow> ide_device_t \<Rightarrow> u64 \<Rightarrow> ('d, 'z) ide_state_scheme \<Rightarrow> (u8 \<times> ('d, 'z) ide_state_scheme) option" where
  "ide_bus_test_and_add_drives B u v b s =
     (if b = null then Some (0, s)
      else do {
        let master_drv = u\<lparr>ide_bus := b, drive := drive_master\<rparr>;
        let slave_drv = v\<lparr>ide_bus := b, drive := drive_slave\<rparr>;
        (ok, info, s) \<leftarrow> ide_identify B master_drv (replicate 256 0) s;
        (found, s) \<leftarrow> (if ok then do {
            let master_drv = ide_save_device_info info master_drv;
            (master_drv, s) \<leftarrow> ide_save_device_ide_type B master_drv s;
            add_drive master_drv 0 s }
          else Some (0, s));
        (ok, info, s) \<leftarrow> ide_identify B slave_drv (replicate 256 0) s;
        if ok then do {
          (slave_drv, s) \<leftarrow> ide_save_device_ide_type B slave_drv s;
          add_drive slave_drv found s }
        else Some (found, s) })"

text \<open>The mode bits lie in \<^verbatim>\<open>prog_if\<close>, the byte 9 of the configuration space.\<close>

definition ide_set_bus_mode ::
  "u64 \<Rightarrow> ide_bus_select_t \<Rightarrow> ide_channel_mode_t \<Rightarrow> ('d, 'z) pci_state_scheme \<Rightarrow> bool \<times> ('d, 'z) pci_state_scheme" where
  "ide_set_bus_mode p b mode s =
     (let pi = prog_if (vmem s) p
      in if p = null then (False, s)
         else if b = primary \<and> bit pi 1
         then (True, s\<lparr>vmem := (vmem s)(p + 9 := if mode = native then pi OR 1 else pi AND 0xFE)\<rparr>)
         else if b = secondary \<and> bit pi 3
         then (True, s\<lparr>vmem := (vmem s)(p + 9 := if mode = native then pi OR 4 else pi AND 0xFB)\<rparr>)
         else (False, s))"

definition ide_bus_init ::
  "u64 \<Rightarrow> u32 \<Rightarrow> u32 \<Rightarrow> bool \<Rightarrow> u64 \<Rightarrow> ('d, 'z) pci_state_scheme \<Rightarrow> ('d, 'z) pci_state_scheme" where
  "ide_bus_init b io ctl dma prdt s =
     (if b = null then s
      else
        let m = store_le 4 (vmem s) b io;
            m = store_le 4 m (b + 4) ctl;
            m = m(b + 8 := of_bool dma)
        in s\<lparr>vmem := store64 m (b + 16) prdt\<rparr>)"

text \<open>
  The addresses of the registers, with the defaults of the compatibility mode.  When the
  first \<^verbatim>\<open>kmalloc\<close> fails, \<^verbatim>\<open>kfree\<close> is called with the uninitialised \<^verbatim>\<open>secondary_bus\<close>, which
  is undefined.
\<close>

definition bar_or :: "u32 \<Rightarrow> u32 \<Rightarrow> u32" where
  "bar_or dflt b = (let b = b AND 0xFFFFFFFC in if b \<noteq> 0 then b else dflt)"

text \<open>The descriptor tables for DMA: the flag tells whether DMA stays enabled.\<close>

definition alloc_prdts ::
  "bool \<Rightarrow> ('d, 'z) pci_state_scheme \<Rightarrow> (bool \<times> u64 \<times> u64 \<times> ('d, 'z) pci_state_scheme) option" where
  "alloc_prdts dma s =
     (if \<not> dma then Some (False, null, null, s)
      else do {
        (p, s) \<leftarrow> kmalloc 1 s;
        (q, s) \<leftarrow> (if p = null then Some (null, s) else kmalloc 1 s);
        if p = null \<or> q = null then do {
          s \<leftarrow> kfree p s;
          s \<leftarrow> kfree q s;
          Some (False, p, q, s) }
        else Some (True, p, q, s) })"

definition ide_init ::
  "'d bus \<Rightarrow> ide_device_t \<Rightarrow> ide_device_t \<Rightarrow> u64 \<Rightarrow> ('d, 'z) ide_state_scheme \<Rightarrow> (bool \<times> ('d, 'z) ide_state_scheme) option" where
  "ide_init B u v p s =
     (if p = null \<or> class_code (vmem s) p \<noteq> mass_storage \<or> sub_class (vmem s) p \<noteq> ide_subclass then Some (False, s)
      else do {
        let (ok, s) = ide_set_bus_mode p primary compatibility s;
        let (ok, s) = (if ok then ide_set_bus_mode p secondary compatibility s else (False, s));
        if \<not> ok then Some (False, s)
        else do {
          let bar0 = bar_or 0x1F0 (bar (vmem s) p 0);
          let bar1 = bar_or 0x3F6 (bar (vmem s) p 1);
          let bar2 = bar_or 0x170 (bar (vmem s) p 2);
          let bar3 = bar_or 0x376 (bar (vmem s) p 3);
          (b1, s) \<leftarrow> kmalloc 24 s;
          if b1 = null then None
          else do {
            (b2, s) \<leftarrow> kmalloc 24 s;
            if b2 = null then do {
              s \<leftarrow> kfree b1 s;
              s \<leftarrow> kfree null s;
              Some (False, s) }
            else do {
              (dma, p1, p2, s) \<leftarrow> alloc_prdts (bit (prog_if (vmem s) p) 7) s;
              let s = ide_bus_init b1 bar0 bar1 dma p1 s;
              let s = ide_bus_init b2 bar2 bar3 dma p2 s;
              (n1, s) \<leftarrow> ide_bus_test_and_add_drives B u v b1 s;
              (n2, s) \<leftarrow> ide_bus_test_and_add_drives B u v b2 s;
              s \<leftarrow> (if n1 = 0 then do { s \<leftarrow> kfree p1 s; kfree b1 s } else Some s);
              s \<leftarrow> (if n2 = 0 then do { s \<leftarrow> kfree p2 s; kfree b2 s } else Some s);
              Some (True, s) } } } })"

end
