(* ===== verification/Ahci.thy ===== *)
theory Ahci
  imports Ide_Setup
begin

text \<open>
  The AHCI driver, \<^verbatim>\<open>drv/ahci/ahci.c\<close> and \<^verbatim>\<open>ahci_setup.c\<close>.  The registers of the host
  adapter lie in memory at the offsets of \<^verbatim>\<open>drv/ahci/include/ahci.h\<close>; they are plain memory, which
  keeps what is written to it: what a device does when a register is written is not modelled.
\<close>

record ahci_device_t =
  ctrl_address :: u64
  port_address :: u64

record 'd ahci_state = "'d ide_state" +
  ahci_devices_pool_id :: pool_t
  ahci_devices_pool_last_id :: u32
  ahci_devices :: "ahci_device_t list"

definition ahci_ata :: u32 where [c_macros]: "ahci_ata = 0x00000101"
definition sata_subclass :: u8 where [c_macros]: "sata_subclass = 6"

text \<open>The registers of the adapter and of a port, of which each takes 128 bytes.\<close>

definition host_capability :: "memory \<Rightarrow> u64 \<Rightarrow> u32" where "host_capability m h = load_le 4 m h"
definition port_impl :: "memory \<Rightarrow> u64 \<Rightarrow> u32" where "port_impl m h = load_le 4 m (h + 0x0C)"
definition hba_port :: "u64 \<Rightarrow> nat \<Rightarrow> u64" where "hba_port h i = h + 0x100 + 0x80 * of_nat i"
definition clb_lo :: "memory \<Rightarrow> u64 \<Rightarrow> u32" where "clb_lo m p = load_le 4 m p"
definition clb_hi :: "memory \<Rightarrow> u64 \<Rightarrow> u32" where "clb_hi m p = load_le 4 m (p + 4)"
definition port_signature :: "memory \<Rightarrow> u64 \<Rightarrow> u32" where "port_signature m p = load_le 4 m (p + 0x24)"
definition sata_status :: "memory \<Rightarrow> u64 \<Rightarrow> u32" where "sata_status m p = load_le 4 m (p + 0x28)"
definition command_issue :: "memory \<Rightarrow> u64 \<Rightarrow> u32" where "command_issue m p = load_le 4 m (p + 0x38)"

text \<open>The addresses of the command list and of a command table.  A command header has 32 bytes.\<close>

definition command_list :: "memory \<Rightarrow> u64 \<Rightarrow> u64" where
  "command_list m p = push_bit 32 (ucast (clb_hi m p)) OR ucast (clb_lo m p)"

definition command_table :: "memory \<Rightarrow> u64 \<Rightarrow> u64" where
  "command_table m c = push_bit 32 (ucast (load_le 4 m (c + 12) :: u32)) OR ucast (load_le 4 m (c + 8) :: u32)"

section \<open>ahci.c\<close>

text \<open>The search for a free slot sets its bit; \<open>None\<close> is the null pointer after the loop.\<close>

fun free_slot :: "nat \<Rightarrow> nat \<Rightarrow> u64 \<Rightarrow> memory \<Rightarrow> nat option \<times> memory" where
  "free_slot i 0 p m = (None, m)"
| "free_slot i (Suc k) p m =
     (if \<not> bit (command_issue m p) i
      then (Some i, store_le 4 m (p + 0x38) (command_issue m p OR push_bit i 1))
      else free_slot (Suc i) k p m)"

definition ahci_cl_get_slot ::
  "ahci_device_t option \<Rightarrow> ('d, 'z) ahci_state_scheme \<Rightarrow> u64 \<times> ('d, 'z) ahci_state_scheme" where
  "ahci_cl_get_slot dvp s =
     (case dvp of None \<Rightarrow> (null, s)
      | Some dv \<Rightarrow>
          if port_address dv = null then (null, s)
          else
            let p = port_address dv; cl = command_list (vmem s) p
            in if cl = null then (null, s)
               else
                 let n_slots = drop_bit 8 (host_capability (vmem s) (ctrl_address dv)) AND 0x1F
                 in case free_slot 0 (unat n_slots) p (vmem s) of
                      (None, m) \<Rightarrow> (null, s)
                    | (Some i, m) \<Rightarrow> (cl + 32 * of_nat i, s\<lparr>vmem := m\<rparr>))"

text \<open>\<open>comm\<close> is the address of the argument, a command header.\<close>

definition ahci_command ::
  "ahci_device_t option \<Rightarrow> u64 \<Rightarrow> ('d, 'z) ahci_state_scheme \<Rightarrow> bool \<times> ('d, 'z) ahci_state_scheme" where
  "ahci_command dvp comm s =
     (if dvp = None then (False, s)
      else
        let (slt, s) = ahci_cl_get_slot dvp s
        in if slt = null then (False, s) else (True, s\<lparr>vmem := memcpy slt comm 32 (vmem s)\<rparr>))"

section \<open>ahci\_setup.c\<close>

fun print_tables ::
  "frame \<Rightarrow> u64 \<Rightarrow> nat \<Rightarrow> nat \<Rightarrow> ('d, 'z) ahci_state_scheme \<Rightarrow> ('d, 'z) ahci_state_scheme option" where
  "print_tables F cl i 0 s = Some s"
| "print_tables F cl i (Suc k) s = do {
     s \<leftarrow> kprintf F (''command table %d at 0x%X'' @ [CHR 10]) [of_nat i, command_table (vmem s) (cl + 32 * of_nat i)] s;
     print_tables F cl (Suc i) k s }"

definition ahci_init_device ::
  "frame \<Rightarrow> u64 \<Rightarrow> ('d, 'z) ahci_state_scheme \<Rightarrow> (bool \<times> ('d, 'z) ahci_state_scheme) option" where
  "ahci_init_device F p s =
     (if p = null then Some (False, s)
      else
        let ipm = drop_bit 8 (sata_status (vmem s) p) AND 0x0F; det = sata_status (vmem s) p AND 0x0F
        in if det \<noteq> 3 \<or> ipm \<noteq> 1 \<or> port_signature (vmem s) p \<noteq> ahci_ata then Some (True, s)
           else do {
             s \<leftarrow> print_tables F (command_list (vmem s) p) 0 32 s;
             Some (True, s) })"

definition zero_ahci_device :: ahci_device_t where
  "zero_ahci_device = \<lparr>ctrl_address = null, port_address = null\<rparr>"

fun add_ports ::
  "frame \<Rightarrow> u64 \<Rightarrow> nat \<Rightarrow> nat \<Rightarrow> ('d, 'z) ahci_state_scheme \<Rightarrow> (bool \<times> ('d, 'z) ahci_state_scheme) option" where
  "add_ports F h i 0 s = Some (True, s)"
| "add_ports F h i (Suc k) s =
     (if \<not> bit (port_impl (vmem s) h) i then add_ports F h (Suc i) k s
      else do {
        (ok, s) \<leftarrow> ahci_init_device F (hba_port h i) s;
        if \<not> ok then Some (False, s)
        else do {
          (ok, t, xs) \<leftarrow> obj_pool_put zero_ahci_device (ahci_devices_pool_id s)
              \<lparr>ctrl_address = h, port_address = hba_port h i\<rparr> (ahci_devices_pool_last_id s) (pools s) (ahci_devices s);
          let s = s\<lparr>pools := t, ahci_devices := xs\<rparr>;
          if ok then add_ports F h (Suc i) k (s\<lparr>ahci_devices_pool_last_id := ahci_devices_pool_last_id s + 1\<rparr>)
          else Some (False, s) } })"

definition ahci_search_and_add_devices ::
  "frame \<Rightarrow> u64 \<Rightarrow> ('d, 'z) ahci_state_scheme \<Rightarrow> (bool \<times> ('d, 'z) ahci_state_scheme) option" where
  "ahci_search_and_add_devices F h s = (if h = null then Some (False, s) else add_ports F h 0 32 s)"

definition ahci_init :: "frame \<Rightarrow> u64 \<Rightarrow> ('d, 'z) ahci_state_scheme \<Rightarrow> (bool \<times> ('d, 'z) ahci_state_scheme) option" where
  "ahci_init F p s =
     (if p = null \<or> class_code (vmem s) p \<noteq> mass_storage \<or> sub_class (vmem s) p \<noteq> sata_subclass then Some (False, s)
      else
        let abar = ucast (bar (vmem s) p 5)
        in if abar = null then Some (False, s) else ahci_search_and_add_devices F abar s)"

end
