(* ===== verification/Pcie.thy ===== *)
theory Pcie
  imports Ahci
begin

text \<open>
  The enumeration of the PCI express devices: \<^verbatim>\<open>io/pcie.c\<close>, the choice of a driver in
  \<^verbatim>\<open>io/devs.c\<close>, and \<^verbatim>\<open>io/pci.c\<close>.
\<close>

record ms_dev_t =
  ms_type :: u32
  ms_pool_id :: pool_t

record 'd pcie_state = "'d ahci_state" +
  mass_storage_pool_id :: pool_t
  mass_storage_map :: "ms_dev_t list"

definition ata_subclass :: u8 where [c_macros]: "ata_subclass = 5"
definition nvm_subclass :: u8 where [c_macros]: "nvm_subclass = 8"

definition PCIE_FNC_ADDRESS :: "u64 \<Rightarrow> u8 \<Rightarrow> u8 \<Rightarrow> u8 \<Rightarrow> u64" where
  "PCIE_FNC_ADDRESS config b dv fnc =
     config + (push_bit 20 (ucast b) OR push_bit 15 (ucast dv) OR push_bit 12 (ucast fnc))"

section \<open>Choosing the driver\<close>

text \<open>\<open>U\<close> is what the uninitialised local devices of the IDE setup hold.\<close>

definition devs_config_mass_storage ::
  "'d bus \<Rightarrow> frame \<Rightarrow> ide_device_t \<times> ide_device_t \<Rightarrow> u64 \<Rightarrow> ('d, 'z) pcie_state_scheme \<Rightarrow>
   (bool \<times> ('d, 'z) pcie_state_scheme) option" where
  "devs_config_mass_storage B F U p s =
     (if p = null then Some (False, s)
      else
        let sc = sub_class (vmem s) p
        in if sc = ide_subclass then ide_init B (fst U) (snd U) p s
           else if sc = ata_subclass then Some (True, s)
           else if sc = sata_subclass then ahci_init F p s
           else if sc = nvm_subclass then Some (True, s)
           else Some (False, s))"

definition pci_init_device ::
  "'d bus \<Rightarrow> frame \<Rightarrow> ide_device_t \<times> ide_device_t \<Rightarrow> u64 \<Rightarrow> ('d, 'z) pcie_state_scheme \<Rightarrow>
   (bool \<times> ('d, 'z) pcie_state_scheme) option" where
  "pci_init_device B F U p s =
     (if p = null then Some (False, s)
      else if class_code (vmem s) p = mass_storage then devs_config_mass_storage B F U p s
      else Some (True, s))"

section \<open>Scanning\<close>

text \<open>The body of the loop of \<^verbatim>\<open>pcie_scan_device\<close> for a general device on the bus \<open>current\<close>.\<close>

definition add_general_device ::
  "'d bus \<Rightarrow> frame \<Rightarrow> ide_device_t \<times> ide_device_t \<Rightarrow> u64 \<Rightarrow> u64 \<Rightarrow> ('d, 'z) pcie_state_scheme \<Rightarrow>
   (bool \<times> ('d, 'z) pcie_state_scheme) option" where
  "add_general_device B F U p current s = do {
     (ok, s) \<leftarrow> pci_init_device B F U p s;
     if \<not> ok then Some (False, s)
     else do {
       (node, s) \<leftarrow> pci_tree_create_device p current s;
       pci_tree_install_device node current s } }"

definition add_bridge ::
  "u64 \<Rightarrow> u64 \<Rightarrow> ('d, 'z) pcie_state_scheme \<Rightarrow> (bool \<times> ('d, 'z) pcie_state_scheme) option" where
  "add_bridge p current s = do {
     (b, s) \<leftarrow> pci_tree_create_bus (secondary_bus_number (vmem s) p) s;
     pci_tree_install_bus current b p s }"

text \<open>
  \<^verbatim>\<open>pcie_scan_bus\<close> and \<^verbatim>\<open>pcie_scan_device\<close> call each other; a task says which of them runs and
  from which device or function on.
\<close>

datatype scan_task = Scan_Bus u8 u8 | Scan_Device u8 u8 u8

partial_function (option) pcie_scan ::
  "'d bus \<Rightarrow> frame \<Rightarrow> ide_device_t \<times> ide_device_t \<Rightarrow> u64 \<Rightarrow> scan_task \<Rightarrow> ('d, 'z) pcie_state_scheme \<Rightarrow>
   (bool \<times> ('d, 'z) pcie_state_scheme) option" where
  "pcie_scan B F U config task s =
     (case task of
        Scan_Bus b dv \<Rightarrow>
          if 32 \<le> dv then Some (True, s)
          else do {
            (ok, s) \<leftarrow> pcie_scan B F U config (Scan_Device b dv 0) s;
            if \<not> ok then Some (False, s) else pcie_scan B F U config (Scan_Bus b (dv + 1)) s }
      | Scan_Device b dv fnc \<Rightarrow>
          if 8 \<le> fnc then Some (True, s)
          else
            let p = PCIE_FNC_ADDRESS config b dv fnc
            in if vendor_id (vmem s) p = 0xFFFF then Some (True, s)
               else do {
                 let ty = header_type (vmem s) p AND 0x7F;
                 current \<leftarrow> pci_tree_get_bus_by_id b s;
                 s \<leftarrow> assert_true (current \<noteq> null) s;
                 if ty \<noteq> general_device \<and> ty \<noteq> pci_to_pci_bridge
                 then pcie_scan B F U config (Scan_Device b dv (fnc + 1)) s
                 else do {
                   (ok, s) \<leftarrow> (if ty = general_device then add_general_device B F U p current s
                     else do {
                       (ok, s) \<leftarrow> add_bridge p current s;
                       if \<not> ok then Some (False, s)
                       else do {
                         (_, s) \<leftarrow> pcie_scan B F U config (Scan_Bus (secondary_bus_number (vmem s) p) 0) s;
                         Some (True, s) } });
                   if \<not> ok then Some (False, s)
                   else if \<not> bit (header_type (vmem s) p) 7 \<and> fnc = 0 then Some (True, s)
                   else pcie_scan B F U config (Scan_Device b dv (fnc + 1)) s } })"

definition pcie_scan_bus ::
  "'d bus \<Rightarrow> frame \<Rightarrow> ide_device_t \<times> ide_device_t \<Rightarrow> u64 \<Rightarrow> u8 \<Rightarrow> ('d, 'z) pcie_state_scheme \<Rightarrow>
   (bool \<times> ('d, 'z) pcie_state_scheme) option" where
  "pcie_scan_bus B F U config b = pcie_scan B F U config (Scan_Bus b 0)"

definition pcie_scan_device ::
  "'d bus \<Rightarrow> frame \<Rightarrow> ide_device_t \<times> ide_device_t \<Rightarrow> u64 \<Rightarrow> u8 \<Rightarrow> u8 \<Rightarrow> ('d, 'z) pcie_state_scheme \<Rightarrow>
   (bool \<times> ('d, 'z) pcie_state_scheme) option" where
  "pcie_scan_device B F U config b dv = pcie_scan B F U config (Scan_Device b dv 0)"

text \<open>The entries of the MCFG table, of 16 bytes each, begin at offset 44.\<close>

definition mcfg_entry :: "u64 \<Rightarrow> nat \<Rightarrow> u64" where "mcfg_entry mcfg i = mcfg + 44 + 16 * of_nat i"
definition mcfg_base :: "memory \<Rightarrow> u64 \<Rightarrow> u64" where "mcfg_base m e = load64 m e"
definition mcfg_start_bus :: "memory \<Rightarrow> u64 \<Rightarrow> u8" where "mcfg_start_bus m e = m (e + 10)"

text \<open>\<^verbatim>\<open>pcie_iterate_mcfg\<close> has no \<^verbatim>\<open>return\<close> after its loop: the result is then undefined.\<close>

fun scan_mcfg ::
  "'d bus \<Rightarrow> frame \<Rightarrow> ide_device_t \<times> ide_device_t \<Rightarrow> u64 \<Rightarrow> nat \<Rightarrow> nat \<Rightarrow> ('d, 'z) pcie_state_scheme \<Rightarrow>
   (bool option \<times> ('d, 'z) pcie_state_scheme) option" where
  "scan_mcfg B F U mcfg i 0 s = Some (None, s)"
| "scan_mcfg B F U mcfg i (Suc k) s = do {
     let e = mcfg_entry mcfg i;
     (ok, s) \<leftarrow> pcie_scan_bus B F U (mcfg_base (vmem s) e) (mcfg_start_bus (vmem s) e) s;
     if \<not> ok then Some (Some False, s) else scan_mcfg B F U mcfg (Suc i) k s }"

definition pcie_iterate_mcfg ::
  "'d bus \<Rightarrow> frame \<Rightarrow> ide_device_t \<times> ide_device_t \<Rightarrow> u64 \<Rightarrow> ('d, 'z) pcie_state_scheme \<Rightarrow>
   (bool option \<times> ('d, 'z) pcie_state_scheme) option" where
  "pcie_iterate_mcfg B F U mcfg s =
     (if mcfg = null then Some (Some False, s)
      else
        let n_entries = ucast ((ucast (table_length (header_at (vmem s) mcfg)) - HEADER_SIZE - 8) div 16) :: u32
        in scan_mcfg B F U mcfg 0 (unat n_entries) s)"

definition enum_pcie ::
  "'d bus \<Rightarrow> frame \<Rightarrow> ide_device_t \<times> ide_device_t \<Rightarrow> ('d, 'z) pcie_state_scheme \<Rightarrow>
   (bool option \<times> ('d, 'z) pcie_state_scheme) option" where
  "enum_pcie B F U s =
     (let mcfg = acpi_locate_table (bytes_of ''MCFG'') 0 s
      in if mcfg = null then Some (Some False, s) else pcie_iterate_mcfg B F U mcfg s)"

definition init_pci ::
  "'d bus \<Rightarrow> frame \<Rightarrow> ide_device_t \<times> ide_device_t \<Rightarrow> ('d, 'z) pcie_state_scheme \<Rightarrow>
   (bool option \<times> ('d, 'z) pcie_state_scheme) option" where
  "init_pci B F U s = do {
     (ok, s) \<leftarrow> init_pci_tree s;
     if \<not> ok then Some (Some False, s)
     else do {
       (r, s) \<leftarrow> create_obj_pool \<lparr>ms_type = 0, ms_pool_id = 0\<rparr> 8 8 manual s;
       case r of None \<Rightarrow> Some (Some False, s)
       | Some (pid, xs) \<Rightarrow> do {
           let s = s\<lparr>mass_storage_pool_id := pid, mass_storage_map := xs\<rparr>;
           (r, s) \<leftarrow> create_obj_pool zero_ide_device 32 16 manual s;
           case r of None \<Rightarrow> Some (Some False, s)
           | Some (pid, xs) \<Rightarrow> do {
               let s = s\<lparr>ide_devices_pool_id := pid, ide_devices := xs\<rparr>;
               (r, s) \<leftarrow> create_obj_pool zero_ahci_device 16 128 manual s;
               case r of None \<Rightarrow> Some (Some False, s)
               | Some (pid, xs) \<Rightarrow> do {
                   let s = s\<lparr>ahci_devices_pool_id := pid, ahci_devices := xs\<rparr>;
                   enum_pcie B F U s } } } } }"

end
