(* ===== verification/Isr.thy ===== *)
theory Isr
  imports Keyboard
begin

text \<open>
  The interrupt service routines of \<^verbatim>\<open>int/isr.c\<close>.  \<open>call\<close> is what the function at an address
  does, for the hooks.  The routines of the exceptions halt the machine in the end; those
  that call \<^verbatim>\<open>panic\<close> do not return, which is \<open>None\<close>.
\<close>

record x64_int_frame =
  rip :: u64
  frame_cs :: u64
  rflags :: u64
  frame_sp :: u64
  frame_ss :: u64

abbreviation newline :: string where "newline \<equiv> [CHR 10]"

definition print_int_frame ::
  "frame \<Rightarrow> x64_int_frame \<Rightarrow> ('d, 'z) keyboard_state_scheme \<Rightarrow> ('d, 'z) keyboard_state_scheme option" where
  "print_int_frame F f s = do {
     let old_color = get_tty_char_fg s;
     let s = set_tty_char_fg TTY_COLOR_WHITE s;
     s \<leftarrow> kprintf F (''Interrupt frame:'' @ newline) [] s;
     s \<leftarrow> kprintf F (''RIP:      0x%lX'' @ newline) [rip f] s;
     s \<leftarrow> kprintf F (''CS:       %ld'' @ newline) [frame_cs f] s;
     s \<leftarrow> kprintf F (''RFLAGS:   %ld'' @ newline) [rflags f] s;
     s \<leftarrow> kprintf F (''SP:       0x%lX'' @ newline) [frame_sp f] s;
     s \<leftarrow> kprintf F (''SS:       %ld'' @ newline) [frame_ss f] s;
     Some (set_tty_char_fg old_color s) }"

section \<open>Exceptions\<close>

definition int_00 ::
  "frame \<Rightarrow> (u64 \<Rightarrow> ('d, 'z) keyboard_state_scheme \<Rightarrow> ('d, 'z) keyboard_state_scheme option) \<Rightarrow> x64_int_frame \<Rightarrow>
   ('d, 'z) keyboard_state_scheme \<Rightarrow> ('d, 'z) keyboard_state_scheme option" where
  "int_00 F call f s = do {
     s \<leftarrow> kprintf F (''Division by zero'' @ newline) [] s;
     s \<leftarrow> print_int_frame F f s;
     s \<leftarrow> int_exec_hooks call 0 s;
     Some (sys_hlt s) }"

definition int_01 ::
  "frame \<Rightarrow> (u64 \<Rightarrow> ('d, 'z) keyboard_state_scheme \<Rightarrow> ('d, 'z) keyboard_state_scheme option) \<Rightarrow> x64_int_frame \<Rightarrow>
   ('d, 'z) keyboard_state_scheme \<Rightarrow> ('d, 'z) keyboard_state_scheme option" where
  "int_01 F call f s = do {
     s \<leftarrow> kprintf F (''Single step interrupt'' @ newline) [] s;
     s \<leftarrow> print_int_frame F f s;
     s \<leftarrow> int_exec_hooks call 1 s;
     Some (sys_hlt s) }"

definition int_02 ::
  "frame \<Rightarrow> (u64 \<Rightarrow> ('d, 'z) keyboard_state_scheme \<Rightarrow> ('d, 'z) keyboard_state_scheme option) \<Rightarrow> x64_int_frame \<Rightarrow>
   ('d, 'z) keyboard_state_scheme \<Rightarrow> ('d, 'z) keyboard_state_scheme option" where
  "int_02 F call f s = do {
     s \<leftarrow> kprintf F (''Non-maskable interrupt'' @ newline) [] s;
     s \<leftarrow> print_int_frame F f s;
     s \<leftarrow> int_exec_hooks call 2 s;
     Some (sys_hlt s) }"

definition int_03 ::
  "frame \<Rightarrow> (u64 \<Rightarrow> ('d, 'z) keyboard_state_scheme \<Rightarrow> ('d, 'z) keyboard_state_scheme option) \<Rightarrow> x64_int_frame \<Rightarrow>
   ('d, 'z) keyboard_state_scheme \<Rightarrow> ('d, 'z) keyboard_state_scheme option" where
  "int_03 F call f s = do {
     s \<leftarrow> kprintf F (''Breakpoint'' @ newline) [] s;
     s \<leftarrow> print_int_frame F f s;
     s \<leftarrow> int_exec_hooks call 3 s;
     Some (sys_hlt s) }"

definition int_04 ::
  "frame \<Rightarrow> (u64 \<Rightarrow> ('d, 'z) keyboard_state_scheme \<Rightarrow> ('d, 'z) keyboard_state_scheme option) \<Rightarrow> x64_int_frame \<Rightarrow>
   ('d, 'z) keyboard_state_scheme \<Rightarrow> ('d, 'z) keyboard_state_scheme option" where
  "int_04 F call f s = do {
     s \<leftarrow> kprintf F (''Overflow'' @ newline) [] s;
     s \<leftarrow> print_int_frame F f s;
     s \<leftarrow> int_exec_hooks call 4 s;
     Some (sys_hlt s) }"

definition int_05 ::
  "frame \<Rightarrow> (u64 \<Rightarrow> ('d, 'z) keyboard_state_scheme \<Rightarrow> ('d, 'z) keyboard_state_scheme option) \<Rightarrow> x64_int_frame \<Rightarrow>
   ('d, 'z) keyboard_state_scheme \<Rightarrow> ('d, 'z) keyboard_state_scheme option" where
  "int_05 F call f s = do {
     s \<leftarrow> kprintf F (''Bound range exceeded'' @ newline) [] s;
     s \<leftarrow> print_int_frame F f s;
     s \<leftarrow> int_exec_hooks call 5 s;
     Some (sys_hlt s) }"

definition int_06 ::
  "frame \<Rightarrow> (u64 \<Rightarrow> ('d, 'z) keyboard_state_scheme \<Rightarrow> ('d, 'z) keyboard_state_scheme option) \<Rightarrow> x64_int_frame \<Rightarrow>
   ('d, 'z) keyboard_state_scheme \<Rightarrow> ('d, 'z) keyboard_state_scheme option" where
  "int_06 F call f s = do {
     s \<leftarrow> print_int_frame F f s;
     s \<leftarrow> int_exec_hooks call 6 s;
     None }"

definition int_07 ::
  "frame \<Rightarrow> (u64 \<Rightarrow> ('d, 'z) keyboard_state_scheme \<Rightarrow> ('d, 'z) keyboard_state_scheme option) \<Rightarrow> x64_int_frame \<Rightarrow>
   ('d, 'z) keyboard_state_scheme \<Rightarrow> ('d, 'z) keyboard_state_scheme option" where
  "int_07 F call f s = do {
     s \<leftarrow> kprintf F (''Coprocessor not available'' @ newline) [] s;
     s \<leftarrow> print_int_frame F f s;
     s \<leftarrow> int_exec_hooks call 7 s;
     Some (sys_hlt s) }"

definition int_08 ::
  "frame \<Rightarrow> (u64 \<Rightarrow> ('d, 'z) keyboard_state_scheme \<Rightarrow> ('d, 'z) keyboard_state_scheme option) \<Rightarrow> x64_int_frame \<Rightarrow>
   ('d, 'z) keyboard_state_scheme \<Rightarrow> ('d, 'z) keyboard_state_scheme option" where
  "int_08 F call f s = do {
     s \<leftarrow> kprintf F (''Double fault'' @ newline) [] s;
     s \<leftarrow> print_int_frame F f s;
     s \<leftarrow> int_exec_hooks call 8 s;
     Some (sys_hlt s) }"

definition int_09 ::
  "frame \<Rightarrow> (u64 \<Rightarrow> ('d, 'z) keyboard_state_scheme \<Rightarrow> ('d, 'z) keyboard_state_scheme option) \<Rightarrow> x64_int_frame \<Rightarrow>
   ('d, 'z) keyboard_state_scheme \<Rightarrow> ('d, 'z) keyboard_state_scheme option" where
  "int_09 F call f s = do {
     s \<leftarrow> kprintf F (''Coprocessor segment overrun'' @ newline) [] s;
     s \<leftarrow> print_int_frame F f s;
     s \<leftarrow> int_exec_hooks call 9 s;
     Some (sys_hlt s) }"

definition int_0A ::
  "frame \<Rightarrow> (u64 \<Rightarrow> ('d, 'z) keyboard_state_scheme \<Rightarrow> ('d, 'z) keyboard_state_scheme option) \<Rightarrow> x64_int_frame \<Rightarrow> u64 \<Rightarrow>
   ('d, 'z) keyboard_state_scheme \<Rightarrow> ('d, 'z) keyboard_state_scheme option" where
  "int_0A F call f err s = do {
     s \<leftarrow> kprintf F (''Invalid TSS'' @ newline) [] s;
     s \<leftarrow> print_int_frame F f s;
     s \<leftarrow> kprintf F (''Segment selector index: %ld'' @ newline) [err] s;
     s \<leftarrow> int_exec_hooks call 10 s;
     Some (sys_hlt s) }"

definition int_0B ::
  "frame \<Rightarrow> (u64 \<Rightarrow> ('d, 'z) keyboard_state_scheme \<Rightarrow> ('d, 'z) keyboard_state_scheme option) \<Rightarrow> x64_int_frame \<Rightarrow> u64 \<Rightarrow>
   ('d, 'z) keyboard_state_scheme \<Rightarrow> ('d, 'z) keyboard_state_scheme option" where
  "int_0B F call f err s = do {
     s \<leftarrow> kprintf F (''Segment not present'' @ newline) [] s;
     s \<leftarrow> print_int_frame F f s;
     s \<leftarrow> kprintf F (''Segment selector index: %ld'' @ newline) [err] s;
     s \<leftarrow> int_exec_hooks call 11 s;
     Some (sys_hlt s) }"

definition int_0C ::
  "frame \<Rightarrow> (u64 \<Rightarrow> ('d, 'z) keyboard_state_scheme \<Rightarrow> ('d, 'z) keyboard_state_scheme option) \<Rightarrow> x64_int_frame \<Rightarrow> u64 \<Rightarrow>
   ('d, 'z) keyboard_state_scheme \<Rightarrow> ('d, 'z) keyboard_state_scheme option" where
  "int_0C F call f err s = do {
     s \<leftarrow> kprintf F (''Stack segment fault'' @ newline) [] s;
     s \<leftarrow> print_int_frame F f s;
     s \<leftarrow> (if err \<noteq> 0 then kprintf F (''Stack segment elector index: %ld'' @ newline) [err] s else Some s);
     s \<leftarrow> int_exec_hooks call 12 s;
     Some (sys_hlt s) }"

definition int_0D ::
  "frame \<Rightarrow> (u64 \<Rightarrow> ('d, 'z) keyboard_state_scheme \<Rightarrow> ('d, 'z) keyboard_state_scheme option) \<Rightarrow> x64_int_frame \<Rightarrow> u64 \<Rightarrow>
   ('d, 'z) keyboard_state_scheme \<Rightarrow> ('d, 'z) keyboard_state_scheme option" where
  "int_0D F call f err s = do {
     s \<leftarrow> kprintf F (''General protection fault'' @ newline) [] s;
     s \<leftarrow> print_int_frame F f s;
     s \<leftarrow> (if err \<noteq> 0 then kprintf F (''Segment selector index: %ld'' @ newline) [err] s
       else kprintf F (''not segment related'' @ newline) [] s);
     s \<leftarrow> int_exec_hooks call 13 s;
     None }"

definition int_0E ::
  "'d bus \<Rightarrow> frame \<Rightarrow> (u64 \<Rightarrow> ('d, 'z) keyboard_state_scheme \<Rightarrow> ('d, 'z) keyboard_state_scheme option) \<Rightarrow> x64_int_frame \<Rightarrow> u64 \<Rightarrow>
   ('d, 'z) keyboard_state_scheme \<Rightarrow> ('d, 'z) keyboard_state_scheme option" where
  "int_0E B F call f err s = do {
     s \<leftarrow> kprintf F (''Page fault'' @ newline) [] s;
     s \<leftarrow> print_int_frame F f s;
     s \<leftarrow> (if err AND 1 \<noteq> 0 then kprintf F (''page access rights violated'' @ newline) [] s else Some s);
     s \<leftarrow> (if drop_bit 1 err AND 1 \<noteq> 0 then kprintf F ''write right '' [] s else kprintf F ''read right '' [] s);
     s \<leftarrow> (if drop_bit 2 err AND 1 \<noteq> 0 then kprintf F ''user mode '' [] s else Some s);
     s \<leftarrow> (if drop_bit 4 err AND 1 \<noteq> 0 then kprintf F ''fetch '' [] s else Some s);
     s \<leftarrow> kprintf F (newline @ ''address that caused the fault: 0x%x'' @ newline) [get_cr2 B s] s;
     s \<leftarrow> int_exec_hooks call 14 s;
     Some (sys_hlt s) }"

definition int_0F ::
  "frame \<Rightarrow> (u64 \<Rightarrow> ('d, 'z) keyboard_state_scheme \<Rightarrow> ('d, 'z) keyboard_state_scheme option) \<Rightarrow> x64_int_frame \<Rightarrow>
   ('d, 'z) keyboard_state_scheme \<Rightarrow> ('d, 'z) keyboard_state_scheme option" where
  "int_0F F call f s = do {
     s \<leftarrow> kprintf F (''Reserved'' @ newline) [] s;
     s \<leftarrow> print_int_frame F f s;
     s \<leftarrow> int_exec_hooks call 15 s;
     Some (sys_hlt s) }"

definition int_10 ::
  "frame \<Rightarrow> (u64 \<Rightarrow> ('d, 'z) keyboard_state_scheme \<Rightarrow> ('d, 'z) keyboard_state_scheme option) \<Rightarrow> x64_int_frame \<Rightarrow>
   ('d, 'z) keyboard_state_scheme \<Rightarrow> ('d, 'z) keyboard_state_scheme option" where
  "int_10 F call f s = do {
     s \<leftarrow> kprintf F (''x87 Floating Point Exception'' @ newline) [] s;
     s \<leftarrow> print_int_frame F f s;
     s \<leftarrow> int_exec_hooks call 16 s;
     Some (sys_hlt s) }"

definition int_11 ::
  "frame \<Rightarrow> (u64 \<Rightarrow> ('d, 'z) keyboard_state_scheme \<Rightarrow> ('d, 'z) keyboard_state_scheme option) \<Rightarrow> x64_int_frame \<Rightarrow>
   ('d, 'z) keyboard_state_scheme \<Rightarrow> ('d, 'z) keyboard_state_scheme option" where
  "int_11 F call f s = do {
     s \<leftarrow> kprintf F (''Alignment check'' @ newline) [] s;
     s \<leftarrow> print_int_frame F f s;
     s \<leftarrow> int_exec_hooks call 17 s;
     Some (sys_hlt s) }"

definition int_12 ::
  "frame \<Rightarrow> (u64 \<Rightarrow> ('d, 'z) keyboard_state_scheme \<Rightarrow> ('d, 'z) keyboard_state_scheme option) \<Rightarrow> x64_int_frame \<Rightarrow>
   ('d, 'z) keyboard_state_scheme \<Rightarrow> ('d, 'z) keyboard_state_scheme option" where
  "int_12 F call f s = do {
     s \<leftarrow> kprintf F (''Machine check'' @ newline) [] s;
     s \<leftarrow> print_int_frame F f s;
     s \<leftarrow> int_exec_hooks call 18 s;
     Some (sys_hlt s) }"

definition int_13 ::
  "frame \<Rightarrow> (u64 \<Rightarrow> ('d, 'z) keyboard_state_scheme \<Rightarrow> ('d, 'z) keyboard_state_scheme option) \<Rightarrow> x64_int_frame \<Rightarrow>
   ('d, 'z) keyboard_state_scheme \<Rightarrow> ('d, 'z) keyboard_state_scheme option" where
  "int_13 F call f s = do {
     s \<leftarrow> kprintf F (''SIMD Floating-Point Exception'' @ newline) [] s;
     s \<leftarrow> print_int_frame F f s;
     s \<leftarrow> int_exec_hooks call 19 s;
     Some (sys_hlt s) }"

definition int_14 ::
  "frame \<Rightarrow> (u64 \<Rightarrow> ('d, 'z) keyboard_state_scheme \<Rightarrow> ('d, 'z) keyboard_state_scheme option) \<Rightarrow> x64_int_frame \<Rightarrow>
   ('d, 'z) keyboard_state_scheme \<Rightarrow> ('d, 'z) keyboard_state_scheme option" where
  "int_14 F call f s = do {
     s \<leftarrow> kprintf F (''Virtualization Exception'' @ newline) [] s;
     s \<leftarrow> print_int_frame F f s;
     s \<leftarrow> int_exec_hooks call 20 s;
     Some (sys_hlt s) }"

definition int_15 ::
  "frame \<Rightarrow> (u64 \<Rightarrow> ('d, 'z) keyboard_state_scheme \<Rightarrow> ('d, 'z) keyboard_state_scheme option) \<Rightarrow> x64_int_frame \<Rightarrow>
   ('d, 'z) keyboard_state_scheme \<Rightarrow> ('d, 'z) keyboard_state_scheme option" where
  "int_15 F call f s = do {
     s \<leftarrow> kprintf F (''Control Protection Exception'' @ newline) [] s;
     s \<leftarrow> print_int_frame F f s;
     s \<leftarrow> int_exec_hooks call 21 s;
     Some (sys_hlt s) }"

text \<open>It changes the saved segment registers of the interrupted code.\<close>

definition int_16 ::
  "(u64 \<Rightarrow> ('d, 'z) keyboard_state_scheme \<Rightarrow> ('d, 'z) keyboard_state_scheme option) \<Rightarrow> x64_int_frame \<Rightarrow>
   ('d, 'z) keyboard_state_scheme \<Rightarrow> (x64_int_frame \<times> ('d, 'z) keyboard_state_scheme) option" where
  "int_16 call f s = do {
     let f = f\<lparr>frame_ss := ucast (GDT_KERNEL_DS * 8), frame_cs := ucast (GDT_KERNEL_CS * 8)\<rparr>;
     s \<leftarrow> int_exec_hooks call 22 s;
     Some (f, s) }"

section \<open>Interrupt requests\<close>

definition irq0 ::
  "'d bus \<Rightarrow> (u64 \<Rightarrow> ('d, 'z) keyboard_state_scheme \<Rightarrow> ('d, 'z) keyboard_state_scheme option) \<Rightarrow>
   ('d, 'z) keyboard_state_scheme \<Rightarrow> ('d, 'z) keyboard_state_scheme option" where
  "irq0 B call s = do {
     s \<leftarrow> int_exec_hooks call 23 s;
     Some (send_eoi B (enable_int s)) }"

definition irq2 ::
  "'d bus \<Rightarrow> (u64 \<Rightarrow> ('d, 'z) keyboard_state_scheme \<Rightarrow> ('d, 'z) keyboard_state_scheme option) \<Rightarrow>
   ('d, 'z) keyboard_state_scheme \<Rightarrow> ('d, 'z) keyboard_state_scheme option" where
  "irq2 B call s = do {
     s \<leftarrow> int_exec_hooks call 25 s;
     Some (send_eoi B (enable_int s)) }"

definition irq1 ::
  "'d bus \<Rightarrow> frame \<Rightarrow> (u64 \<Rightarrow> ('d, 'z) keyboard_state_scheme \<Rightarrow> ('d, 'z) keyboard_state_scheme option) \<Rightarrow>
   ('d, 'z) keyboard_state_scheme \<Rightarrow> ('d, 'z) keyboard_state_scheme option" where
  "irq1 B F call s = do {
     (code, s) \<leftarrow> ps2_in B s;
     s \<leftarrow> keypressed F code s;
     s \<leftarrow> int_exec_hooks call 24 s;
     Some (send_eoi B (enable_int s)) }"

definition irq14 ::
  "'d bus \<Rightarrow> frame \<Rightarrow> (u64 \<Rightarrow> ('d, 'z) keyboard_state_scheme \<Rightarrow> ('d, 'z) keyboard_state_scheme option) \<Rightarrow>
   ('d, 'z) keyboard_state_scheme \<Rightarrow> ('d, 'z) keyboard_state_scheme option" where
  "irq14 B F call s = do {
     s \<leftarrow> kprintf F (''primary ide irq fired'' @ newline) [] s;
     s \<leftarrow> int_exec_hooks call 37 s;
     Some (send_eoi B (enable_int s)) }"

definition irq15 ::
  "'d bus \<Rightarrow> frame \<Rightarrow> (u64 \<Rightarrow> ('d, 'z) keyboard_state_scheme \<Rightarrow> ('d, 'z) keyboard_state_scheme option) \<Rightarrow>
   ('d, 'z) keyboard_state_scheme \<Rightarrow> ('d, 'z) keyboard_state_scheme option" where
  "irq15 B F call s = do {
     s \<leftarrow> kprintf F (''secondary ide irq fired'' @ newline) [] s;
     s \<leftarrow> int_exec_hooks call 38 s;
     Some (send_eoi B (enable_int s)) }"

end
