(* ===== verification/Kmain.thy ===== *)
theory Kmain
  imports Pcie Isr
begin

text \<open>
  The start of the kernel, \<^verbatim>\<open>leokernel.c\<close>, and how it stops: \<^verbatim>\<open>fail\<close> of \<^verbatim>\<open>tty/tty.c\<close> and the
  screen of \<^verbatim>\<open>panic.c\<close>.
\<close>

section \<open>Stopping\<close>

text \<open>\<open>str\<close> is the address of the message.\<close>

definition fail :: "frame \<Rightarrow> u64 \<Rightarrow> ('d, 'z) machine_state_scheme \<Rightarrow> ('d, 'z) machine_state_scheme option" where
  "fail F str s = do {
     s \<leftarrow> kprintf F (''-----[%s]-----'' @ [CHR 10]) [str] s;
     Some (sys_hlt s) }"

definition PANIC_SCREEN_BACKGROUND :: tty_color_t where [c_macros]:
  "PANIC_SCREEN_BACKGROUND = push_bit 16 227 OR push_bit 8 38 OR 54"

fun print_times :: "frame \<Rightarrow> string \<Rightarrow> nat \<Rightarrow> 'z tty_state_scheme \<Rightarrow> 'z tty_state_scheme option" where
  "print_times F str 0 s = Some s"
| "print_times F str (Suc n) s = do { s \<leftarrow> kprintf F str [] s; print_times F str n s }"

text \<open>
  The screen that \<^verbatim>\<open>panic\<close> draws before its endless loop; \<open>reason\<close> is the address of the
  message.  The title has 11 characters.
\<close>

definition panic_screen :: "frame \<Rightarrow> u64 \<Rightarrow> 'z tty_state_scheme \<Rightarrow> 'z tty_state_scheme option" where
  "panic_screen F reason s = do {
     let s = tty_disable_bg (set_tty_char_fg TTY_COLOR_WHITE (tty_clear s));
     s \<leftarrow> kprintf F [CHR 10, CHR 10, CHR 10] [] s;
     let s = for_loop (unat (tty_height s)) (\<lambda>i s.
               for_loop (unat (tty_width s)) (\<lambda>j. plot_pixel (of_nat j) (of_nat i) PANIC_SCREEN_BACKGROUND) s) s;
     let title_length = (11 :: u32);
     let width = get_tty_grid_width s;
     let title_padding = width div 2 - ucast (title_length div 2);
     s \<leftarrow> print_times F ''-'' (unat width) s;
     s \<leftarrow> kprintf F [CHR 10] [] s;
     s \<leftarrow> print_times F '' '' (unat title_padding) s;
     s \<leftarrow> kprintf F (''CamOS panic'' @ [CHR 10]) [] s;
     s \<leftarrow> print_times F ''-'' (unat width) s;
     s \<leftarrow> kprintf F [CHR 10, CHR 10, CHR 10, CHR 10] [] s;
     s \<leftarrow> kprintf F (''An unexpected error occurred and the system has been halted.'' @ [CHR 10]) [] s;
     s \<leftarrow> kprintf F (''Reboot the system by holding power button or closing emulator.'' @ [CHR 10]) [] s;
     s \<leftarrow> (if reason \<noteq> null then kprintf F (''Reason: %s'' @ [CHR 10]) [reason] s else Some s);
     kprintf F (''Other informations may follow...'' @ [CHR 10]) [] s }"

section \<open>Printing the memory map\<close>

text \<open>The end of \<^verbatim>\<open>memory_manager.c\<close>, which is only called by hand.\<close>

definition print_descriptor ::
  "frame \<Rightarrow> leokernel_memory_descriptor_t \<Rightarrow> 'z tty_state_scheme \<Rightarrow> 'z tty_state_scheme option" where
  "print_descriptor F d s = do {
     s \<leftarrow> kprintf F ''0x%016lX -> 0x%016lX %d '' [virtual_address d, physical_address d, ucast (pages d)] s;
     s \<leftarrow> (if DESCRIPTOR_VALID (md_flags d) then kprintf F ''v '' [] s else Some s);
     s \<leftarrow> (if DESCRIPTOR_AVAILABLE (md_flags d) then kprintf F ''a '' [] s else Some s);
     s \<leftarrow> (if DESCRIPTOR_HAS_NEXT (md_flags d) then kprintf F ''hn '' [] s else Some s);
     s \<leftarrow> (if DESCRIPTOR_TRANS_UNK (md_flags d) then kprintf F ''tu '' [] s else Some s);
     kprintf F [CHR 10] [] s }"

fun print_map_from :: "frame \<Rightarrow> nat \<Rightarrow> nat \<Rightarrow> 'z tty_state_scheme \<Rightarrow> 'z tty_state_scheme option" where
  "print_map_from F i 0 s = Some s"
| "print_map_from F i (Suc k) s = do {
     (ok, p, s) \<leftarrow> mmap_get (of_nat i) s;
     if \<not> ok then Some s
     else do {
       e \<leftarrow> p;
       entry \<leftarrow> obj_load e (mmap s);
       if \<not> DESCRIPTOR_VALID (md_flags entry) then Some s
       else do { s \<leftarrow> print_descriptor F entry s; print_map_from F (Suc i) k s } } }"

definition print_map :: "frame \<Rightarrow> 'z tty_state_scheme \<Rightarrow> 'z tty_state_scheme option" where
  "print_map F s = print_map_from F 0 (unat (mmap_size s)) s"

section \<open>The start\<close>

text \<open>The boot parameters: those of the screen, those of the memory, and the XSDT.\<close>

record leokernel_boot_params =
  boot_screen :: boot_video
  boot_mem :: boot_memory
  boot_xsdt :: u64

definition check_boot_param :: "leokernel_boot_params \<Rightarrow> bool" where
  "check_boot_param bp =
     (let v = boot_screen bp; m = boot_mem bp
      in if frame_buffer v = null then False
         else if frame_buffer_size v = 0 then False
         else if video_height v = 0 then False
         else if video_width v = 0 then False
         else if video_pitch v = 0 then False
         else if font v = null then False
         else if boot_map_address m = null then False
         else if map_size m = 0 then False
         else if boot_xsdt bp = null then False
         else True)"

definition GREEN_COLOR :: tty_color_t where [c_macros]:
  "GREEN_COLOR = push_bit 16 100 OR push_bit 8 200 OR 120"

definition print_title :: "frame \<Rightarrow> 'z tty_state_scheme \<Rightarrow> 'z tty_state_scheme option" where
  "print_title F s = do {
     let prev = get_tty_char_fg s;
     let s = set_tty_char_fg GREEN_COLOR s;
     s \<leftarrow> kprintf F (''*** CamOS v0.1 ***'' @ [CHR 10]) [] s;
     Some (set_tty_char_fg prev s) }"

text \<open>
  What the start takes from outside the kernel: the bus, the frame of the printing
  functions, the addresses of the string constants, the addresses of the service routines and of the tables, the handlers and their
  effects, the interrupted frame of the segment reload, what happens while the kernel waits,
  the memory given to the first pool, and what uninitialised local devices hold.
\<close>

record ('d, 's) kernel_env =
  env_bus :: "'d bus"
  env_frame :: frame
  env_text :: "string \<Rightarrow> u64"
  env_isr :: "isr \<Rightarrow> u64"
  env_gdt :: u64
  env_idt :: u64
  env_call :: "u64 \<Rightarrow> 's \<Rightarrow> 's option"
  env_int_frame :: x64_int_frame
  env_idle :: "'s \<Rightarrow> 's option"
  env_notify :: u64
  env_pool_memory :: u64
  env_uninit :: "ide_device_t \<times> ide_device_t"

text \<open>
  Reloading the segment registers raises the interrupt \<open>0x16\<close>, whose routine changes the
  saved registers.
\<close>

definition gdt_load_segments ::
  "('d, ('d, 'z) keyboard_state_scheme) kernel_env \<Rightarrow> ('d, 'z) keyboard_state_scheme \<Rightarrow>
   (x64_int_frame \<times> ('d, 'z) keyboard_state_scheme) option" where
  "gdt_load_segments E s = int_16 (env_call E) (env_int_frame E) s"

text \<open>
  The second half of \<^verbatim>\<open>kmain\<close>, from the memory manager on.  It ends with the state before the
  endless loop of the terminal, or halted after a failure.
\<close>

definition start_devices ::
  "('d, ('d, 'z) pcie_state_scheme) kernel_env \<Rightarrow> leokernel_boot_params \<Rightarrow> ('d, 'z) pcie_state_scheme \<Rightarrow>
   ('d, 'z) pcie_state_scheme option" where
  "start_devices E bp s = do {
     let B = env_bus E;
     let F = env_frame E;
     (ok, s) \<leftarrow> init_acpi B F (boot_xsdt bp) s;
     if \<not> ok then fail F (env_text E ''error setting up hardware stuff'') s
     else do {
       (ok, s) \<leftarrow> init_apic B F s;
       if \<not> ok then fail F (env_text E ''error setting up APIC'') s
       else do {
         s \<leftarrow> init_pit B s;
         s \<leftarrow> apic_timer_init B (env_idle E) (env_notify E) s;
         (r, s) \<leftarrow> init_pci B F (env_uninit E) s;
         ok \<leftarrow> r;
         if \<not> ok then fail F (env_text E ''error configuring PCI and PCIe'') s
         else do {
           (ok, s) \<leftarrow> init_files s;
           if \<not> ok then fail F (env_text E ''error initializing file handling'') s
           else do {
             s \<leftarrow> init_keyboard B s;
             terminal_start s } } } } }"

definition kmain ::
  "('d, ('d, 'z) pcie_state_scheme) kernel_env \<Rightarrow> leokernel_boot_params \<Rightarrow> ('d, 'z) pcie_state_scheme \<Rightarrow>
   ('d, 'z) pcie_state_scheme option" where
  "kmain E bp s =
     (if \<not> check_boot_param bp then Some (sys_hlt s)
      else do {
        let B = env_bus E;
        let F = env_frame E;
        (ok, s) \<leftarrow> init_tty (boot_screen bp) (s\<lparr>tty_ready := False\<rparr>);
        if \<not> ok then Some (sys_hlt s)
        else do {
          s \<leftarrow> print_title F s;
          (ok, s) \<leftarrow> setup_gdt (env_gdt E) s;
          if \<not> ok then fail F (env_text E ''error setting up GDT'') s
          else do {
            let (ok, s) = setup_interrupts B (env_isr E) (env_idt E) s;
            if \<not> ok then fail F (env_text E ''error setting up interrupts'') s
            else do {
              (_, s) \<leftarrow> gdt_load_segments E s;
              (ok, s) \<leftarrow> init_mm (env_pool_memory E) (boot_mem bp) s;
              if \<not> ok then fail F (env_text E ''error setting up the memory manager'') s
              else start_devices E bp s } } } })"

end
