(* ===== verification/Structs.thy ===== *)
theory Structs
  imports Layouts Kmain Files
begin

text \<open>
  The C structures of the header files, member by member, as types of Layouts, and the theorems
  that the other theories read and write memory where the structures put their members.  The
  layout of a structure has the name of the structure with the ending \<open>_layout\<close>.
\<close>

section \<open>include/bootp.h\<close>

definition leokernel_boot_params_layout :: ctype where [layouts]:
  "leokernel_boot_params_layout = struct [mem ''frame_buffer'' pointer, mem ''frame_buffer_size'' uint64_t,
     mem ''video_height'' uint64_t, mem ''video_width'' uint64_t, mem ''video_pitch'' uint64_t,
     mem ''font'' pointer, mem ''map'' pointer, mem ''map_size'' uint64_t, mem ''frame_bitmap'' pointer,
     mem ''xsdt'' pointer]"

section \<open>mm/include/memory_manager.h\<close>

definition leokernel_memory_descriptor_t_layout :: ctype where [layouts]:
  "leokernel_memory_descriptor_t_layout = struct [mem ''virtual_address'' uint64_t,
     mem ''physical_address'' uint64_t, mem ''pages'' uint32_t, mem ''flags'' uint8_t, mem ''type'' uint8_t,
     mem ''pad'' (Array 10 uint8_t)]"

section \<open>mm/include/obj_alloc.h\<close>

definition object_pool_descriptor_t_layout :: ctype where [layouts]:
  "object_pool_descriptor_t_layout = struct [mem ''base'' pointer, mem ''obj_size'' uint32_t,
     mem ''pool_size'' uint32_t, mem ''id'' uint8_t, mem ''top_index'' uint32_t, mem ''bottom_index'' uint32_t,
     mem ''type'' enum]"

section \<open>mm/include/kmalloc.h\<close>

definition kheap_descriptor_t_layout :: ctype where [layouts]:
  "kheap_descriptor_t_layout = struct [mem ''base'' pointer, mem ''size'' uint64_t, mem ''flags'' uint8_t,
     mem ''pad'' (Array 15 uint8_t)]"

section \<open>mm/include/segmentation.h\<close>

definition gdt_t_layout :: ctype where [layouts]:
  "gdt_t_layout = packed [mem ''limit_0'' uint16_t, mem ''base_0'' uint16_t, mem ''base_1'' uint8_t,
     mem ''access'' uint8_t, bits ''limit_1'' 4 uint8_t, bits ''flags'' 4 uint8_t, mem ''base_2'' uint8_t]"

definition gdtr_t_layout :: ctype where [layouts]:
  "gdtr_t_layout = packed [mem ''size'' uint16_t, mem ''base'' uint64_t]"

section \<open>int/include/int.h\<close>

definition idt_t_layout :: ctype where [layouts]:
  "idt_t_layout = packed [mem ''isr_0'' uint16_t, mem ''kernel_cs'' uint16_t, mem ''ist'' uint8_t,
     mem ''flags'' uint8_t, mem ''isr_1'' uint16_t, mem ''isr_2'' uint32_t, mem ''reserved'' uint32_t]"

definition idtr_t_layout :: ctype where [layouts]:
  "idtr_t_layout = packed [mem ''limit'' uint16_t, mem ''base'' uint64_t]"

definition isr_hook_t_layout :: ctype where [layouts]:
  "isr_hook_t_layout = struct [mem ''hooks'' (Array 4 pointer)]"

section \<open>int/include/isr.h\<close>

definition x64_int_frame_layout :: ctype where [layouts]:
  "x64_int_frame_layout = struct [mem ''rip'' uint64_t, mem ''cs'' uint64_t, mem ''rflags'' uint64_t,
     mem ''sp'' uint64_t, mem ''ss'' uint64_t]"

section \<open>int/include/apic.h\<close>

definition lapic_t_layout :: ctype where [layouts]:
  "lapic_t_layout = struct [mem ''cpu_id'' uint8_t, mem ''lapic_id'' uint8_t, mem ''flags'' uint32_t]"

definition ioapic_t_layout :: ctype where [layouts]:
  "ioapic_t_layout = struct [mem ''ioapic_id'' uint8_t, mem ''ioapic_addr'' uint32_t,
     mem ''global_system_interrupt_base'' uint32_t, mem ''max_redirections'' uint8_t]"

section \<open>tty/include/psf_font.h\<close>

definition psf1_header_layout :: ctype where [layouts]:
  "psf1_header_layout = struct [mem ''magic'' uint16_t, mem ''mode'' uint8_t, mem ''character_size'' uint8_t]"

definition psf2_header_layout :: ctype where [layouts]:
  "psf2_header_layout = struct [mem ''magic'' uint32_t, mem ''version'' uint32_t, mem ''header_size'' uint32_t,
     mem ''flags'' uint32_t, mem ''num_glyphs'' uint32_t, mem ''bytes_per_glyph'' uint32_t,
     mem ''glyph_height'' uint32_t, mem ''glyph_width'' uint32_t]"

section \<open>io/include/files.h\<close>

definition file_t_layout :: ctype where [layouts]:
  "file_t_layout = struct [mem ''type'' enum, mem ''size'' uint32_t, mem ''ptr'' pointer]"

section \<open>io/include/devs.h\<close>

definition pci_bar_t_layout :: ctype where [layouts]:
  "pci_bar_t_layout = struct [bits ''type'' 1 uint8_t,
     mem ''data'' (Union
       [(''ms'', struct [bits ''type'' 2 uint8_t, bits ''prefetchable'' 1 uint8_t, bits ''addr'' 28 uint32_t]),
        (''io'', struct [bits ''res'' 1 uint8_t, bits ''addr'' 30 uint32_t])])]"

definition ms_dev_t_layout :: ctype where [layouts]:
  "ms_dev_t_layout = struct [mem ''type'' enum, mem ''pool_id'' uint8_t]"

section \<open>acpi/include/acpi.h\<close>

definition acpi_table_header_layout :: ctype where [layouts]:
  "acpi_table_header_layout = packed [mem ''signature'' (Array 4 char_t), mem ''length'' uint32_t,
     mem ''revision'' uint8_t, mem ''checksum'' uint8_t, mem ''OEMID'' (Array 6 char_t),
     mem ''OEMTableID'' (Array 8 char_t), mem ''OEMRevision'' uint32_t, mem ''creatorID'' uint32_t,
     mem ''creatorRevision'' uint32_t]"

definition acpi_xsdt_t_layout :: ctype where [layouts]:
  "acpi_xsdt_t_layout = packed [mem ''h'' acpi_table_header_layout, mem ''ptr'' (Array 0 pointer)]"

definition acpi_gas_t_layout :: ctype where [layouts]:
  "acpi_gas_t_layout = packed [mem ''address_space_id'' uint8_t, mem ''register_bit_width'' uint8_t,
     mem ''register_bit_offset'' uint8_t, mem ''access_size'' uint8_t, mem ''address'' uint64_t]"

definition acpi_fadt_t_layout :: ctype where [layouts]:
  "acpi_fadt_t_layout = packed [mem ''h'' acpi_table_header_layout, mem ''firmware_ctrl'' uint32_t,
     mem ''dsdt'' uint32_t, mem ''reserved_0'' uint8_t, mem ''preferred_pm_profile'' uint8_t,
     mem ''sci_int'' uint16_t, mem ''smi_cmd'' uint32_t, mem ''acpi_enable'' uint8_t,
     mem ''acpi_disable'' uint8_t, mem ''s4bios_req'' uint8_t, mem ''pstate_cnt'' uint8_t,
     mem ''pm1a_evt_blk'' uint32_t, mem ''pm1b_evt_blk'' uint32_t, mem ''pm1a_cnt_blk'' uint32_t,
     mem ''pm1b_cnt_blk'' uint32_t, mem ''pm2_cnt_blk'' uint32_t, mem ''pm_tmr_blk'' uint32_t,
     mem ''gpe0_blk'' uint32_t, mem ''gpe1_blk'' uint32_t, mem ''pm1_evt_len'' uint8_t,
     mem ''pm1_cnt_len'' uint8_t, mem ''pm2_cnt_len'' uint8_t, mem ''pm_tmr_len'' uint8_t,
     mem ''gpe0_blk_len'' uint8_t, mem ''gpe1_blk_len'' uint8_t, mem ''gpe1_base'' uint8_t,
     mem ''cst_cnt'' uint8_t, mem ''p_lvl2_lat'' uint16_t, mem ''p_lvl3_lat'' uint16_t,
     mem ''flush_size'' uint16_t, mem ''flush_stride'' uint16_t, mem ''duty_offset'' uint8_t,
     mem ''duty_width'' uint8_t, mem ''day_alrm'' uint8_t, mem ''mon_alrm'' uint8_t, mem ''century'' uint8_t,
     mem ''iapc_boot_arch'' uint16_t, mem ''reserved_1'' uint8_t, mem ''flags'' uint32_t,
     mem ''reset_reg'' acpi_gas_t_layout, mem ''reset_value'' uint8_t, mem ''arm_boot_arch'' uint16_t,
     mem ''minor_version'' uint8_t, mem ''x_firmware_ctrl'' uint64_t, mem ''x_dsdt'' uint64_t,
     mem ''x_pm1a_evt_blk'' acpi_gas_t_layout, mem ''x_pm1b_evt_blk'' acpi_gas_t_layout,
     mem ''x_pm1a_cnt_blk'' acpi_gas_t_layout, mem ''x_pm1b_cnt_blk'' acpi_gas_t_layout,
     mem ''x_pm2_cnt_blk'' acpi_gas_t_layout, mem ''x_pm_tmr_blk'' acpi_gas_t_layout,
     mem ''x_gpe0_blk'' acpi_gas_t_layout, mem ''x_gpe1_blk'' acpi_gas_t_layout,
     mem ''sleep_control_reg'' acpi_gas_t_layout, mem ''sleep_status_register'' acpi_gas_t_layout,
     mem ''hypervisor_vendor_identity'' uint64_t]"

definition acpi_dsdt_t_layout :: ctype where [layouts]:
  "acpi_dsdt_t_layout = packed [mem ''h'' acpi_table_header_layout]"

definition acpi_madt_t_layout :: ctype where [layouts]:
  "acpi_madt_t_layout = packed [mem ''h'' acpi_table_header_layout, mem ''local_apic_addr'' uint32_t,
     mem ''flags'' uint32_t]"

definition acpi_madt_entry_lapic_layout :: ctype where [layouts]:
  "acpi_madt_entry_lapic_layout = packed [mem ''header'' (struct [mem ''type'' uint8_t, mem ''size'' uint8_t]),
     mem ''acpi_cpu_id'' uint8_t, mem ''apic_id'' uint8_t, mem ''flags'' uint32_t]"

definition acpi_madt_entry_io_apic_layout :: ctype where [layouts]:
  "acpi_madt_entry_io_apic_layout = packed [
     mem ''header'' (struct [mem ''type'' uint8_t, mem ''size'' uint8_t]), mem ''io_apic_id'' uint8_t,
     mem ''reserved'' uint8_t, mem ''io_apic_addr'' uint32_t, mem ''global_system_interrupt_base'' uint32_t]"

definition acpi_madt_entry_io_source_override_layout :: ctype where [layouts]:
  "acpi_madt_entry_io_source_override_layout = packed [
     mem ''header'' (struct [mem ''type'' uint8_t, mem ''size'' uint8_t]), mem ''bus_source'' uint8_t,
     mem ''irq_source'' uint8_t, mem ''global_system_interrupt'' uint32_t, mem ''flags'' uint16_t]"

definition acpi_madt_entry_nmi_source_layout :: ctype where [layouts]:
  "acpi_madt_entry_nmi_source_layout = packed [
     mem ''header'' (struct [mem ''type'' uint8_t, mem ''size'' uint8_t]), mem ''nmi_source'' uint8_t,
     mem ''reserved'' uint8_t, mem ''flags'' uint16_t, mem ''global_system_interrupt'' uint32_t]"

definition acpi_madt_entry_lapic_nmi_layout :: ctype where [layouts]:
  "acpi_madt_entry_lapic_nmi_layout = packed [
     mem ''header'' (struct [mem ''type'' uint8_t, mem ''size'' uint8_t]), mem ''acpi_cpu_id'' uint8_t,
     mem ''flags'' uint16_t, mem ''lint01'' uint8_t]"

definition acpi_madt_entry_lapic_addr_override_layout :: ctype where [layouts]:
  "acpi_madt_entry_lapic_addr_override_layout = packed [
     mem ''header'' (struct [mem ''type'' uint8_t, mem ''size'' uint8_t]), mem ''reserved'' uint16_t,
     mem ''lapic_phys_addr'' uint64_t]"

definition acpi_madt_entry_local_x2apic_layout :: ctype where [layouts]:
  "acpi_madt_entry_local_x2apic_layout = packed [
     mem ''header'' (struct [mem ''type'' uint8_t, mem ''size'' uint8_t]), mem ''reserved'' uint16_t,
     mem ''local_x2apic_id'' uint32_t, mem ''flags'' uint32_t, mem ''acpi_id'' uint32_t]"

definition acpi_mcfg_entry_t_layout :: ctype where [layouts]:
  "acpi_mcfg_entry_t_layout = packed [mem ''base'' uint64_t, mem ''segment_group_number'' uint16_t,
     mem ''start_bus'' uint8_t, mem ''end_bus'' uint8_t, mem ''reserved'' uint32_t]"

definition acpi_mcfg_t_layout :: ctype where [layouts]:
  "acpi_mcfg_t_layout = packed [mem ''h'' acpi_table_header_layout, mem ''reserved'' uint64_t,
     mem ''entries'' (Array 0 acpi_mcfg_entry_t_layout)]"

section \<open>io/include/pci.h\<close>

definition pci_dev_header_t_layout :: ctype where [layouts]:
  "pci_dev_header_t_layout = packed [mem ''vendor_id'' uint16_t, mem ''device_id'' uint16_t,
     mem ''command'' uint16_t, mem ''status'' uint16_t, mem ''revision_id'' uint8_t, mem ''prog_if'' uint8_t,
     mem ''subclass'' uint8_t, mem ''class_code'' uint8_t, mem ''cache_line_size'' uint8_t,
     mem ''latency_timer'' uint8_t, mem ''header_type'' uint8_t, mem ''bist'' uint8_t]"

definition pci_general_dev_t_layout :: ctype where [layouts]:
  "pci_general_dev_t_layout = packed [mem ''header'' pci_dev_header_t_layout, mem ''bar0'' uint32_t,
     mem ''bar1'' uint32_t, mem ''bar2'' uint32_t, mem ''bar3'' uint32_t, mem ''bar4'' uint32_t,
     mem ''bar5'' uint32_t, mem ''cardbus_cis_ptr'' uint32_t, mem ''subsystem_vendor_id'' uint16_t,
     mem ''subsystem_id'' uint16_t, mem ''expansion_rom_base'' uint32_t, mem ''capabilities_ptr'' uint8_t,
     mem ''res0'' (Array 3 uint8_t), mem ''res1'' uint32_t, mem ''int_line'' uint8_t, mem ''int_pin'' uint8_t,
     mem ''min_grant'' uint8_t, mem ''max_latency'' uint8_t]"

definition pci_pci_bridge_t_layout :: ctype where [layouts]:
  "pci_pci_bridge_t_layout = packed [mem ''header'' pci_dev_header_t_layout, mem ''bar0'' uint32_t,
     mem ''bar1'' uint32_t, mem ''primary_bus_number'' uint8_t, mem ''secondary_bus_number'' uint8_t,
     mem ''subordinate_bus_number'' uint8_t, mem ''secondary_latency_timer'' uint8_t, mem ''io_base'' uint8_t,
     mem ''io_limit'' uint8_t, mem ''secondary_status'' uint16_t, mem ''memory_base'' uint16_t,
     mem ''memory_limit'' uint16_t, mem ''prefetchable_memory_base'' uint16_t,
     mem ''prefetchable_memory_limit'' uint16_t, mem ''prefetchable_base_upper'' uint32_t,
     mem ''prefetchable_limit_upper'' uint32_t, mem ''io_base_upper'' uint16_t,
     mem ''io_limit_upper'' uint16_t, mem ''capability_ptr'' uint8_t, mem ''res0'' (Array 3 uint8_t),
     mem ''expansion_rom_base'' uint32_t, mem ''int_line'' uint8_t, mem ''int_pin'' uint8_t,
     mem ''bridge_control'' uint16_t]"

definition pci_device_t_layout :: ctype where [layouts]:
  "pci_device_t_layout = Union [(''general'', pci_general_dev_t_layout), (''bridge'', pci_pci_bridge_t_layout)]"

section \<open>io/include/pci_tree.h\<close>

definition pci_tree_device_t_layout :: ctype where [layouts]:
  "pci_tree_device_t_layout = struct [mem ''dev'' pointer, mem ''bus'' pointer, mem ''next'' pointer]"

definition pci_tree_bus_t_layout :: ctype where [layouts]:
  "pci_tree_bus_t_layout = struct [mem ''id'' uint8_t, mem ''bridges'' pointer, mem ''devs'' pointer]"

definition pci_tree_bridge_t_layout :: ctype where [layouts]:
  "pci_tree_bridge_t_layout = struct [mem ''primary'' pointer, mem ''secondary'' pointer,
     mem ''bridge'' pointer, mem ''next'' pointer]"

section \<open>drv/ide/include/ide.h\<close>

definition ide_prd_t_layout :: ctype where [layouts]:
  "ide_prd_t_layout = struct [mem ''foo'' uint8_t]"

definition ide_bus_t_layout :: ctype where [layouts]:
  "ide_bus_t_layout = struct [mem ''io_bar'' uint32_t, mem ''ctrl_bar'' uint32_t, mem ''dma_enabled'' bool_t,
     mem ''prdt'' pointer]"

definition ide_device_t_layout :: ctype where [layouts]:
  "ide_device_t_layout = struct [mem ''bus'' pointer, mem ''ide_type'' enum, mem ''addr_mode'' enum,
     mem ''sectors'' uint64_t, mem ''drive'' enum, mem ''magic'' uint8_t]"

section \<open>drv/ahci/include/ahci.h\<close>

definition ahci_hba_port_t_layout :: ctype where [layouts]:
  "ahci_hba_port_t_layout = struct [mem ''clb_lo'' uint32_t, mem ''clb_hi'' uint32_t,
     mem ''fis_base_lo'' uint32_t, mem ''fis_base_hi'' uint32_t, mem ''int_status'' uint32_t,
     mem ''int_enable'' uint32_t, mem ''command'' uint32_t, mem ''rsv0'' uint32_t,
     mem ''task_file_data'' uint32_t, mem ''signature'' uint32_t, mem ''sata_status'' uint32_t,
     mem ''sata_control'' uint32_t, mem ''sata_error'' uint32_t, mem ''sata_active'' uint32_t,
     mem ''command_issue'' uint32_t, mem ''sata_notification'' uint32_t, mem ''fis_switch_ctrl'' uint32_t,
     mem ''rsv1'' (Array 11 uint32_t), mem ''vendor'' (Array 4 uint32_t)]"

definition ahci_hba_memory_t_layout :: ctype where [layouts]:
  "ahci_hba_memory_t_layout = struct [mem ''host_capability'' uint32_t, mem ''global_host_control'' uint32_t,
     mem ''int_status'' uint32_t, mem ''port_impl'' uint32_t, mem ''version'' uint32_t,
     mem ''ccc_ctrl'' uint32_t, mem ''ccc_ports'' uint32_t, mem ''em_loc'' uint32_t, mem ''em_ctrl'' uint32_t,
     mem ''host_capability_ext'' uint32_t, mem ''bohc'' uint32_t, mem ''rsv'' (Array 116 uint8_t),
     mem ''vendor'' (Array 96 uint8_t), mem ''ports'' (Array 1 ahci_hba_port_t_layout)]"

definition ahci_fis_reg_h2d_t_layout :: ctype where [layouts]:
  "ahci_fis_reg_h2d_t_layout = struct [mem ''fis_type'' uint8_t, bits ''pmport'' 4 uint8_t,
     bits ''rsv0'' 3 uint8_t, bits ''c'' 1 uint8_t, mem ''command'' uint8_t, mem ''feature_lo'' uint8_t,
     mem ''lba_lo'' uint8_t, mem ''lba_mid'' uint8_t, mem ''lba_hi'' uint8_t, mem ''device'' uint8_t,
     mem ''lba3'' uint8_t, mem ''lba4'' uint8_t, mem ''lba5'' uint8_t, mem ''feature_hi'' uint8_t,
     mem ''count_lo'' uint8_t, mem ''count_hi'' uint8_t, mem ''icc'' uint8_t, mem ''control'' uint8_t,
     mem ''rsv1'' (Array 4 uint8_t)]"

definition ahci_fis_reg_d2h_t_layout :: ctype where [layouts]:
  "ahci_fis_reg_d2h_t_layout = struct [mem ''fis_type'' uint8_t, bits ''pmport'' 4 uint8_t,
     bits ''rsv0'' 2 uint8_t, bits ''i'' 1 uint8_t, bits ''rsv1'' 1 uint8_t, mem ''status'' uint8_t,
     mem ''error'' uint8_t, mem ''lba_low'' uint8_t, mem ''lba_mid'' uint8_t, mem ''lba_hi'' uint8_t,
     mem ''device'' uint8_t, mem ''lba3'' uint8_t, mem ''lba4'' uint8_t, mem ''lba5'' uint8_t,
     mem ''rsv2'' uint8_t, mem ''count_lo'' uint8_t, mem ''count_hi'' uint8_t, mem ''rsv3'' (Array 2 uint8_t),
     mem ''rsv4'' (Array 4 uint8_t)]"

definition ahci_fis_data_t_layout :: ctype where [layouts]:
  "ahci_fis_data_t_layout = struct [mem ''fis_type'' uint8_t, bits ''pmport'' 4 uint8_t,
     bits ''rsv0'' 4 uint8_t, mem ''rsv1'' (Array 2 uint8_t), mem ''data'' (Array 0 uint32_t)]"

definition ahci_fis_pio_setup_t_layout :: ctype where [layouts]:
  "ahci_fis_pio_setup_t_layout = struct [mem ''fis_type'' uint8_t, bits ''pmport'' 4 uint8_t,
     bits ''rsv0'' 1 uint8_t, bits ''d'' 1 uint8_t, bits ''i'' 1 uint8_t, bits ''rsv1'' 1 uint8_t,
     mem ''status'' uint8_t, mem ''error'' uint8_t, mem ''lba_low'' uint8_t, mem ''lba_mid'' uint8_t,
     mem ''lba_hi'' uint8_t, mem ''device'' uint8_t, mem ''lba3'' uint8_t, mem ''lba4'' uint8_t,
     mem ''lba5'' uint8_t, mem ''rsv2'' uint8_t, mem ''count_lo'' uint8_t, mem ''count_hi'' uint8_t,
     mem ''rsv3'' uint8_t, mem ''e_status'' uint8_t, mem ''tc'' uint16_t, mem ''rsv4'' (Array 2 uint8_t)]"

definition ahci_fis_dma_setup_t_layout :: ctype where [layouts]:
  "ahci_fis_dma_setup_t_layout = struct [mem ''fis_type'' uint8_t, bits ''pmport'' 4 uint8_t,
     bits ''rsv0'' 1 uint8_t, bits ''d'' 1 uint8_t, bits ''i'' 1 uint8_t, bits ''a'' 1 uint8_t,
     mem ''rsved'' (Array 2 uint8_t), mem ''DMAbufferID'' uint64_t, mem ''rsvd'' uint32_t,
     mem ''DMAbufOffset'' uint32_t, mem ''TransferCount'' uint32_t, mem ''resvd'' uint32_t]"

definition ahci_comm_header_t_layout :: ctype where [layouts]:
  "ahci_comm_header_t_layout = struct [bits ''comm_fis_length'' 5 uint8_t, bits ''atapi'' 1 uint8_t,
     bits ''write'' 1 uint8_t, bits ''prefetchable'' 1 uint8_t, bits ''reset'' 1 uint8_t,
     bits ''bist'' 1 uint8_t, bits ''clear'' 1 uint8_t, bits ''rsv0'' 1 uint8_t,
     bits ''port_mult_port'' 4 uint8_t, mem ''prdt_llength'' uint16_t, mem ''prd_bytes'' uint32_t,
     mem ''comm_table_lo'' uint32_t, mem ''comm_table_hi'' uint32_t, mem ''rsv1'' (Array 4 uint32_t)]"

definition ahci_hba_prdt_entry_t_layout :: ctype where [layouts]:
  "ahci_hba_prdt_entry_t_layout = struct [mem ''dba'' uint32_t, mem ''dbau'' uint32_t, mem ''rsv0'' uint32_t,
     bits ''dbc'' 22 uint32_t, bits ''rsv1'' 9 uint32_t, bits ''i'' 1 uint32_t]"

definition ahci_hba_command_table_t_layout :: ctype where [layouts]:
  "ahci_hba_command_table_t_layout = struct [mem ''cfis'' (Array 64 uint8_t), mem ''acmd'' (Array 16 uint8_t),
     mem ''rsv'' (Array 48 uint8_t), mem ''prdt_entry'' (Array 1 ahci_hba_prdt_entry_t_layout)]"

definition ahci_hba_received_fis_t_layout :: ctype where [layouts]:
  "ahci_hba_received_fis_t_layout = struct [mem ''dsfis'' ahci_fis_dma_setup_t_layout,
     mem ''pad0'' (Array 4 uint8_t), mem ''psfis'' ahci_fis_pio_setup_t_layout,
     mem ''pad1'' (Array 12 uint8_t), mem ''rfis'' ahci_fis_reg_d2h_t_layout, mem ''pad2'' (Array 4 uint8_t),
     mem ''sdbfis'' (Array 1 uint8_t), mem ''ufis'' (Array 64 uint8_t), mem ''rsv'' (Array 96 uint8_t)]"

definition ahci_device_t_layout :: ctype where [layouts]:
  "ahci_device_t_layout = struct [mem ''ctrl'' pointer, mem ''port'' pointer]"

section \<open>crypto/include/hash.h\<close>

definition md5_t_layout :: ctype where [layouts]:
  "md5_t_layout = struct [mem ''bytes'' (Array 16 uint8_t)]"

section \<open>Where the members lie\<close>

text \<open>The members with their first bit and the number of their bits.\<close>

lemma acpi_table_header_members:
  "members acpi_table_header_layout = [(''signature'', 0, 32), (''length'', 32, 32), (''revision'', 64, 8),
    (''checksum'', 72, 8), (''OEMID'', 80, 48), (''OEMTableID'', 128, 64), (''OEMRevision'', 192, 32),
    (''creatorID'', 224, 32), (''creatorRevision'', 256, 32)]"
  by (simp add: layouts)

lemma acpi_fadt_t_members:
  "members acpi_fadt_t_layout = [(''h'', 0, 288), (''firmware_ctrl'', 288, 32), (''dsdt'', 320, 32),
    (''reserved_0'', 352, 8), (''preferred_pm_profile'', 360, 8), (''sci_int'', 368, 16),
    (''smi_cmd'', 384, 32), (''acpi_enable'', 416, 8), (''acpi_disable'', 424, 8), (''s4bios_req'', 432, 8),
    (''pstate_cnt'', 440, 8), (''pm1a_evt_blk'', 448, 32), (''pm1b_evt_blk'', 480, 32),
    (''pm1a_cnt_blk'', 512, 32), (''pm1b_cnt_blk'', 544, 32), (''pm2_cnt_blk'', 576, 32),
    (''pm_tmr_blk'', 608, 32), (''gpe0_blk'', 640, 32), (''gpe1_blk'', 672, 32), (''pm1_evt_len'', 704, 8),
    (''pm1_cnt_len'', 712, 8), (''pm2_cnt_len'', 720, 8), (''pm_tmr_len'', 728, 8), (''gpe0_blk_len'', 736, 8),
    (''gpe1_blk_len'', 744, 8), (''gpe1_base'', 752, 8), (''cst_cnt'', 760, 8), (''p_lvl2_lat'', 768, 16),
    (''p_lvl3_lat'', 784, 16), (''flush_size'', 800, 16), (''flush_stride'', 816, 16),
    (''duty_offset'', 832, 8), (''duty_width'', 840, 8), (''day_alrm'', 848, 8), (''mon_alrm'', 856, 8),
    (''century'', 864, 8), (''iapc_boot_arch'', 872, 16), (''reserved_1'', 888, 8), (''flags'', 896, 32),
    (''reset_reg'', 928, 96), (''reset_value'', 1024, 8), (''arm_boot_arch'', 1032, 16),
    (''minor_version'', 1048, 8), (''x_firmware_ctrl'', 1056, 64), (''x_dsdt'', 1120, 64),
    (''x_pm1a_evt_blk'', 1184, 96), (''x_pm1b_evt_blk'', 1280, 96), (''x_pm1a_cnt_blk'', 1376, 96),
    (''x_pm1b_cnt_blk'', 1472, 96), (''x_pm2_cnt_blk'', 1568, 96), (''x_pm_tmr_blk'', 1664, 96),
    (''x_gpe0_blk'', 1760, 96), (''x_gpe1_blk'', 1856, 96), (''sleep_control_reg'', 1952, 96),
    (''sleep_status_register'', 2048, 96), (''hypervisor_vendor_identity'', 2144, 64)]"
  by (simp add: layouts)

lemma acpi_madt_t_members:
  "members acpi_madt_t_layout = [(''h'', 0, 288), (''local_apic_addr'', 288, 32), (''flags'', 320, 32)]"
  by (simp add: layouts)

lemma acpi_madt_entry_lapic_members:
  "members acpi_madt_entry_lapic_layout = [(''header'', 0, 16), (''acpi_cpu_id'', 16, 8), (''apic_id'', 24, 8),
    (''flags'', 32, 32)]"
  by (simp add: layouts)

lemma acpi_madt_entry_io_apic_members:
  "members acpi_madt_entry_io_apic_layout = [(''header'', 0, 16), (''io_apic_id'', 16, 8),
    (''reserved'', 24, 8), (''io_apic_addr'', 32, 32), (''global_system_interrupt_base'', 64, 32)]"
  by (simp add: layouts)

lemma acpi_madt_entry_io_source_override_members:
  "members acpi_madt_entry_io_source_override_layout = [(''header'', 0, 16), (''bus_source'', 16, 8),
    (''irq_source'', 24, 8), (''global_system_interrupt'', 32, 32), (''flags'', 64, 16)]"
  by (simp add: layouts)

lemma acpi_madt_entry_lapic_addr_override_members:
  "members acpi_madt_entry_lapic_addr_override_layout = [(''header'', 0, 16), (''reserved'', 16, 16),
    (''lapic_phys_addr'', 32, 64)]"
  by (simp add: layouts)

lemma acpi_mcfg_entry_t_members:
  "members acpi_mcfg_entry_t_layout = [(''base'', 0, 64), (''segment_group_number'', 64, 16),
    (''start_bus'', 80, 8), (''end_bus'', 88, 8), (''reserved'', 96, 32)]"
  by (simp add: layouts)

lemma acpi_mcfg_t_members:
  "members acpi_mcfg_t_layout = [(''h'', 0, 288), (''reserved'', 288, 64), (''entries'', 352, 0)]"
  by (simp add: layouts)

lemma pci_dev_header_t_members:
  "members pci_dev_header_t_layout = [(''vendor_id'', 0, 16), (''device_id'', 16, 16), (''command'', 32, 16),
    (''status'', 48, 16), (''revision_id'', 64, 8), (''prog_if'', 72, 8), (''subclass'', 80, 8),
    (''class_code'', 88, 8), (''cache_line_size'', 96, 8), (''latency_timer'', 104, 8),
    (''header_type'', 112, 8), (''bist'', 120, 8)]"
  by (simp add: layouts)

lemma pci_general_dev_t_members:
  "members pci_general_dev_t_layout = [(''header'', 0, 128), (''bar0'', 128, 32), (''bar1'', 160, 32),
    (''bar2'', 192, 32), (''bar3'', 224, 32), (''bar4'', 256, 32), (''bar5'', 288, 32),
    (''cardbus_cis_ptr'', 320, 32), (''subsystem_vendor_id'', 352, 16), (''subsystem_id'', 368, 16),
    (''expansion_rom_base'', 384, 32), (''capabilities_ptr'', 416, 8), (''res0'', 424, 24),
    (''res1'', 448, 32), (''int_line'', 480, 8), (''int_pin'', 488, 8), (''min_grant'', 496, 8),
    (''max_latency'', 504, 8)]"
  by (simp add: layouts)

lemma pci_pci_bridge_t_members:
  "members pci_pci_bridge_t_layout = [(''header'', 0, 128), (''bar0'', 128, 32), (''bar1'', 160, 32),
    (''primary_bus_number'', 192, 8), (''secondary_bus_number'', 200, 8), (''subordinate_bus_number'', 208, 8),
    (''secondary_latency_timer'', 216, 8), (''io_base'', 224, 8), (''io_limit'', 232, 8),
    (''secondary_status'', 240, 16), (''memory_base'', 256, 16), (''memory_limit'', 272, 16),
    (''prefetchable_memory_base'', 288, 16), (''prefetchable_memory_limit'', 304, 16),
    (''prefetchable_base_upper'', 320, 32), (''prefetchable_limit_upper'', 352, 32),
    (''io_base_upper'', 384, 16), (''io_limit_upper'', 400, 16), (''capability_ptr'', 416, 8),
    (''res0'', 424, 24), (''expansion_rom_base'', 448, 32), (''int_line'', 480, 8), (''int_pin'', 488, 8),
    (''bridge_control'', 496, 16)]"
  by (simp add: layouts)

lemma pci_tree_device_t_members:
  "members pci_tree_device_t_layout = [(''dev'', 0, 64), (''bus'', 64, 64), (''next'', 128, 64)]"
  by (simp add: layouts)

lemma pci_tree_bus_t_members:
  "members pci_tree_bus_t_layout = [(''id'', 0, 8), (''bridges'', 64, 64), (''devs'', 128, 64)]"
  by (simp add: layouts)

lemma pci_tree_bridge_t_members:
  "members pci_tree_bridge_t_layout = [(''primary'', 0, 64), (''secondary'', 64, 64), (''bridge'', 128, 64),
    (''next'', 192, 64)]"
  by (simp add: layouts)

lemma ide_bus_t_members:
  "members ide_bus_t_layout = [(''io_bar'', 0, 32), (''ctrl_bar'', 32, 32), (''dma_enabled'', 64, 8),
    (''prdt'', 128, 64)]"
  by (simp add: layouts)

lemma psf1_header_members:
  "members psf1_header_layout = [(''magic'', 0, 16), (''mode'', 16, 8), (''character_size'', 24, 8)]"
  by (simp add: layouts)

lemma psf2_header_members:
  "members psf2_header_layout = [(''magic'', 0, 32), (''version'', 32, 32), (''header_size'', 64, 32),
    (''flags'', 96, 32), (''num_glyphs'', 128, 32), (''bytes_per_glyph'', 160, 32),
    (''glyph_height'', 192, 32), (''glyph_width'', 224, 32)]"
  by (simp add: layouts)

lemma ahci_hba_port_t_members:
  "members ahci_hba_port_t_layout = [(''clb_lo'', 0, 32), (''clb_hi'', 32, 32), (''fis_base_lo'', 64, 32),
    (''fis_base_hi'', 96, 32), (''int_status'', 128, 32), (''int_enable'', 160, 32), (''command'', 192, 32),
    (''rsv0'', 224, 32), (''task_file_data'', 256, 32), (''signature'', 288, 32), (''sata_status'', 320, 32),
    (''sata_control'', 352, 32), (''sata_error'', 384, 32), (''sata_active'', 416, 32),
    (''command_issue'', 448, 32), (''sata_notification'', 480, 32), (''fis_switch_ctrl'', 512, 32),
    (''rsv1'', 544, 352), (''vendor'', 896, 128)]"
  by (simp add: layouts)

lemma ahci_hba_memory_t_members:
  "members ahci_hba_memory_t_layout = [(''host_capability'', 0, 32), (''global_host_control'', 32, 32),
    (''int_status'', 64, 32), (''port_impl'', 96, 32), (''version'', 128, 32), (''ccc_ctrl'', 160, 32),
    (''ccc_ports'', 192, 32), (''em_loc'', 224, 32), (''em_ctrl'', 256, 32),
    (''host_capability_ext'', 288, 32), (''bohc'', 320, 32), (''rsv'', 352, 928), (''vendor'', 1280, 768),
    (''ports'', 2048, 1024)]"
  by (simp add: layouts)

lemma ahci_comm_header_t_members:
  "members ahci_comm_header_t_layout = [(''comm_fis_length'', 0, 5), (''atapi'', 5, 1), (''write'', 6, 1),
    (''prefetchable'', 7, 1), (''reset'', 8, 1), (''bist'', 9, 1), (''clear'', 10, 1), (''rsv0'', 11, 1),
    (''port_mult_port'', 12, 4), (''prdt_llength'', 16, 16), (''prd_bytes'', 32, 32),
    (''comm_table_lo'', 64, 32), (''comm_table_hi'', 96, 32), (''rsv1'', 128, 128)]"
  by (simp add: layouts)

lemma ahci_hba_received_fis_t_members:
  "members ahci_hba_received_fis_t_layout = [(''dsfis'', 0, 256), (''pad0'', 256, 32), (''psfis'', 288, 160),
    (''pad1'', 448, 96), (''rfis'', 544, 160), (''pad2'', 704, 32), (''sdbfis'', 736, 8), (''ufis'', 744, 512),
    (''rsv'', 1256, 768)]"
  by (simp add: layouts)

section \<open>The models read where the members lie\<close>

lemma load_le_1: "load_le 1 m a = (m a :: u8)"
  by (rule bit_word_eqI) (auto simp: bit_load_le)

definition member_bytes :: "ctype \<Rightarrow> string \<Rightarrow> memory \<Rightarrow> u64 \<Rightarrow> u8 list option" where
  "member_bytes t f m a = map_option (\<lambda>(b, w). read_bytes m (a + of_nat (b div 8)) (w div 8)) (map_of (members t) f)"

lemmas member_reads = load_member_def member_bytes_def load_le_1 [simplified]

text \<open>
  The readers of the ACPI tables read every member at the place and with the width that the
  packed structures of \<^verbatim>\<open>acpi.h\<close> give it, and the lists that follow the tables begin at the
  ends of the structures.
\<close>

theorem acpi_readers_match:
  "let h = header_at m a; lapic = madt_lapic_at m a; ioapic = madt_io_apic_at m a; ov = madt_override_at m a
   in member_bytes acpi_table_header_layout ''signature'' m a = Some (signature h) \<and>
      load_member acpi_table_header_layout ''length'' m a = Some (table_length h) \<and>
      load_member acpi_table_header_layout ''revision'' m a = Some (revision h) \<and>
      load_member acpi_table_header_layout ''checksum'' m a = Some (checksum h) \<and>
      member_bytes acpi_table_header_layout ''OEMID'' m a = Some (OEMID h) \<and>
      member_bytes acpi_table_header_layout ''OEMTableID'' m a = Some (OEMTableID h) \<and>
      load_member acpi_table_header_layout ''OEMRevision'' m a = Some (OEMRevision h) \<and>
      load_member acpi_table_header_layout ''creatorID'' m a = Some (creatorID h) \<and>
      load_member acpi_table_header_layout ''creatorRevision'' m a = Some (creatorRevision h) \<and>
      load_member acpi_fadt_t_layout ''firmware_ctrl'' m a = Some (fadt_firmware_ctrl m a) \<and>
      load_member acpi_fadt_t_layout ''preferred_pm_profile'' m a = Some (fadt_preferred_pm_profile m a) \<and>
      load_member acpi_fadt_t_layout ''x_firmware_ctrl'' m a = Some (fadt_x_firmware_ctrl m a) \<and>
      load_member acpi_fadt_t_layout ''x_dsdt'' m a = Some (fadt_x_dsdt m a) \<and>
      load_member acpi_madt_t_layout ''local_apic_addr'' m a = Some (madt_local_apic_addr m a) \<and>
      load_member acpi_madt_entry_lapic_layout ''acpi_cpu_id'' m a = Some (me_acpi_cpu_id lapic) \<and>
      load_member acpi_madt_entry_lapic_layout ''apic_id'' m a = Some (me_apic_id lapic) \<and>
      load_member acpi_madt_entry_lapic_layout ''flags'' m a = Some (me_flags lapic) \<and>
      load_member acpi_madt_entry_io_apic_layout ''io_apic_id'' m a = Some (io_apic_id ioapic) \<and>
      load_member acpi_madt_entry_io_apic_layout ''io_apic_addr'' m a = Some (io_apic_addr ioapic) \<and>
      load_member acpi_madt_entry_io_apic_layout ''global_system_interrupt_base'' m a = Some (io_apic_gsi_base ioapic) \<and>
      load_member acpi_madt_entry_io_source_override_layout ''bus_source'' m a = Some (bus_source ov) \<and>
      load_member acpi_madt_entry_io_source_override_layout ''irq_source'' m a = Some (irq_source ov) \<and>
      load_member acpi_madt_entry_io_source_override_layout ''global_system_interrupt'' m a = Some (override_gsi ov) \<and>
      load_member acpi_madt_entry_io_source_override_layout ''flags'' m a = Some (override_flags ov) \<and>
      load_member acpi_madt_entry_lapic_addr_override_layout ''lapic_phys_addr'' m a = Some (madt_lapic_phys_addr m a) \<and>
      load_member acpi_mcfg_entry_t_layout ''base'' m a = Some (mcfg_base m a) \<and>
      load_member acpi_mcfg_entry_t_layout ''start_bus'' m a = Some (mcfg_start_bus m a) \<and>
      HEADER_SIZE = of_nat (sizeof acpi_table_header_layout) \<and> MADT_SIZE = of_nat (sizeof acpi_madt_t_layout) \<and>
      mcfg_entry a i = a + of_nat (sizeof acpi_mcfg_t_layout) + of_nat (sizeof acpi_mcfg_entry_t_layout) * of_nat i"
proof -
  note defs = member_reads Let_def header_at_def madt_lapic_at_def madt_io_apic_at_def madt_override_at_def
    fadt_firmware_ctrl_def fadt_preferred_pm_profile_def fadt_x_firmware_ctrl_def fadt_x_dsdt_def
    madt_local_apic_addr_def madt_lapic_phys_addr_def mcfg_base_def mcfg_start_bus_def load64_def
    acpi_table_header_members acpi_fadt_t_members acpi_madt_t_members acpi_madt_entry_lapic_members
    acpi_madt_entry_io_apic_members acpi_madt_entry_io_source_override_members
    acpi_madt_entry_lapic_addr_override_members acpi_mcfg_entry_t_members
  have "sizeof acpi_table_header_layout = 36" "sizeof acpi_madt_t_layout = 44" "sizeof acpi_mcfg_t_layout = 44"
    "sizeof acpi_mcfg_entry_t_layout = 16"
    by (simp_all add: layouts)
  then have "HEADER_SIZE = of_nat (sizeof acpi_table_header_layout)" "MADT_SIZE = of_nat (sizeof acpi_madt_t_layout)"
    "mcfg_entry a i = a + of_nat (sizeof acpi_mcfg_t_layout) + of_nat (sizeof acpi_mcfg_entry_t_layout) * of_nat i"
    by (simp_all add: HEADER_SIZE_def MADT_SIZE_def mcfg_entry_def)
  then show ?thesis by (simp add: defs)
qed

text \<open>
  The registers of the AHCI adapter and of its ports lie at the offsets that the comments of
  \<^verbatim>\<open>ahci.h\<close> give them, and the driver reads them there; a port takes 128 bytes and a command
  header 32.  The structure of the received FIS does not have the offsets it is padded for: the
  DMA setup FIS is aligned to 8 bytes, so everything behind it is moved, and its last member
  begins at 157 and not at \<open>0xA0\<close>.
\<close>

theorem ahci_registers_match:
  "map (\<lambda>f. offset_of ahci_hba_port_t_layout f) [''clb_lo'', ''clb_hi'', ''fis_base_lo'', ''fis_base_hi'', ''int_status'',
      ''int_enable'', ''command'', ''rsv0'', ''task_file_data'', ''signature'', ''sata_status'', ''sata_control'',
      ''sata_error'', ''sata_active'', ''command_issue'', ''sata_notification'', ''fis_switch_ctrl'', ''rsv1'', ''vendor''] =
     map Some [0x00, 0x04, 0x08, 0x0C, 0x10, 0x14, 0x18, 0x1C, 0x20, 0x24, 0x28, 0x2C, 0x30, 0x34, 0x38, 0x3C, 0x40, 0x44, 0x70] \<and>
   map (\<lambda>f. offset_of ahci_hba_memory_t_layout f) [''host_capability'', ''global_host_control'', ''int_status'',
      ''port_impl'', ''version'', ''ccc_ctrl'', ''ccc_ports'', ''em_loc'', ''em_ctrl'', ''host_capability_ext'', ''bohc'',
      ''rsv'', ''vendor'', ''ports''] =
     map Some [0x00, 0x04, 0x08, 0x0C, 0x10, 0x14, 0x18, 0x1C, 0x20, 0x24, 0x28, 0x2C, 0xA0, 0x100] \<and>
   load_member ahci_hba_memory_t_layout ''host_capability'' m a = Some (host_capability m a) \<and>
   load_member ahci_hba_memory_t_layout ''port_impl'' m a = Some (port_impl m a) \<and>
   hba_port a i = a + 0x100 + of_nat (sizeof ahci_hba_port_t_layout) * of_nat i \<and>
   load_member ahci_hba_port_t_layout ''clb_lo'' m a = Some (clb_lo m a) \<and>
   load_member ahci_hba_port_t_layout ''clb_hi'' m a = Some (clb_hi m a) \<and>
   load_member ahci_hba_port_t_layout ''signature'' m a = Some (port_signature m a) \<and>
   load_member ahci_hba_port_t_layout ''sata_status'' m a = Some (sata_status m a) \<and>
   load_member ahci_hba_port_t_layout ''command_issue'' m a = Some (command_issue m a) \<and>
   sizeof ahci_comm_header_t_layout = 32 \<and>
   map (\<lambda>f. offset_of ahci_comm_header_t_layout f) [''comm_table_lo'', ''comm_table_hi''] = [Some 8, Some 12] \<and>
   map (\<lambda>f. offset_of ahci_hba_received_fis_t_layout f) [''psfis'', ''rfis'', ''ufis'', ''rsv''] =
     [Some 36, Some 68, Some 93, Some 157]"
proof -
  have "sizeof ahci_hba_port_t_layout = 128" "sizeof ahci_comm_header_t_layout = 32"
    by (simp_all add: layouts)
  then show ?thesis
    by (simp add: member_reads offset_of_def ahci_hba_port_t_members ahci_hba_memory_t_members
        ahci_comm_header_t_members ahci_hba_received_fis_t_members host_capability_def port_impl_def hba_port_def
        clb_lo_def clb_hi_def port_signature_def sata_status_def command_issue_def)
qed

text \<open>The same for the configuration headers and the nodes of the device tree, the IDE buses and the fonts.\<close>

lemma pci_readers_match:
  "load_member pci_dev_header_t_layout ''vendor_id'' m a = Some (vendor_id m a)"
  "load_member pci_dev_header_t_layout ''prog_if'' m a = Some (prog_if m a)"
  "load_member pci_dev_header_t_layout ''subclass'' m a = Some (sub_class m a)"
  "load_member pci_dev_header_t_layout ''class_code'' m a = Some (class_code m a)"
  "load_member pci_dev_header_t_layout ''header_type'' m a = Some (header_type m a)"
  "load_member pci_general_dev_t_layout ''bar0'' m a = Some (bar m a 0)"
  "load_member pci_general_dev_t_layout ''bar5'' m a = Some (bar m a 5)"
  "load_member pci_general_dev_t_layout ''int_pin'' m a = Some (int_pin m a)"
  "load_member pci_pci_bridge_t_layout ''secondary_bus_number'' m a = Some (secondary_bus_number m a)"
  "load_member pci_pci_bridge_t_layout ''subordinate_bus_number'' m a = Some (subordinate_bus_number m a)"
  by (simp_all add: member_reads vendor_id_def prog_if_def sub_class_def class_code_def header_type_def bar_def
      int_pin_def secondary_bus_number_def subordinate_bus_number_def pci_dev_header_t_members
      pci_general_dev_t_members pci_pci_bridge_t_members add.commute)

lemma pci_tree_readers_match:
  "load_member pci_tree_bus_t_layout ''id'' m a = Some (bus_id m a)"
  "load_member pci_tree_bus_t_layout ''bridges'' m a = Some (bus_bridges m a)"
  "load_member pci_tree_bus_t_layout ''devs'' m a = Some (bus_devs m a)"
  "load_member pci_tree_device_t_layout ''dev'' m a = Some (node_dev m a)"
  "load_member pci_tree_device_t_layout ''bus'' m a = Some (node_bus m a)"
  "load_member pci_tree_device_t_layout ''next'' m a = Some (node_next m a)"
  "load_member pci_tree_bridge_t_layout ''primary'' m a = Some (bridge_primary m a)"
  "load_member pci_tree_bridge_t_layout ''secondary'' m a = Some (bridge_secondary m a)"
  "load_member pci_tree_bridge_t_layout ''bridge'' m a = Some (bridge_config m a)"
  "load_member pci_tree_bridge_t_layout ''next'' m a = Some (bridge_next m a)"
  by (simp_all add: member_reads load64_def bus_id_def bus_bridges_def bus_devs_def node_dev_def node_bus_def
      node_next_def bridge_primary_def bridge_secondary_def bridge_config_def bridge_next_def
      pci_tree_bus_t_members pci_tree_device_t_members pci_tree_bridge_t_members)

lemma ide_readers_match:
  "load_member ide_bus_t_layout ''io_bar'' (vmem s) a = Some (io_bar s a)"
  "load_member ide_bus_t_layout ''ctrl_bar'' (vmem s) a = Some (ctrl_bar s a)"
  by (simp_all add: member_reads io_bar_def ctrl_bar_def ide_bus_t_members)

lemma font_readers_match:
  "load_member psf1_header_layout ''character_size'' m a = Some (character_size (psf1_at m a))"
  "load_member psf2_header_layout ''header_size'' m a = Some (header_size (psf2_at m a))"
  "load_member psf2_header_layout ''bytes_per_glyph'' m a = Some (bytes_per_glyph (psf2_at m a))"
  "load_member psf2_header_layout ''glyph_height'' m a = Some (glyph_height (psf2_at m a))"
  "load_member psf2_header_layout ''glyph_width'' m a = Some (glyph_width (psf2_at m a))"
  by (simp_all add: member_reads psf1_at_def psf2_at_def psf1_header_members psf2_header_members)

text \<open>
  The sizes that the program asks the allocators for, and those of the entries of the tables of
  the processor.
\<close>

lemma sizes:
  "sizeof leokernel_memory_descriptor_t_layout = 32" "sizeof object_pool_descriptor_t_layout = 32"
  "sizeof kheap_descriptor_t_layout = 32" "sizeof gdt_t_layout = 8" "sizeof gdtr_t_layout = 10"
  "sizeof idt_t_layout = 16" "sizeof idtr_t_layout = 10" "sizeof file_t_layout = 16" "sizeof ms_dev_t_layout = 8"
  "sizeof pci_tree_bus_t_layout = 24" "sizeof pci_tree_device_t_layout = 24" "sizeof pci_tree_bridge_t_layout = 32"
  "sizeof ide_bus_t_layout = 24" "sizeof ide_prd_t_layout = 1" "sizeof ide_device_t_layout = 32"
  "sizeof ahci_device_t_layout = 16" "sizeof md5_t_layout = 16"
  by (simp_all add: layouts)

text \<open>The structure for a base address register of the PCI takes 8 bytes; the register has 4.\<close>

lemma pci_bar_too_large: "sizeof pci_bar_t_layout = 8"
  by (simp add: layouts)

end
