(* ===== verification/Md5.thy ===== *)
theory Md5
  imports Kmalloc
begin

text \<open>
  \<^verbatim>\<open>crypto/md5.c\<close> as far as it is written: it copies its input into blocks of 64 bytes in a
  local array and ends there.  A copy beyond the end of the array is \<open>None\<close>; the function has
  no \<^verbatim>\<open>return\<close>, so the digest of its result is \<open>None\<close> too.
\<close>

text \<open>The condition of the conditional expression is the whole sum compared with 0.\<close>

definition num_blocks :: "u32 \<Rightarrow> u32" where
  "num_blocks sz = (if sz div 512 + sz mod 512 \<noteq> 0 then 1 else 0)"

text \<open>\<^verbatim>\<open>memcpy\<close> into a local array, here a list of bytes, from byte \<open>k\<close> on.\<close>

definition copy_to_local :: "nat \<Rightarrow> u64 \<Rightarrow> nat \<Rightarrow> memory \<Rightarrow> u8 list \<Rightarrow> u8 list option" where
  "copy_to_local k src n m blocks =
     (if k + n \<le> length blocks then Some (take k blocks @ read_bytes m src n @ drop (k + n) blocks) else None)"

text \<open>The loop over all blocks but the last; \<open>k\<close> blocks are left.\<close>

fun copy_blocks :: "u32 \<Rightarrow> nat \<Rightarrow> u64 \<Rightarrow> memory \<Rightarrow> u8 list \<Rightarrow> u8 list option" where
  "copy_blocks i 0 input m blocks = Some blocks"
| "copy_blocks i (Suc k) input m blocks =
     (case copy_to_local (64 * unat i) (input + ucast (64 * i)) 64 m blocks of
        None \<Rightarrow> None
      | Some blocks \<Rightarrow> copy_blocks (i + 1) k input m blocks)"

text \<open>\<open>junk\<close> is what the local array holds at first; the result is the digest and the array at the end.\<close>

definition md5 :: "(nat \<Rightarrow> u8) \<Rightarrow> u64 \<Rightarrow> u32 \<Rightarrow> memory \<Rightarrow> (u8 list option \<times> u8 list) option" where
  "md5 junk input sz m =
     (let n = num_blocks sz in
      case copy_blocks 0 (unat (n - 1)) input m (map junk [0..<64 * unat n]) of
        None \<Rightarrow> None
      | Some blocks \<Rightarrow>
          map_option (\<lambda>blocks. (None, blocks))
            (copy_to_local (64 * unat (n - 1)) (input + ucast (64 * (n - 1))) (unat (sz mod 512)) m blocks))"

section \<open>What it does\<close>

lemma num_blocks_cases: "num_blocks sz = (if sz = 0 then 0 else 1)"
proof -
  have "sz div 512 + sz mod 512 = 0 \<longleftrightarrow> sz = 0"
  proof
    assume z: "sz div 512 + sz mod 512 = 0"
    have "unat (sz div 512) + unat (sz mod 512) \<le> unat sz"
      by (simp add: unat_div_distrib unat_mod_distrib)
    also have "\<dots> < 4294967296" using unsigned_less [of sz] by simp
    finally have "unat (sz div 512 + sz mod 512) = unat (sz div 512) + unat (sz mod 512)"
      by (simp add: unat_word_ariths)
    with z have "sz div 512 = 0" "sz mod 512 = 0" by (simp_all add: unat_eq_0)
    then show "sz = 0" by (metis add_0 div_mult_mod_eq mult_zero_left)
  qed simp
  then show ?thesis by (simp add: num_blocks_def)
qed

text \<open>
  For an empty input and for one whose size leaves a remainder of more than 64 by 512 the
  local array overflows.  Otherwise only that remainder is copied, whatever the size is, and
  there is no digest.
\<close>

theorem md5_no_digest:
  "md5 junk input sz m =
     (if sz = 0 \<or> 64 < unat (sz mod 512) then None
      else Some (None, read_bytes m input (unat (sz mod 512)) @ map junk [unat (sz mod 512)..<64]))"
proof (cases "sz = 0")
  case True
  have "unat (- 1 :: u32) \<noteq> 0" by (simp add: unat_eq_0)
  then obtain k where k: "unat (- 1 :: u32) = Suc k" using not0_implies_Suc by blast
  with True show ?thesis
    by (simp add: md5_def num_blocks_cases copy_to_local_def k)
next
  case False
  then show ?thesis
    by (auto simp: md5_def num_blocks_cases copy_to_local_def drop_map)
qed

end
