(* ===== verification/Floats.thy ===== *)
theory Floats
  imports Complex_Main "HOL-Library.Log_Nat"
begin

text \<open>
  The floating point of C on x86-64: the binary formats of IEEE 754 with single and double
  precision, rounded to the nearest number and to the even one of two.  A number is its rational
  value.  The two zeros are not told apart: nothing in the program can tell them apart, as it
  divides only by constants and by a number it has compared with 0.
\<close>

datatype fp = Num rat | Infinite bool | Not_a_number

section \<open>Rounding\<close>

definition half_even :: "rat \<Rightarrow> int" where
  "half_even y =
     (if y - of_int \<lfloor>y\<rfloor> < 1 / 2 \<or> (y - of_int \<lfloor>y\<rfloor> = 1 / 2 \<and> even \<lfloor>y\<rfloor>) then \<lfloor>y\<rfloor> else \<lfloor>y\<rfloor> + 1)"

definition pow2 :: "int \<Rightarrow> rat" where
  "pow2 e = (if 0 \<le> e then of_int (2 ^ nat e) else 1 / of_int (2 ^ nat (- e)))"

lemma pow2_powi [simp]: "pow2 e = 2 powi e"
  by (simp add: pow2_def power_int_def inverse_eq_divide power_one_over)

text \<open>The power of two at or below a positive number, from the lengths of numerator and denominator.\<close>

definition exponent_of :: "rat \<Rightarrow> int" where
  "exponent_of x =
     (let (n, d) = quotient_of x; e = bitlen n - bitlen d in if pow2 e \<le> x then e else e - 1)"

text \<open>A format has \<open>p\<close> binary digits and exponents between \<open>lo\<close> and \<open>hi\<close>.\<close>

record format =
  digits :: nat
  lowest :: int
  highest :: int

definition single :: format where "single = \<lparr>digits = 24, lowest = - 126, highest = 127\<rparr>"
definition double :: format where "double = \<lparr>digits = 53, lowest = - 1022, highest = 1023\<rparr>"

text \<open>The distance of the numbers around \<open>x\<close> is two to the power of \<open>ulp_exponent\<close>.\<close>

definition ulp_exponent :: "format \<Rightarrow> rat \<Rightarrow> int" where
  "ulp_exponent F x = max (exponent_of \<bar>x\<bar>) (lowest F) - (int (digits F) - 1)"

definition nearest :: "format \<Rightarrow> rat \<Rightarrow> rat" where
  "nearest F x = (if x = 0 then 0 else of_int (half_even (x / pow2 (ulp_exponent F x))) * pow2 (ulp_exponent F x))"

definition fp_round :: "format \<Rightarrow> rat \<Rightarrow> fp" where
  "fp_round F x = (if highest F < exponent_of \<bar>nearest F x\<bar> then Infinite (x < 0) else Num (nearest F x))"

section \<open>Operations\<close>

fun fp_neg :: "fp \<Rightarrow> fp" where
  "fp_neg (Num x) = Num (- x)"
| "fp_neg (Infinite s) = Infinite (\<not> s)"
| "fp_neg Not_a_number = Not_a_number"

fun fp_add :: "format \<Rightarrow> fp \<Rightarrow> fp \<Rightarrow> fp" where
  "fp_add F (Num x) (Num y) = fp_round F (x + y)"
| "fp_add F (Infinite s) (Infinite t) = (if s = t then Infinite s else Not_a_number)"
| "fp_add F (Infinite s) (Num y) = Infinite s"
| "fp_add F (Num x) (Infinite t) = Infinite t"
| "fp_add F _ _ = Not_a_number"

definition fp_sub :: "format \<Rightarrow> fp \<Rightarrow> fp \<Rightarrow> fp" where
  "fp_sub F x y = fp_add F x (fp_neg y)"

fun fp_mult :: "format \<Rightarrow> fp \<Rightarrow> fp \<Rightarrow> fp" where
  "fp_mult F (Num x) (Num y) = fp_round F (x * y)"
| "fp_mult F (Infinite s) (Infinite t) = Infinite (s \<noteq> t)"
| "fp_mult F (Infinite s) (Num y) = (if y = 0 then Not_a_number else Infinite (s \<noteq> (y < 0)))"
| "fp_mult F (Num x) (Infinite t) = (if x = 0 then Not_a_number else Infinite ((x < 0) \<noteq> t))"
| "fp_mult F _ _ = Not_a_number"

text \<open>Division by zero gives an infinity whose sign is the one for a positive zero.\<close>

fun fp_div :: "format \<Rightarrow> fp \<Rightarrow> fp \<Rightarrow> fp" where
  "fp_div F (Num x) (Num y) =
     (if y \<noteq> 0 then fp_round F (x / y) else if x = 0 then Not_a_number else Infinite (x < 0))"
| "fp_div F (Infinite s) (Num y) = Infinite (s \<noteq> (y < 0))"
| "fp_div F (Num x) (Infinite t) = Num 0"
| "fp_div F _ _ = Not_a_number"

fun fp_less :: "fp \<Rightarrow> fp \<Rightarrow> bool" where
  "fp_less (Num x) (Num y) = (x < y)"
| "fp_less (Infinite s) (Num y) = s"
| "fp_less (Num x) (Infinite t) = (\<not> t)"
| "fp_less (Infinite s) (Infinite t) = (s \<and> \<not> t)"
| "fp_less _ _ = False"

definition fp_eq :: "fp \<Rightarrow> fp \<Rightarrow> bool" where
  "fp_eq x y \<longleftrightarrow> x = y \<and> x \<noteq> Not_a_number"

text \<open>Conversion between the formats, from integers, and to integers by truncation.\<close>

fun fp_convert :: "format \<Rightarrow> fp \<Rightarrow> fp" where
  "fp_convert F (Num x) = fp_round F x"
| "fp_convert F x = x"

definition fp_of_int :: "format \<Rightarrow> int \<Rightarrow> fp" where
  "fp_of_int F n = fp_round F (of_int n)"

definition toward_zero :: "rat \<Rightarrow> int" where
  "toward_zero x = (if 0 \<le> x then \<lfloor>x\<rfloor> else - \<lfloor>- x\<rfloor>)"

text \<open>A conversion to an integer type is undefined when the truncated value is not one of the type.\<close>

fun fp_to_int :: "int \<Rightarrow> int \<Rightarrow> fp \<Rightarrow> int option" where
  "fp_to_int lo hi (Num x) = (if lo \<le> toward_zero x \<and> toward_zero x < hi then Some (toward_zero x) else None)"
| "fp_to_int lo hi _ = None"

section \<open>Facts on rounding\<close>

lemma half_even_bounds: "y - 1 / 2 \<le> of_int (half_even y)" "of_int (half_even y) \<le> y + 1 / 2"
proof -
  have "of_int \<lfloor>y\<rfloor> \<le> y" "y < of_int \<lfloor>y\<rfloor> + 1" by linarith+
  then show "y - 1 / 2 \<le> of_int (half_even y)" "of_int (half_even y) \<le> y + 1 / 2"
    unfolding half_even_def by (simp_all split: if_split) linarith+
qed

lemma half_even_of_int [simp]: "half_even (of_int k) = k"
  by (simp add: half_even_def)

lemma le_half_even: "of_int k \<le> y \<Longrightarrow> k \<le> half_even y"
proof -
  assume "of_int k \<le> y"
  then have "k \<le> \<lfloor>y\<rfloor>" by (simp add: le_floor_iff)
  then show ?thesis by (simp add: half_even_def)
qed

lemma half_even_le: "y \<le> of_int k \<Longrightarrow> half_even y \<le> k"
proof -
  assume y: "y \<le> of_int k"
  show ?thesis
  proof (cases "\<lfloor>y\<rfloor> = k")
    case True
    with y have "y = of_int k" by linarith
    then show ?thesis by simp
  next
    case False
    with y have "\<lfloor>y\<rfloor> + 1 \<le> k" by linarith
    then show ?thesis by (simp add: half_even_def)
  qed
qed

lemma half_even_minus: "half_even (- y) = - half_even y"
proof (cases "y = of_int \<lfloor>y\<rfloor>")
  case True
  then have "half_even (- y) = half_even (of_int (- \<lfloor>y\<rfloor>))" "half_even y = half_even (of_int \<lfloor>y\<rfloor>)" by simp_all
  then show ?thesis by (simp del: of_int_minus)
next
  case False
  then have f: "\<lfloor>- y\<rfloor> = - \<lfloor>y\<rfloor> - 1" by linarith
  show ?thesis unfolding half_even_def f by (auto simp: field_simps)
qed

lemma exponent_of_bounds:
  assumes "0 < x"
  shows "2 powi exponent_of x \<le> x" and "x < 2 powi (exponent_of x + 1)"
proof -
  obtain n d where q: "quotient_of x = (n, d)" by (cases "quotient_of x")
  then have d: "0 < d" and x: "x = of_int n / of_int d"
    by (simp_all add: quotient_of_denom_pos quotient_of_div)
  with assms have n: "0 < n" by (simp add: zero_less_divide_iff)
  have bounds: "2 powi (bitlen k - 1) \<le> (of_int k :: rat)" "of_int k < (2 powi bitlen k :: rat)" if "0 < k" for k
  proof -
    have "2 ^ nat (bitlen k - 1) \<le> k" "k < 2 ^ nat (bitlen k)" using bitlen_bounds [OF that] by simp_all
    then have "(of_int (2 ^ nat (bitlen k - 1)) :: rat) \<le> of_int k" "of_int k < (of_int (2 ^ nat (bitlen k)) :: rat)"
      by (simp_all only: of_int_le_iff of_int_less_iff)
    moreover have "0 < bitlen k" using that bitlen_nonneg [of k] bitlen_eq_zero_iff [of k] by linarith
    ultimately show "2 powi (bitlen k - 1) \<le> (of_int k :: rat)" "of_int k < (2 powi bitlen k :: rat)"
      by (simp_all add: power_int_def)
  qed
  let ?e = "bitlen n - bitlen d"
  have "2 powi (?e - 1) \<le> x"
  proof -
    have "(2 powi (?e - 1) :: rat) * of_int d \<le> 2 powi (?e - 1) * 2 powi bitlen d"
      using bounds(2) [OF d] by (intro mult_left_mono) auto
    also have "\<dots> = 2 powi (bitlen n - 1)" by (simp flip: power_int_add)
    also have "\<dots> \<le> of_int n" by (rule bounds(1) [OF n])
    finally show ?thesis using d by (simp add: x le_divide_eq)
  qed
  moreover have "x < 2 powi (?e + 1)"
  proof -
    have "of_int n < (2 powi bitlen n :: rat)" by (rule bounds(2) [OF n])
    also have "\<dots> = 2 powi (?e + 1) * 2 powi (bitlen d - 1)" by (simp flip: power_int_add)
    also have "\<dots> \<le> 2 powi (?e + 1) * of_int d"
      using bounds(1) [OF d] by (intro mult_left_mono) auto
    finally show ?thesis using d by (simp add: x divide_less_eq)
  qed
  ultimately show "2 powi exponent_of x \<le> x" "x < 2 powi (exponent_of x + 1)"
    by (auto simp: exponent_of_def q Let_def not_le)
qed

text \<open>
  The numbers of a format: \<open>n\<close> units of a power of two that is not below the least one, \<open>n\<close>
  having as many digits as the format.
\<close>

definition representable :: "format \<Rightarrow> rat \<Rightarrow> bool" where
  "representable F y \<longleftrightarrow>
     (\<exists>n k. y = of_int n * 2 powi k \<and> \<bar>n\<bar> < 2 ^ digits F \<and> lowest F - (int (digits F) - 1) \<le> k)"

lemma representable_int:
  "\<bar>n\<bar> < 2 ^ digits F \<Longrightarrow> lowest F - (int (digits F) - 1) \<le> 0 \<Longrightarrow> representable F (of_int n)"
  unfolding representable_def by (intro exI [of _ n] exI [of _ 0]) simp

lemma powi_split:
  assumes "k \<le> l"
  shows "(2 powi l :: rat) = 2 ^ nat (l - k) * 2 powi k"
proof -
  have "(2 powi l :: rat) = 2 powi (l - k) * 2 powi k" by (simp flip: power_int_add)
  also have "(2 powi (l - k) :: rat) = 2 ^ nat (l - k)" using assms by (simp add: power_int_def)
  finally show ?thesis .
qed

text \<open>
  Near a positive \<open>x\<close> a number of the format is a multiple of the unit at \<open>x\<close>, or below the
  power of two at \<open>x\<close>.
\<close>

lemma representable_cases:
  assumes "representable F y" and "0 < x"
  obtains j where "y = of_int j * 2 powi ulp_exponent F x"
  | "\<bar>y\<bar> < 2 powi exponent_of x" "ulp_exponent F x = exponent_of x - (int (digits F) - 1)"
proof -
  obtain n k where y: "y = of_int n * 2 powi k" "\<bar>n\<bar> < 2 ^ digits F" "lowest F - (int (digits F) - 1) \<le> k"
    using assms(1) by (auto simp: representable_def)
  let ?u = "ulp_exponent F x"
  show thesis
  proof (cases "?u \<le> k")
    case True
    then have "y = of_int (n * 2 ^ nat (k - ?u)) * 2 powi ?u" using powi_split [OF True] by (simp add: y(1))
    then show thesis by (rule that(1))
  next
    case False
    with y(3) assms(2) have u: "?u = exponent_of x - (int (digits F) - 1)" by (auto simp: ulp_exponent_def)
    have "\<bar>y\<bar> = of_int \<bar>n\<bar> * 2 powi k" by (simp add: y(1) abs_mult)
    also have "\<dots> < of_int (2 ^ digits F) * 2 powi k"
      using y(2) by (intro mult_strict_right_mono) (simp_all only: of_int_less_iff, simp)
    also have "\<dots> = 2 powi (int (digits F) + k)" by (simp add: power_int_add)
    also have "\<dots> \<le> 2 powi exponent_of x" using False u by (intro power_int_increasing) simp_all
    finally show thesis using u by (rule that(2))
  qed
qed

lemma nearest_zero [simp]: "nearest F 0 = 0"
  by (simp add: nearest_def)

lemma nearest_minus: "nearest F (- x) = - nearest F x"
  by (simp add: nearest_def ulp_exponent_def half_even_minus)

text \<open>Rounding keeps the order to the numbers of the format, and so keeps these themselves.\<close>

lemma nearest_ge:
  assumes "representable F y" and "0 < x" and "y \<le> x" and "1 \<le> digits F"
  shows "y \<le> nearest F x"
  using assms(1,2)
proof (cases rule: representable_cases)
  case (1 j)
  let ?u = "2 powi ulp_exponent F x :: rat"
  have "of_int j \<le> x / ?u" using assms(3) by (simp add: 1 le_divide_eq)
  then have "of_int j * ?u \<le> of_int (half_even (x / ?u)) * ?u" by (intro mult_right_mono) (simp_all add: le_half_even)
  with assms(2) show ?thesis by (simp add: 1 nearest_def)
next
  case 2
  let ?u = "2 powi ulp_exponent F x :: rat" and ?N = "2 ^ (digits F - 1) :: int"
  have N: "2 powi exponent_of x = of_int ?N * ?u"
    using powi_split [of "ulp_exponent F x" "exponent_of x"] assms(4) by (simp add: 2(2) nat_diff_distrib)
  then have "of_int ?N \<le> x / ?u" using exponent_of_bounds(1) [OF assms(2)] by (simp add: le_divide_eq)
  then have "of_int ?N * ?u \<le> of_int (half_even (x / ?u)) * ?u"
    by (intro mult_right_mono) (simp_all only: of_int_le_iff le_half_even, simp)
  also have "\<dots> = nearest F x" using assms(2) by (simp add: nearest_def)
  finally show ?thesis using N 2(1) by linarith
qed

lemma nearest_le:
  assumes "representable F y" and "0 < x" and "x \<le> y"
  shows "nearest F x \<le> y"
  using assms(1,2)
proof (cases rule: representable_cases)
  case (1 j)
  let ?u = "2 powi ulp_exponent F x :: rat"
  have "x / ?u \<le> of_int j" using assms(3) by (simp add: 1 divide_le_eq)
  then have "of_int (half_even (x / ?u)) * ?u \<le> of_int j * ?u" by (intro mult_right_mono) (simp_all add: half_even_le)
  with assms(2) show ?thesis by (simp add: 1 nearest_def)
next
  case 2
  with exponent_of_bounds(1) [OF assms(2)] assms(2,3) show ?thesis by simp
qed

lemma representable_minus: "representable F y \<Longrightarrow> representable F (- y)"
  unfolding representable_def by (metis abs_minus_cancel mult_minus_left of_int_minus)

lemma nearest_representable:
  assumes "representable F y" and "1 \<le> digits F"
  shows "nearest F y = y"
proof -
  have pos: "nearest F x = x" if "representable F x" "0 < x" for x
    using nearest_ge [OF that order_refl assms(2)] nearest_le [OF that order_refl] by simp
  consider "y = 0" | "0 < y" | "0 < - y" by linarith
  then show ?thesis
    using assms(1) pos [of y] pos [of "- y"] by cases (simp_all add: nearest_minus representable_minus)
qed

lemma representable_0 [simp]: "representable F 0"
  unfolding representable_def by (intro exI [of _ 0] exI [of _ "lowest F + 1"]) simp

lemma nearest_between:
  assumes "0 \<le> x" and "x \<le> y" and "representable F y" and "1 \<le> digits F"
  shows "0 \<le> nearest F x \<and> nearest F x \<le> y"
proof (cases "x = 0")
  case False
  with assms(1) have x: "0 < x" by simp
  show ?thesis
    using nearest_ge [OF representable_0 x _ assms(4)] nearest_le [OF assms(3) x assms(2)] x by simp
qed (use assms in simp)

lemma abs_nearest: "\<bar>nearest F x\<bar> = nearest F \<bar>x\<bar> " if "1 \<le> digits F"
proof -
  have "0 \<le> nearest F z" if "0 < z" for z
    using nearest_ge [OF representable_0 that _ \<open>1 \<le> digits F\<close>] that by simp
  then consider "x = 0" | "0 < x" "0 \<le> nearest F x" | "0 < - x" "0 \<le> nearest F (- x)" by (metis linorder_cases neg_0_less_iff_less)
  then show ?thesis by cases (auto simp: nearest_minus)
qed

lemma abs_nearest_le: "\<bar>x\<bar> \<le> y \<Longrightarrow> representable F y \<Longrightarrow> 1 \<le> digits F \<Longrightarrow> \<bar>nearest F x\<bar> \<le> y"
  using nearest_between [of "\<bar>x\<bar>" y F] by (simp add: abs_nearest)

lemma representable_nearest:
  assumes "0 \<le> x" and "1 \<le> digits F"
  shows "representable F (nearest F x)"
proof (cases "x = 0")
  case False
  with assms have x: "0 < x" by simp
  let ?u = "ulp_exponent F x" and ?p = "digits F"
  let ?j = "half_even (x / 2 powi ?u)"
  have near: "nearest F x = of_int ?j * 2 powi ?u" using x by (simp add: nearest_def)
  have "exponent_of x \<le> ?u + (int ?p - 1)" using x by (simp add: ulp_exponent_def)
  then have "(2 powi (exponent_of x + 1) :: rat) \<le> 2 powi (int ?p + ?u)" by (intro power_int_increasing) simp_all
  with exponent_of_bounds(2) [OF x] have "x < 2 powi (int ?p + ?u)" by linarith
  then have "x / 2 powi ?u \<le> of_int (2 ^ ?p)" by (simp add: divide_le_eq power_int_add)
  then have j: "?j \<le> 2 ^ ?p" by (rule half_even_le)
  have "0 \<le> ?j" using x by (intro le_half_even) simp
  have u: "lowest F - (int ?p - 1) \<le> ?u" by (simp add: ulp_exponent_def)
  show ?thesis
  proof (cases "?j = 2 ^ ?p")
    case True
    then have "nearest F x = of_int (2 ^ (?p - 1)) * 2 powi (?u + 1)"
      using near assms(2) power_minus_mult [of ?p "2 :: rat"] by (simp add: power_int_add)
    moreover have "(2 :: int) ^ (?p - 1) < 2 ^ ?p" using assms(2) by (intro power_strict_increasing) simp_all
    ultimately show ?thesis unfolding representable_def using u by (intro exI [of _ "2 ^ (?p - 1)"] exI [of _ "?u + 1"]) simp
  next
    case False
    with j \<open>0 \<le> ?j\<close> u near show ?thesis unfolding representable_def by (intro exI [of _ ?j] exI [of _ ?u]) simp
  qed
qed simp

text \<open>Up to 1 the error is at most half of the unit below 1.\<close>

lemma nearest_error:
  assumes "0 \<le> x" and "x \<le> 1" and "lowest F \<le> 0"
  shows "nearest F x \<le> x + 2 powi (- int (digits F))"
proof (cases "x = 0")
  case False
  with assms have x: "0 < x" by simp
  let ?u = "ulp_exponent F x"
  have "exponent_of x \<le> 0"
  proof (rule ccontr)
    assume "\<not> exponent_of x \<le> 0"
    then have "(2 powi 1 :: rat) \<le> 2 powi exponent_of x" by (intro power_int_increasing) simp_all
    with exponent_of_bounds(1) [OF x] assms(2) show False by simp
  qed
  with x assms(3) have u: "?u \<le> 1 - int (digits F)" by (simp add: ulp_exponent_def)
  have "nearest F x = of_int (half_even (x / 2 powi ?u)) * 2 powi ?u" using x by (simp add: nearest_def)
  also have "\<dots> \<le> (x / 2 powi ?u + 1 / 2) * 2 powi ?u" by (intro mult_right_mono half_even_bounds) simp
  also have "\<dots> = x + 2 powi ?u / 2" by (simp add: algebra_simps)
  also have "2 powi ?u / 2 \<le> (2 powi (1 - int (digits F)) / 2 :: rat)"
    using u by (intro divide_right_mono power_int_increasing) simp_all
  also have "(2 powi (1 - int (digits F)) / 2 :: rat) = 2 powi (- int (digits F))" by (simp add: power_int_diff power_int_minus field_simps)
  finally show ?thesis by simp
qed simp

text \<open>Below \<open>2 ^ 64\<close> nothing overflows.\<close>

lemma format_fields [simp]:
  "digits single = 24" "lowest single = - 126" "highest single = 127"
  "digits double = 53" "lowest double = - 1022" "highest double = 1023"
  by (simp_all add: single_def double_def)

lemma representable_two_64: "F = single \<or> F = double \<Longrightarrow> representable F (2 ^ 64)"
  unfolding representable_def by (intro exI [of _ 1] exI [of _ 64]) (auto simp: single_def double_def)

lemma fp_round_small:
  assumes "F = single \<or> F = double" and "\<bar>x\<bar> \<le> 2 ^ 64"
  shows "fp_round F x = Num (nearest F x)"
proof -
  have r: "\<bar>nearest F x\<bar> \<le> 2 powi 64" using assms abs_nearest_le [OF assms(2) representable_two_64] by auto
  have "exponent_of \<bar>nearest F x\<bar> \<le> 64"
  proof (cases "nearest F x = 0")
    case False
    show ?thesis
    proof (rule ccontr)
      assume "\<not> ?thesis"
      then have "(2 powi 64 :: rat) < 2 powi exponent_of \<bar>nearest F x\<bar>" by (intro power_int_strict_increasing) simp_all
      with r exponent_of_bounds(1) [of "\<bar>nearest F x\<bar>"] False show False by simp
    qed
  qed (simp add: exponent_of_def bitlen_alt_def Let_def)
  with assms(1) show ?thesis by (auto simp: fp_round_def)
qed

end
