(* ===== verification/Splash.thy ===== *)
theory Splash
  imports Floats Tty
begin

text \<open>
  The routines of \<^verbatim>\<open>math.c\<close> on floating point, the conversion of colors of \<^verbatim>\<open>tty/hue.c\<close> and
  \<^verbatim>\<open>launch_splashscreen\<close> of \<^verbatim>\<open>tty/tty.c\<close>.  A conversion to an integer type that cannot hold
  the number and an integer overflow are \<open>None\<close>.
\<close>

section \<open>math.c\<close>

definition fp_le :: "fp \<Rightarrow> fp \<Rightarrow> bool" where
  "fp_le x y \<longleftrightarrow> fp_less x y \<or> fp_eq x y"

definition int_of_fp :: "fp \<Rightarrow> int option" where "int_of_fp = fp_to_int (- (2 ^ 31)) (2 ^ 31)"
definition long_long_of_fp :: "fp \<Rightarrow> int option" where "long_long_of_fp = fp_to_int (- (2 ^ 63)) (2 ^ 63)"
definition uint8_of_fp :: "fp \<Rightarrow> int option" where "uint8_of_fp = fp_to_int 0 256"

definition c_ceil :: "fp \<Rightarrow> fp option" where
  "c_ceil n =
     (case int_of_fp n of None \<Rightarrow> None
      | Some i \<Rightarrow>
          if fp_eq n (fp_of_int double i) then Some n
          else if i = 2 ^ 31 - 1 then None
          else Some (fp_of_int double (i + 1)))"

definition c_floor :: "fp \<Rightarrow> fp option" where
  "c_floor n = map_option (\<lambda>i. fp_convert double (fp_of_int single i)) (int_of_fp n)"

definition c_abs :: "fp \<Rightarrow> fp" where
  "c_abs n = (if fp_le (Num 0) n then n else fp_neg n)"

definition c_fmod :: "fp \<Rightarrow> fp \<Rightarrow> fp option" where
  "c_fmod a b =
     (if fp_eq b (Num 0) then Some (Num 0)
      else
        case long_long_of_fp (fp_div double a b) of None \<Rightarrow> None
        | Some w \<Rightarrow> Some (fp_sub double a (fp_mult double (fp_of_int double w) b)))"

section \<open>hue.c\<close>

text \<open>The channel of a color, \<^verbatim>\<open>(uint8_t)((_r + m) * 255.0)\<close>.\<close>

definition channel :: "fp \<Rightarrow> fp \<Rightarrow> u8 option" where
  "channel y m = map_option of_int
     (uint8_of_fp (fp_mult double (fp_convert double (fp_add single y m)) (Num 255)))"

definition hsv_to_rgb :: "u16 \<Rightarrow> fp \<Rightarrow> fp \<Rightarrow> (u8 \<times> u8 \<times> u8) option" where
  "hsv_to_rgb h s v =
     (let h = (if 359 < h then h mod 360 else h);
          s = (if fp_less (Num 1) s then Num 1 else s);
          v = (if fp_less (Num 1) v then Num 1 else v);
          c = fp_mult single v s
      in case c_fmod (fp_convert double (fp_div single (fp_of_int single (uint h)) (Num 60))) (Num 2) of
           None \<Rightarrow> None
         | Some f \<Rightarrow>
             let x = fp_mult single c (fp_sub single (Num 1) (c_abs (fp_convert single (fp_sub double f (Num 1)))));
                 m = fp_sub single v c;
                 (r, g, b) =
                   (if h < 60 then (c, x, Num 0)
                    else if h < 120 then (x, c, Num 0)
                    else if h < 180 then (Num 0, c, x)
                    else if h < 240 then (Num 0, x, c)
                    else if h < 300 then (x, Num 0, c)
                    else (c, Num 0, x))
             in case (channel r m, channel g m, channel b m) of
                  (Some r, Some g, Some b) \<Rightarrow> Some (r, g, b)
                | _ \<Rightarrow> None)"

section \<open>launch\_splashscreen\<close>

text \<open>The loops over the columns and rows; the delay loop after each pixel has no effect.\<close>

fun splash_row :: "nat \<Rightarrow> nat \<Rightarrow> u64 \<Rightarrow> u16 \<Rightarrow> 'z tty_state_scheme \<Rightarrow> 'z tty_state_scheme option" where
  "splash_row x 0 y hue s = Some s"
| "splash_row x (Suc k) y hue s =
     (case hsv_to_rgb (hue mod 360) (Num 1) (Num 1) of None \<Rightarrow> None
      | Some (r, g, b) \<Rightarrow>
          let rgb = push_bit 16 (ucast r) OR push_bit 8 (ucast g) OR ucast b
          in splash_row (Suc x) k y hue (plot_pixel (of_nat x) y rgb s))"

fun splash_rows :: "nat \<Rightarrow> nat \<Rightarrow> u16 \<Rightarrow> 'z tty_state_scheme \<Rightarrow> 'z tty_state_scheme option" where
  "splash_rows y 0 hue s = Some s"
| "splash_rows y (Suc k) hue s =
     (case splash_row 0 (unat (tty_width s)) (of_nat y) hue s of None \<Rightarrow> None
      | Some s \<Rightarrow> splash_rows (Suc y) k (hue + 1) s)"

definition launch_splashscreen :: "'z tty_state_scheme \<Rightarrow> 'z tty_state_scheme option" where
  "launch_splashscreen s = splash_rows 0 (unat (tty_height s)) 0 s"

section \<open>Rounding to integers\<close>

lemma fp_of_int_small:
  assumes "F = single \<and> \<bar>n\<bar> < 2 ^ 24 \<or> F = double \<and> \<bar>n\<bar> < 2 ^ 53"
  shows "fp_of_int F n = Num (of_int n)"
proof -
  have r: "representable F (of_int n)" using assms by (intro representable_int) auto
  have "\<bar>n\<bar> < 2 ^ 64" using assms by (auto elim: less_trans)
  then have "\<bar>of_int n :: rat\<bar> \<le> 2 ^ 64" by (metis of_int_abs of_int_le_iff of_int_numeral of_int_power less_imp_le)
  moreover have "F = single \<or> F = double" "1 \<le> digits F" using assms by auto
  ultimately show ?thesis using r by (simp add: fp_of_int_def fp_round_small nearest_representable)
qed

text \<open>
  \<^verbatim>\<open>ceil\<close> and \<^verbatim>\<open>floor\<close> are what their names say for numbers that are not negative, \<^verbatim>\<open>floor\<close> up
  to \<open>2 ^ 24\<close>; both toward_zero negative numbers, and \<^verbatim>\<open>floor\<close> loses digits from there on.
\<close>

theorem ceil_floor_nonneg:
  assumes "0 \<le> x" and "x < 2 ^ 24"
  shows "c_floor (Num x) = Some (Num (of_int \<lfloor>x\<rfloor>)) \<and> c_ceil (Num x) = Some (Num (of_int \<lceil>x\<rceil>))"
proof -
  define n where "n = \<lfloor>x\<rfloor>"
  have f: "0 \<le> n" "n < 16777216" using assms by (simp_all add: n_def floor_less_iff)
  have i: "int_of_fp (Num x) = Some n"
    using assms f by (simp add: int_of_fp_def toward_zero_def flip: n_def)
  have d: "fp_of_int double n = Num (of_int n)" "fp_of_int double (n + 1) = Num (of_int n + 1)"
    "fp_of_int single n = Num (of_int n)"
    using f fp_of_int_small [of double "n + 1"] by (simp_all add: fp_of_int_small)
  have c: "\<lceil>x\<rceil> = (if x = of_int n then n else n + 1)" by (simp add: ceiling_altdef n_def)
  have "fp_convert double (Num (of_int n)) = Num (of_int n)" using d(1) by (simp add: fp_of_int_def)
  then have "c_floor (Num x) = Some (Num (of_int n))" using i d(3) by (simp add: c_floor_def)
  moreover have "c_ceil (Num x) = Some (Num (of_int \<lceil>x\<rceil>))"
    using i d(1,2) f unfolding c by (auto simp: c_ceil_def fp_eq_def)
  ultimately show ?thesis by (simp add: n_def)
qed

section \<open>Colors\<close>

lemma representable_double: "representable single x \<Longrightarrow> representable double x"
  unfolding representable_def by (fastforce intro: less_trans)

lemma representable_half: "representable single x \<Longrightarrow> representable double (x / 2)"
proof -
  assume "representable single x"
  then obtain n k where "x = of_int n * 2 powi k" "\<bar>n\<bar> < 16777216" "- 149 \<le> k"
    by (auto simp: representable_def)
  then show ?thesis unfolding representable_def
    by (intro exI [of _ n] exI [of _ "k - 1"]) (simp add: power_int_diff)
qed

lemma small_ops:
  assumes "F = single \<or> F = double"
  shows "\<bar>x + y\<bar> \<le> 2 ^ 64 \<Longrightarrow> fp_add F (Num x) (Num y) = Num (nearest F (x + y))"
    and "\<bar>x - y\<bar> \<le> 2 ^ 64 \<Longrightarrow> fp_sub F (Num x) (Num y) = Num (nearest F (x - y))"
    and "\<bar>x * y\<bar> \<le> 2 ^ 64 \<Longrightarrow> fp_mult F (Num x) (Num y) = Num (nearest F (x * y))"
    and "\<bar>x / y\<bar> \<le> 2 ^ 64 \<Longrightarrow> y \<noteq> 0 \<Longrightarrow> fp_div F (Num x) (Num y) = Num (nearest F (x / y))"
  by (simp_all add: fp_sub_def fp_round_small [OF assms])

lemma convert_representable:
  "F = single \<or> F = double \<Longrightarrow> representable F x \<Longrightarrow> \<bar>x\<bar> \<le> 2 ^ 64 \<Longrightarrow> fp_convert F (Num x) = Num x"
  by (auto simp: fp_round_small nearest_representable)

lemma c_abs_Num [simp]: "c_abs (Num x) = Num \<bar>x\<bar>"
  by (auto simp: c_abs_def fp_le_def fp_eq_def)

text \<open>The remainder by 2 of a small single-precision number.\<close>

lemma c_fmod_two:
  assumes "representable single a" and "0 \<le> a" and "a \<le> 8"
  shows "\<exists>f. c_fmod (Num a) (Num 2) = Some (Num f) \<and> 0 \<le> f \<and> f \<le> 2"
proof -
  define w where "w = \<lfloor>a / 2\<rfloor>"
  have w: "0 \<le> w" "w \<le> 4" "2 * of_int w \<le> a" "a \<le> 2 * of_int w + 2"
    using assms(2,3) unfolding w_def by (simp, linarith+)
  have "fp_div double (Num a) (Num 2) = Num (a / 2)"
    using assms by (subst small_ops(4)) (simp_all add: nearest_representable representable_half)
  then have "long_long_of_fp (fp_div double (Num a) (Num 2)) = Some w"
    using assms(2) w by (simp add: long_long_of_fp_def toward_zero_def flip: w_def)
  moreover have "fp_mult double (fp_of_int double w) (Num 2) = Num (2 * of_int w)"
  proof -
    have "representable double (of_int (2 * w))" using w by (intro representable_int) simp_all
    then have "nearest double (of_int w * 2) = 2 * of_int w"
      using nearest_representable [of double "of_int (2 * w)"] by (simp add: mult.commute)
    moreover have "(of_int w :: rat) \<le> 4" "0 \<le> (of_int w :: rat)" using w(1,2) by (simp_all add: of_int_le_iff [of w 4, simplified])
    then have "\<bar>of_int w * 2\<bar> \<le> (2 ^ 64 :: rat)" by simp
    moreover have "fp_of_int double w = Num (of_int w)" using w(1,2) by (intro fp_of_int_small) simp
    ultimately show ?thesis by (simp only: small_ops(3) [of double] simp_thms)
  qed
  moreover have "fp_sub double (Num a) (Num (2 * of_int w)) = Num (nearest double (a - 2 * of_int w))"
    using w by (intro small_ops(2)) auto
  moreover have "0 \<le> nearest double (a - 2 * of_int w) \<and> nearest double (a - 2 * of_int w) \<le> 2"
    using w representable_int [of 2 double] by (intro nearest_between) auto
  ultimately show ?thesis by (simp add: c_fmod_def fp_eq_def)
qed

text \<open>The position of the hue inside of its sextant, as a ramp between 0 and 1.\<close>

lemma ramp:
  assumes "0 \<le> f" and "f \<le> 2"
  shows "\<exists>g. fp_sub single (Num 1) (c_abs (fp_convert single (fp_sub double (Num f) (Num 1)))) = Num g \<and> 0 \<le> g \<and> g \<le> 1"
proof -
  have one: "representable F 1" if "F = single \<or> F = double" for F
    using representable_int [of 1 F] that by auto
  define d where "d = nearest double (f - 1)"
  have d: "\<bar>d\<bar> \<le> 1" unfolding d_def using assms one by (intro abs_nearest_le) auto
  define e where "e = nearest single d"
  have e: "\<bar>e\<bar> \<le> 1" unfolding e_def using d one by (intro abs_nearest_le) auto
  have "0 \<le> nearest single (1 - \<bar>e\<bar>) \<and> nearest single (1 - \<bar>e\<bar>) \<le> 1"
    using e one by (intro nearest_between) auto
  moreover have "fp_sub double (Num f) (Num 1) = Num d"
    using assms unfolding d_def by (intro small_ops(2)) auto
  moreover have "fp_convert single (Num d) = Num e"
    using d unfolding e_def by (simp add: fp_round_small)
  moreover have "fp_sub single (Num 1) (Num \<bar>e\<bar>) = Num (nearest single (1 - \<bar>e\<bar>))"
    using e by (intro small_ops(2)) auto
  ultimately show ?thesis by simp
qed

lemma channel_defined:
  assumes "0 \<le> y + m" and "y + m \<le> 8388609 / 8388608"
  shows "\<exists>b. channel (Num y) (Num m) = Some b"
proof -
  have "pow2 (- 23) = 1 / 8388608" unfolding pow2_def by simp
  then have "of_int 8388609 * (2 powi - 23 :: rat) = of_int 8388609 * (1 / 8388608)" by (simp only: pow2_powi)
  also have "\<dots> = 8388609 / 8388608" by simp
  finally have e: "8388609 / 8388608 = of_int 8388609 * (2 powi - 23 :: rat)" by (rule sym)
  have "\<bar>8388609 :: int\<bar> < 2 ^ digits single" "lowest single - (int (digits single) - 1) \<le> - 23" by simp_all
  with e have E: "representable single (8388609 / 8388608)" unfolding representable_def by blast
  define z where "z = nearest single (y + m)"
  have z: "0 \<le> z" "z \<le> 8388609 / 8388608" "representable single z"
    unfolding z_def using nearest_between [OF assms E] assms(1)
    by (simp_all add: representable_nearest)
  have half: "representable double (511 / 2)" unfolding representable_def
    by (intro exI [of _ 511] exI [of _ "- 1"]) simp
  define t where "t = nearest double (z * 255)"
  have t: "0 \<le> t \<and> t \<le> 511 / 2" unfolding t_def using z(1,2) half by (intro nearest_between) auto
  have "fp_add single (Num y) (Num m) = Num z"
    using assms unfolding z_def by (intro small_ops(1)) auto
  moreover have "fp_convert double (Num z) = Num z"
    using z by (intro convert_representable representable_double) auto
  moreover have "fp_mult double (Num z) (Num 255) = Num t"
    using z(1,2) unfolding t_def by (intro small_ops(3)) auto
  moreover have "0 \<le> \<lfloor>t\<rfloor>" "\<lfloor>t\<rfloor> < 256" using t by (simp, linarith)
  ultimately show ?thesis using t by (auto simp: channel_def uint8_of_fp_def toward_zero_def)
qed

text \<open>What a color is computed from: the chroma \<open>c\<close>, the ramp \<open>x\<close> and the offset \<open>m\<close>, rounded.\<close>

fun sextant :: "u16 \<Rightarrow> fp \<Rightarrow> fp \<Rightarrow> fp \<times> fp \<times> fp" where
  "sextant h c x =
     (if h < 60 then (c, x, Num 0) else if h < 120 then (x, c, Num 0) else if h < 180 then (Num 0, c, x)
      else if h < 240 then (Num 0, x, c) else if h < 300 then (x, Num 0, c) else (c, Num 0, x))"

lemma one_representable: "representable single 1"
  using representable_int [of 1 single] by simp

lemma chroma:
  assumes "0 \<le> s" "0 \<le> v" "representable single s" "representable single v"
  defines "c \<equiv> nearest single (min 1 v * min 1 s)"
  shows "0 \<le> min 1 v" "min 1 v \<le> 1" "0 \<le> c" "c \<le> min 1 v" "representable single c"
    "fp_mult single (Num (min 1 v)) (Num (min 1 s)) = Num c"
    "fp_sub single (Num (min 1 v)) (Num c) = Num (nearest single (min 1 v - c))"
proof -
  let ?s = "min 1 s" and ?v = "min 1 v"
  have sv: "0 \<le> ?s" "?s \<le> 1" "0 \<le> ?v" "?v \<le> 1" "representable single ?v"
    using assms(1-4) one_representable by (auto simp: min_def)
  then show "0 \<le> ?v" "?v \<le> 1" by simp_all
  have vs: "?v * ?s \<le> ?v" by (rule mult_left_le) (rule sv)+
  then show c: "0 \<le> c" "c \<le> ?v" "representable single c"
    unfolding c_def using sv nearest_between [of "?v * ?s" ?v single] by (simp_all add: representable_nearest)
  show "fp_mult single (Num ?v) (Num ?s) = Num c"
    using vs sv unfolding c_def by (intro small_ops(3)) auto
  show "fp_sub single (Num ?v) (Num c) = Num (nearest single (?v - c))"
    using c sv by (intro small_ops(2)) auto
qed

lemma hue_position:
  fixes h :: u16
  assumes "h < 360"
  shows "\<exists>a. fp_convert double (fp_div single (fp_of_int single (uint h)) (Num 60)) = Num a \<and>
    0 \<le> a \<and> a \<le> 6 \<and> representable single a"
proof -
  have h: "0 \<le> uint h" "uint h < 360" using assms by (auto simp: word_less_def)
  define q where "q = (of_int (uint h) / 60 :: rat)"
  have "(of_int (uint h) :: rat) < of_int 360" "(of_int 0 :: rat) \<le> of_int (uint h)"
    using h by (simp_all only: of_int_less_iff of_int_le_iff)
  then have q: "0 \<le> q" "q \<le> 6" unfolding q_def by (simp_all only: of_int_0 of_int_numeral)
  define a where "a = nearest single q"
  have "representable single 6" using representable_int [of 6 single] by simp
  then have a: "0 \<le> a" "a \<le> 6" "representable single a"
    unfolding a_def using q nearest_between [OF q] by (simp_all add: representable_nearest)
  have "fp_of_int single (uint h) = Num (of_int (uint h))" using h by (intro fp_of_int_small) simp
  then have "fp_div single (fp_of_int single (uint h)) (Num 60) = Num a"
    using q small_ops(4) [of single "of_int (uint h)" 60] by (simp only: a_def q_def [symmetric]) simp
  moreover have "fp_convert double (Num a) = Num a"
    using a by (intro convert_representable representable_double) auto
  ultimately show ?thesis using a by simp
qed

lemma hsv_parts:
  assumes "0 \<le> s" "0 \<le> v" "representable single s" "representable single v"
  defines "c \<equiv> nearest single (min 1 v * min 1 s)"
  defines "m \<equiv> nearest single (min 1 v - c)"
  shows "\<exists>x. 0 \<le> x \<and> x \<le> c \<and>
    hsv_to_rgb h (Num s) (Num v) =
      (case sextant (if 359 < h then h mod 360 else h) (Num c) (Num x) of (r, g, b) \<Rightarrow>
         case (channel r (Num m), channel g (Num m), channel b (Num m)) of
           (Some r, Some g, Some b) \<Rightarrow> Some (r, g, b)
         | _ \<Rightarrow> None)"
proof -
  define h' where "h' = (if 359 < h then h mod 360 else h)"
  have "h' < 360" unfolding h'_def by (auto simp: word_less_nat_alt word_le_nat_alt unat_mod_distrib)
  then obtain a where a: "fp_convert double (fp_div single (fp_of_int single (uint h')) (Num 60)) = Num a"
    "0 \<le> a" "a \<le> 6" "representable single a" using hue_position by blast
  obtain f where f: "c_fmod (Num a) (Num 2) = Some (Num f)" "0 \<le> f" "f \<le> 2"
    using c_fmod_two [OF a(4,2)] a(3) by auto
  obtain g where g: "fp_sub single (Num 1) (c_abs (fp_convert single (fp_sub double (Num f) (Num 1)))) = Num g"
    "0 \<le> g" "g \<le> 1" using ramp [OF f(2,3)] by blast
  note c = chroma [OF assms(1-4), folded c_def m_def]
  define x where "x = nearest single (c * g)"
  have cg: "c * g \<le> c" using c(3) g(3) by (simp add: mult_left_le)
  then have x: "0 \<le> x" "x \<le> c"
    unfolding x_def using c(3,5) g nearest_between [of "c * g" c single] by simp_all
  have mult: "fp_mult single (Num c) (Num g) = Num x"
    using cg c(2-4) g unfolding x_def by (intro small_ops(3)) auto
  have cut: "(if fp_less (Num 1) (Num r) then Num 1 else Num r) = Num (min 1 r)" for r
    by (auto simp: min_def)
  have "hsv_to_rgb h (Num s) (Num v) =
      (case sextant h' (Num c) (Num x) of (r, g, b) \<Rightarrow>
         case (channel r (Num m), channel g (Num m), channel b (Num m)) of
           (Some r, Some g, Some b) \<Rightarrow> Some (r, g, b)
         | _ \<Rightarrow> None)"
    by (simp only: hsv_to_rgb_def Let_def option.case h'_def [symmetric] sextant.simps a f g mult cut c(6,7))
  with x show ?thesis unfolding h'_def by blast
qed

lemma channels_in_range:
  assumes "0 \<le> s" "0 \<le> v" "representable single s" "representable single v"
  defines "c \<equiv> nearest single (min 1 v * min 1 s)"
  assumes "0 \<le> y" "y \<le> c"
  shows "\<exists>b. channel (Num y) (Num (nearest single (min 1 v - c))) = Some b"
proof -
  note c = chroma [OF assms(1-4), folded c_def]
  then have d: "0 \<le> min 1 v - c" "min 1 v - c \<le> 1" by auto
  have "0 \<le> nearest single (min 1 v - c)" using nearest_between [OF d one_representable] by simp
  moreover have "nearest single (min 1 v - c) \<le> min 1 v - c + 2 powi - 24" using nearest_error [OF d, of single] by simp
  moreover have "pow2 (- 24) = 1 / 16777216" unfolding pow2_def by simp
  then have "(2 powi - 24 :: rat) = 1 / 16777216" by (simp only: pow2_powi)
  ultimately show ?thesis using assms(6,7) c(2) by (intro channel_defined) linarith+
qed

lemma sextant_channels:
  assumes "\<exists>b. channel c m = Some b" "\<exists>b. channel x m = Some b" "\<exists>b. channel (Num 0) m = Some b"
  shows "\<exists>r g b. (case sextant h c x of (r, g, b) \<Rightarrow>
      case (channel r m, channel g m, channel b m) of
        (Some r, Some g, Some b) \<Rightarrow> Some (r, g, b)
      | _ \<Rightarrow> None) = Some (r, g, b)"
  using assms by (auto split: if_splits)

text \<open>
  C31: The conversion of a color never overflows a channel: for every hue and all saturations
  and values that are not negative, also those above 1, which are cut, the rounding of the sums
  and products stays below 256, so that the three conversions to \<^verbatim>\<open>uint8_t\<close> are defined.
\<close>

theorem hsv_to_rgb_defined:
  assumes "0 \<le> s" "0 \<le> v" "representable single s" "representable single v"
  shows "\<exists>r g b. hsv_to_rgb h (Num s) (Num v) = Some (r, g, b)"
proof -
  let ?c = "nearest single (min 1 v * min 1 s)"
  obtain x where x: "0 \<le> x" "x \<le> ?c" and
    hsv: "hsv_to_rgb h (Num s) (Num v) =
      (case sextant (if 359 < h then h mod 360 else h) (Num ?c) (Num x) of (r, g, b) \<Rightarrow>
         case (channel r (Num (nearest single (min 1 v - ?c))), channel g (Num (nearest single (min 1 v - ?c))),
               channel b (Num (nearest single (min 1 v - ?c)))) of
           (Some r, Some g, Some b) \<Rightarrow> Some (r, g, b)
         | _ \<Rightarrow> None)"
    using hsv_parts [OF assms, of h] by blast
  note channel = channels_in_range [OF assms]
  show ?thesis unfolding hsv
    by (rule sextant_channels) (rule channel, use x in linarith, use x in linarith)+
qed

theorem hsv_to_rgb_defined_witness: "\<exists>r g b. hsv_to_rgb 400 (Num (1 / 2)) (Num 3) = Some (r, g, b)"
proof (rule hsv_to_rgb_defined)
  show "representable single (1 / 2)" unfolding representable_def
    by (intro exI [of _ 1] exI [of _ "- 1"]) simp
  show "representable single 3" using representable_int [of 3 single] by simp
qed simp_all

text \<open>
  A color with full saturation and value has one channel at 255 and one at 0; \<open>q\<close> is the channel
  between them.
\<close>

definition pure_color :: "u16 \<Rightarrow> u8 \<Rightarrow> u8 \<times> u8 \<times> u8" where
  "pure_color h q =
     (if h < 60 then (255, q, 0) else if h < 120 then (q, 255, 0) else if h < 180 then (0, 255, q)
      else if h < 240 then (0, q, 255) else if h < 300 then (q, 0, 255) else (255, 0, q))"

lemma pure_colors:
  assumes "h < 360"
  shows "\<exists>q. hsv_to_rgb h (Num 1) (Num 1) = Some (pure_color h q)"
proof -
  note one = one_representable
  have c: "nearest single (min 1 1 * min 1 1) = 1" using nearest_representable [OF one] by simp
  have m: "nearest single (min 1 1 - 1) = 0" by simp
  from hsv_parts [of 1 1 h, OF _ _ one one] obtain x where x: "0 \<le> x" "x \<le> 1" and
    hsv: "hsv_to_rgb h (Num 1) (Num 1) =
      (case sextant h (Num 1) (Num x) of (r, g, b) \<Rightarrow>
         case (channel r (Num 0), channel g (Num 0), channel b (Num 0)) of
           (Some r, Some g, Some b) \<Rightarrow> Some (r, g, b)
         | _ \<Rightarrow> None)"
    unfolding c m using assms by (auto simp: not_less word_less_nat_alt word_le_nat_alt split: if_splits)
  obtain q where q: "channel (Num x) (Num 0) = Some q" using channel_defined [of x 0] x by auto
  have "channel (Num 1) (Num 0) = Some 255" "channel (Num 0) (Num 0) = Some 0" by code_simp+
  with q hsv have "hsv_to_rgb h (Num 1) (Num 1) = Some (pure_color h q)" by (simp add: pure_color_def)
  then show ?thesis by blast
qed

text \<open>
  The splash screen ends and is defined: every row is drawn in one color, that of the hue of its
  number, counted modulo \<open>2 ^ 16\<close> and then modulo 360.
\<close>

definition row_color :: "u16 \<Rightarrow> u32" where
  "row_color hue =
     (case hsv_to_rgb (hue mod 360) (Num 1) (Num 1) of
        Some (r, g, b) \<Rightarrow> push_bit 16 (ucast r) OR push_bit 8 (ucast g) OR ucast b
      | None \<Rightarrow> 0)"

lemma upt_front: "[x..<x + Suc k] = x # [Suc x..<Suc x + k]"
  by (simp add: upt_conv_Cons del: upt_Suc)

lemma splash_row_draws:
  "splash_row x k y hue s = Some (fold (\<lambda>j. plot_pixel (of_nat j) y (row_color hue)) [x..<x + k] s)"
proof (induction k arbitrary: x s)
  case (Suc k)
  have "hue mod 360 < 360" by (simp add: word_less_nat_alt unat_mod_distrib)
  then obtain c where "hsv_to_rgb (hue mod 360) (Num 1) (Num 1) = Some c" using pure_colors by blast
  then show ?case unfolding upt_front by (cases c) (simp add: Suc row_color_def Let_def del: upt_Suc)
qed simp

lemma tty_width_plot: "tty_width (fold (\<lambda>j. plot_pixel (f j) y c) xs s) = tty_width s"
  by (induction xs arbitrary: s) (simp_all add: plot_pixel_def)

theorem launch_splashscreen_draws:
  "launch_splashscreen s =
     Some (fold (\<lambda>i. fold (\<lambda>j. plot_pixel (of_nat j) (of_nat i) (row_color (of_nat i))) [0..<unat (tty_width s)])
       [0..<unat (tty_height s)] s)"
proof -
  have "splash_rows y k (of_nat y) t =
      Some (fold (\<lambda>i. fold (\<lambda>j. plot_pixel (of_nat j) (of_nat i) (row_color (of_nat i))) [0..<unat (tty_width s)]) [y..<y + k] t)"
    if "tty_width t = tty_width s" for y k t
    using that
  proof (induction k arbitrary: y t)
    case (Suc k)
    let ?t = "fold (\<lambda>j. plot_pixel (of_nat j) (of_nat y) (row_color (of_nat y))) [0..<unat (tty_width s)] t"
    have "splash_rows (Suc y) k (of_nat (Suc y)) ?t =
        Some (fold (\<lambda>i. fold (\<lambda>j. plot_pixel (of_nat j) (of_nat i) (row_color (of_nat i))) [0..<unat (tty_width s)])
          [Suc y..<Suc y + k] ?t)"
      using Suc.prems by (intro Suc.IH) (simp add: tty_width_plot)
    then show ?case using Suc.prems unfolding upt_front
      by (simp add: splash_row_draws add.commute del: upt_Suc)
  qed simp
  from this [of s 0 "unat (tty_height s)"] show ?thesis by (simp add: launch_splashscreen_def)
qed

text \<open>Where \<^verbatim>\<open>floor\<close> and \<^verbatim>\<open>ceil\<close> are not what their names say.\<close>

lemma floor_of_large: "c_floor (Num 16777217) = Some (Num 16777216)"
  by code_simp

lemma ceil_floor_negative:
  "c_floor (Num (- (3 / 2))) = Some (Num (- 1))" "c_ceil (Num (- (3 / 2))) = Some (Num 0)"
  by code_simp+

end
