(* ===== verification/Kmalloc_Inv.thy ===== *)
theory Kmalloc_Inv
  imports Kmalloc
begin

text \<open>
  The invariant of the kernel heap: the descriptors tile the heap without gap or overlap.
  The tiling is a property of the multiset of the descriptors, so that sorting and packing
  them does not matter; splitting, changing the flags of, and merging descriptors keep it.
  The last part shows that the compression of the descriptors keeps the invariant and every
  allocated buffer.
\<close>

section \<open>Tilings\<close>

fun adjacent :: "nat \<Rightarrow> kheap_descriptor_t list \<Rightarrow> nat \<Rightarrow> bool" where
  "adjacent a [] h \<longleftrightarrow> a = h"
| "adjacent a (d # ds) h \<longleftrightarrow>
     unat (kd_base d) = a \<and> 0 < unat (kd_size d) \<and> adjacent (a + unat (kd_size d)) ds h"

definition tiling :: "kheap_descriptor_t multiset \<Rightarrow> nat \<Rightarrow> bool" where
  "tiling D h \<longleftrightarrow> (\<exists>ys. mset ys = D \<and> adjacent 0 ys h)"

abbreviation kd_end :: "kheap_descriptor_t \<Rightarrow> nat" where
  "kd_end d \<equiv> unat (kd_base d) + unat (kd_size d)"

lemma adjacent_append: "adjacent a (xs @ ys) h \<longleftrightarrow> (\<exists>b. adjacent a xs b \<and> adjacent b ys h)"
  by (induction xs arbitrary: a) auto

lemma adjacent_range:
  "adjacent a ds h \<Longrightarrow> a \<le> h \<and> (\<forall>d\<in>set ds. a \<le> unat (kd_base d) \<and> 0 < unat (kd_size d) \<and> kd_end d \<le> h)"
  by (induction ds arbitrary: a) fastforce+

lemma tiling_split_list:
  assumes "tiling (add_mset d D) h"
  obtains xs ys where "mset (xs @ ys) = D" "adjacent 0 xs (unat (kd_base d))" "0 < unat (kd_size d)"
    "adjacent (kd_end d) ys h"
proof -
  obtain zs where zs: "mset zs = add_mset d D" "adjacent 0 zs h" using assms by (auto simp: tiling_def)
  then have "d \<in> set zs" by (metis set_mset_mset union_single_eq_member)
  then obtain xs ys where "zs = xs @ d # ys" by (meson split_list)
  with zs show thesis by (intro that [of xs ys]) (auto simp: adjacent_append)
qed

lemma tiling_range:
  "tiling D h \<Longrightarrow> d \<in># D \<Longrightarrow> 0 < unat (kd_size d) \<and> kd_end d \<le> h"
  by (auto simp: tiling_def dest!: adjacent_range)

lemma tiling_disjoint:
  assumes "tiling (add_mset d D) h" and "e \<in># D"
  shows "kd_end e \<le> unat (kd_base d) \<or> kd_end d \<le> unat (kd_base e)"
proof -
  from assms(1) obtain xs ys where *: "mset (xs @ ys) = D" "adjacent 0 xs (unat (kd_base d))"
    "adjacent (kd_end d) ys h" by (rule tiling_split_list)
  then have "e \<in> set xs \<or> e \<in> set ys" using assms(2) by auto
  with * show ?thesis by (auto dest!: adjacent_range)
qed

lemma tiling_replace:
  assumes "tiling (add_mset d D) h" and "adjacent (unat (kd_base d)) zs (kd_end d)"
  shows "tiling (mset zs + D) h"
proof -
  from assms(1) obtain xs ys where *: "mset (xs @ ys) = D" "adjacent 0 xs (unat (kd_base d))"
    "adjacent (kd_end d) ys h" by (rule tiling_split_list)
  then have "adjacent 0 (xs @ zs @ ys) h" using assms(2) by (auto simp: adjacent_append)
  moreover have "mset (xs @ zs @ ys) = mset zs + D" using *(1) by auto
  ultimately show ?thesis unfolding tiling_def by blast
qed

lemma tiling_merge:
  assumes t: "tiling (add_mset d (add_mset e D)) h" and adj: "kd_end d = unat (kd_base e)"
    and m: "kd_base d' = kd_base d" "unat (kd_size d') = unat (kd_size d) + unat (kd_size e)"
  shows "tiling (add_mset d' D) h"
proof -
  from t obtain xs ys where *: "mset (xs @ ys) = add_mset e D" "adjacent 0 xs (unat (kd_base d))"
    "0 < unat (kd_size d)" "adjacent (kd_end d) ys h" by (rule tiling_split_list)
  have "e \<notin> set xs" using adjacent_range [OF *(2)] adj *(3) by force
  moreover have "e \<in> set (xs @ ys)" using *(1) by (metis set_mset_mset union_single_eq_member)
  ultimately obtain us vs where ys: "ys = us @ e # vs" by (auto dest: split_list)
  have "us = []"
  proof (rule ccontr)
    assume "us \<noteq> []"
    then obtain u us' where "us = u # us'" by (cases us) auto
    with *(4) adj show False
      unfolding ys by (auto simp: adjacent_append dest!: adjacent_range)
  qed
  moreover have "kd_end e = unat (kd_base d') + unat (kd_size d')" using m adj by simp
  ultimately have "adjacent (unat (kd_base d') + unat (kd_size d')) vs h"
    using *(4) ys by (simp add: adj)
  then have "adjacent 0 (xs @ d' # vs) h" using *(2,3) m adj
    by (auto simp: adjacent_append)
  moreover have "mset (xs @ d' # vs) = add_mset d' D" using *(1) ys \<open>us = []\<close> by simp
  ultimately show ?thesis unfolding tiling_def by blast
qed

section \<open>The invariant\<close>

definition live :: "'z kheap_state_scheme \<Rightarrow> kheap_descriptor_t multiset" where
  "live s = mset (take (unat (kheap_map_pool_ind s)) (kheap_map s))"

text \<open>The buffers that are allocated: offset in the heap and size.\<close>

definition buffers :: "'z kheap_state_scheme \<Rightarrow> (u64 \<times> u64) set" where
  "buffers s = {(kd_base d, kd_size d) | d. d \<in># live s \<and> \<not> KHEAP_DESCR_IS_FREE (kd_flags d)}"

definition map_ok :: "nat \<Rightarrow> 'z kheap_state_scheme \<Rightarrow> bool" where
  "map_ok n s \<longleftrightarrow> manual_pool (kheap_map_pool_id s) 128 (pools s) \<and> length (kheap_map s) = 128 \<and>
     1 \<le> n \<and> n \<le> 128 \<and> drop n (kheap_map s) = replicate (128 - n) zero_kdescr \<and>
     tiling (mset (take n (kheap_map s))) (unat (kheap_bytes s))"

definition heap_inv :: "'z kheap_state_scheme \<Rightarrow> bool" where
  "heap_inv s \<longleftrightarrow> map_ok (unat (kheap_map_pool_ind s)) s \<and> kheap_ready s \<and> kheap s \<noteq> null \<and>
     unat (kheap s) + unat (kheap_bytes s) < 18446744073709551616"

text \<open>What no operation on the descriptors touches.\<close>

definition same_heap :: "'z kheap_state_scheme \<Rightarrow> 'z kheap_state_scheme \<Rightarrow> bool" where
  "same_heap s t \<longleftrightarrow> kheap t = kheap s \<and> kheap_final_size t = kheap_final_size s \<and>
     kheap_ready t = kheap_ready s \<and> kheap_map_pool_id t = kheap_map_pool_id s \<and> vmem t = vmem s"

lemma same_heap_refl [simp]: "same_heap s s"
  and same_heap_trans: "same_heap s t \<Longrightarrow> same_heap t u \<Longrightarrow> same_heap s u"
  by (auto simp: same_heap_def)

lemma kheap_get_manual:
  "manual_pool (kheap_map_pool_id s) 128 (pools s) \<Longrightarrow> kheap_get i s =
    (if unat i < 128 then Some (True, Some (unat i), s) else Some (False, None, s))"
  by (simp add: kheap_get_def obj_pool_get_manual)

lemma kheap_put_manual:
  "manual_pool (kheap_map_pool_id s) 128 (pools s) \<Longrightarrow> length (kheap_map s) = 128 \<Longrightarrow> kheap_put d i s =
    (if unat i < 128 then Some (True, s\<lparr>kheap_map := (kheap_map s)[unat i := d]\<rparr>) else Some (False, s))"
  using obj_pool_put_manual [of "kheap_map_pool_id s" "kheap_map s" "pools s" zero_kdescr d i]
  by (simp add: kheap_put_def)

lemma kheap_pack_manual:
  assumes "manual_pool (kheap_map_pool_id s) 128 (pools s)" "length (kheap_map s) = 128"
  obtains t where "kheap_pack s = Some (True, s\<lparr>pools := t, kheap_map := compact zero_kdescr (kheap_map s)\<rparr>)"
    "manual_pool (kheap_map_pool_id s) 128 t"
proof -
  have "manual_pool (kheap_map_pool_id s) (length (kheap_map s)) (pools s)" "kheap_map s \<noteq> []"
    using assms by auto
  from obj_pool_pack_manual [OF this, of zero_kdescr] obtain t where
    "obj_pool_pack zero_kdescr (kheap_map_pool_id s) (pools s) (kheap_map s) =
      Some (True, t, compact zero_kdescr (kheap_map s))"
    "manual_pool (kheap_map_pool_id s) (length (kheap_map s)) t" .
  then show thesis using assms(2) by (intro that [of t]) (simp_all add: kheap_pack_def)
qed

lemma kheap_select_min:
  assumes "manual_pool (kheap_map_pool_id s) 128 (pools s)" "length (kheap_map s) = 128"
  shows "sel < 128 \<Longrightarrow> j + k \<le> 128 \<Longrightarrow>
    kheap_select sel j k s = Some (Some (select_min kd_base (\<lambda>_. True) (kheap_map s) sel j k), s)"
proof (induction k arbitrary: sel j)
  case (Suc k)
  then have "unat (of_nat j :: u32) = j" by simp
  with Suc assms show ?case by (simp add: kheap_get_manual obj_load_def)
qed simp

lemma select_min_less:
  "select_min key ok xs sel j k \<noteq> sel \<Longrightarrow> key (xs ! select_min key ok xs sel j k) < key (xs ! sel)"
proof (induction key ok xs sel j k rule: select_min.induct)
  case (2 key ok xs sel j k)
  let ?sel = "if key (xs ! j) < key (xs ! sel) \<and> ok (xs ! j) then j else sel"
  show ?case
  proof (cases "select_min key ok xs ?sel (Suc j) k = ?sel")
    case True
    with 2 show ?thesis by (auto split: if_splits)
  next
    case False
    with "2.IH" have "key (xs ! select_min key ok xs ?sel (Suc j) k) < key (xs ! ?sel)" by simp
    moreover have "key (xs ! ?sel) \<le> key (xs ! sel)" by auto
    ultimately show ?thesis by simp
  qed
qed simp


section \<open>Compression keeps the invariant\<close>

text \<open>
  Below index \<open>i\<close> the descriptors are sorted: the one before \<open>i\<close> starts no later than any
  of the following ones.
\<close>

definition sorted_at :: "nat \<Rightarrow> nat \<Rightarrow> kheap_descriptor_t list \<Rightarrow> bool" where
  "sorted_at i n xs \<longleftrightarrow> (0 < i \<longrightarrow> (\<forall>b. i \<le> b \<and> b < n \<longrightarrow> kd_base (xs ! (i - 1)) \<le> kd_base (xs ! b)))"

definition live_buffers :: "kheap_descriptor_t multiset \<Rightarrow> (u64 \<times> u64) set" where
  "live_buffers D = {(kd_base d, kd_size d) | d. d \<in># D \<and> \<not> KHEAP_DESCR_IS_FREE (kd_flags d)}"

lemma live_buffers_add:
  "live_buffers (add_mset d D) =
    (if KHEAP_DESCR_IS_FREE (kd_flags d) then live_buffers D else insert (kd_base d, kd_size d) (live_buffers D))"
  by (auto simp: live_buffers_def)

lemma mset_take_two:
  assumes "i < j" "j < n" "n \<le> length xs"
  obtains D where "mset (take n xs) = add_mset (xs ! i) (add_mset (xs ! j) D)"
    "D = mset (take i xs) + mset (take (j - Suc i) (drop (Suc i) xs)) + mset (take (n - Suc j) (drop (Suc j) xs))"
proof -
  have "take n xs = take i xs @ take (n - i) (drop i xs)"
    using assms by (metis le_add_diff_inverse less_imp_le less_trans take_add)
  moreover have "take (n - i) (drop i xs) = xs ! i # take (n - Suc i) (drop (Suc i) xs)"
    using assms by (metis Cons_nth_drop_Suc Suc_diff_Suc less_le_trans less_trans take_Suc_Cons)
  moreover have "take (n - Suc i) (drop (Suc i) xs) =
      take (j - Suc i) (drop (Suc i) xs) @ take (n - j) (drop j xs)"
    using assms take_add [of "j - Suc i" "n - j" "drop (Suc i) xs"] by simp
  moreover have "take (n - j) (drop j xs) = xs ! j # take (n - Suc j) (drop (Suc j) xs)"
    using assms by (metis Cons_nth_drop_Suc Suc_diff_Suc less_le_trans take_Suc_Cons)
  ultimately show thesis by (intro that) simp_all
qed

lemma mset_take_swap:
  assumes "i < n" "j < n" "n \<le> length xs"
  shows "mset (take n (xs[i := xs ! j, j := xs ! i])) = mset (take n xs)"
    "drop n (xs[i := xs ! j, j := xs ! i]) = drop n xs"
proof -
  have "take n (xs[i := xs ! j, j := xs ! i]) = (take n xs)[i := take n xs ! j, j := take n xs ! i]"
    using assms by (simp add: take_update_swap)
  then show "mset (take n (xs[i := xs ! j, j := xs ! i])) = mset (take n xs)"
    using assms by (simp only: list_update_swap_mset length_take min_absorb2)
  show "drop n (xs[i := xs ! j, j := xs ! i]) = drop n xs" using assms by simp
qed

lemma kd_end_word:
  "kd_end d \<le> h \<Longrightarrow> h < 18446744073709551616 \<Longrightarrow> unat (kd_base d + kd_size d) = kd_end d"
  by (simp add: unat_word_ariths(1))

lemma obj_delete_at:
  assumes "0 < i" "i < n" "n \<le> length xs"
  shows "do { xs \<leftarrow> obj_clear z i 1 xs; obj_move z i (i + 1) (n - 1 - i) xs } =
    Some (take i xs @ take (n - Suc i) (drop (Suc i) xs) @ z # drop n xs)"
proof -
  obtain ys where ys: "obj_clear z i 1 xs = Some ys" "length ys = length xs"
    "\<And>j. j < length xs \<Longrightarrow> ys ! j = (if i \<le> j \<and> j < i + 1 then z else xs ! j)"
    using obj_clear_nth [of i 1 xs z] assms by auto
  obtain zs where zs: "obj_move z i (i + 1) (n - 1 - i) ys = Some zs" "length zs = length xs"
    "\<And>j. j < length xs \<Longrightarrow> zs ! j = (if i \<le> j \<and> j < i + (n - 1 - i) then ys ! (i + 1 + (j - i))
       else if i + 1 \<le> j \<and> j < i + 1 + (n - 1 - i) then z else ys ! j)"
    using obj_move_down [of i "i + 1" "n - 1 - i" ys z] assms ys(2) by auto
  have "zs = take i xs @ take (n - Suc i) (drop (Suc i) xs) @ z # drop n xs"
  proof (rule nth_equalityI)
    show "length zs = length (take i xs @ take (n - Suc i) (drop (Suc i) xs) @ z # drop n xs)"
      using assms zs(2) by simp
    fix j assume "j < length zs"
    then have j: "j < length xs" by (simp add: zs(2))
    consider "j < i" | "i \<le> j" "j < n - 1" | "j = n - 1" | "n \<le> j" by linarith
    then show "zs ! j = (take i xs @ take (n - Suc i) (drop (Suc i) xs) @ z # drop n xs) ! j"
    proof cases
      case 1
      then show ?thesis using j assms by (simp add: zs(3) ys(3) nth_append)
    next
      case 2
      obtain k where k: "j = i + k" using le_Suc_ex [OF 2(1)] by blast
      with 2 have "k < n - Suc i" "i + k < n - Suc 0" by simp_all
      then show ?thesis using j assms by (simp add: zs(3) ys(3) nth_append k)
    next
      case 3
      then show ?thesis using j assms by (auto simp: zs(3) ys(3) nth_append)
    next
      case 4
      obtain k where k: "j = n + k" using le_Suc_ex [OF 4] by blast
      have "j - i = Suc (n - Suc i + k)" "\<not> n + k < n - Suc 0" "\<not> Suc (n + k - Suc i) < n - Suc i"
        using assms k by arith+
      then show ?thesis using j assms by (simp add: zs(3) ys(3) nth_append k)
    qed
  qed
  with ys(1) zs(1) show ?thesis by simp
qed


text \<open>One step of the outer loop.\<close>

lemma kheap_compress_step_ok:
  assumes ok: "map_ok n s" and i: "i < n - 1" and srt: "sorted_at i n (kheap_map s)"
  obtains merged s' where "kheap_compress_step i (n - 1) s = Some (Some merged, s')"
    "map_ok (if merged then n - 1 else n) s'"
    "sorted_at (if merged then i else Suc i) (if merged then n - 1 else n) (kheap_map s')"
    "live_buffers (mset (take (if merged then n - 1 else n) (kheap_map s'))) = live_buffers (mset (take n (kheap_map s)))"
    "s' = s\<lparr>kheap_map := kheap_map s'\<rparr>" "merged \<longrightarrow> i \<noteq> 0"
    "\<not> merged \<longrightarrow> mset (take n (kheap_map s')) = mset (take n (kheap_map s))"
proof -
  let ?xs = "kheap_map s"
  define m where "m = select_min kd_base (\<lambda>_. True) ?xs i (Suc i) (n - 1 - i)"
  have mp: "manual_pool (kheap_map_pool_id s) 128 (pools s)" and len: "length ?xs = 128"
    and n: "1 \<le> n" "n \<le> 128" and zs: "drop n ?xs = replicate (128 - n) zero_kdescr"
    and tl: "tiling (mset (take n ?xs)) (unat (kheap_bytes s))"
    using ok by (simp_all add: map_ok_def)
  have "m \<le> n - 1" unfolding m_def by (rule select_min_range) (use i in auto)
  then have m: "i \<le> m" "m < n" using i by (simp_all add: m_def select_min_ge)
  have mmin: "kd_base (?xs ! m) \<le> kd_base (?xs ! b)" if "i \<le> b" "b < n" for b
    using that select_min_le_sel [of kd_base ?xs "\<lambda>_. True" i "Suc i" "n - 1 - i"]
      select_min_le [of "Suc i" b "n - 1 - i" "\<lambda>_. True" ?xs kd_base i]
    by (cases "b = i") (auto simp: m_def)
  define ys where "ys = (if m \<noteq> i then ?xs[i := ?xs ! m, m := ?xs ! i] else ?xs)"
  let ?s = "s\<lparr>kheap_map := ys\<rparr>"
  let ?prev = "ys ! (i - 1)"
  have sel: "kheap_select i (Suc i) (n - Suc i) s = Some (Some m, s)"
    using kheap_select_min [OF mp len, of i "Suc i" "n - 1 - i"] i n by (simp add: m_def)
  have lb: "i < 128" "m < 128" "i < n" using i m n by auto
  have ys: "length ys = 128" "mset (take n ys) = mset (take n ?xs)" "drop n ys = drop n ?xs"
    using mset_take_swap [of i n m ?xs] m lb n len by (auto simp: ys_def)
  have ysn: "ys ! b = (if b = i then ?xs ! m else if b = m then ?xs ! i else ?xs ! b)" if "b < 128" for b
    using that len lb by (simp add: ys_def nth_list_update)
  have min': "kd_base (ys ! i) \<le> kd_base (ys ! b)" if "i \<le> b" "b < n" for b
    using that mmin [of b] mmin [of i] ysn [of b] ysn [of i] lb n by auto
  have step: "kheap_compress_step i (n - 1) s = (if i = 0 then Some (Some False, ?s) else
       if kd_base ?prev + kd_size ?prev = kd_base (ys ! m) \<and>
         KHEAP_DESCR_IS_FREE (kd_flags (ys ! m)) \<and> KHEAP_DESCR_IS_FREE (kd_flags ?prev)
       then do {
         xs \<leftarrow> do { xs \<leftarrow> obj_clear zero_kdescr i 1 (ys[i - 1 := ?prev\<lparr>kd_size := kd_size ?prev + kd_size (ys ! m)\<rparr>]);
           obj_move zero_kdescr i (i + 1) (n - 1 - i) xs };
         Some (Some True, ?s\<lparr>kheap_map := xs\<rparr>) }
       else Some (Some False, ?s))"
  proof -
    have u: "unat (of_nat i :: u32) = i" using lb by simp
    have get: "kheap_get (of_nat i) s = Some (True, Some i, s)"
      using lb by (simp only: kheap_get_manual [OF mp] u if_True)
    have load: "obj_load i ?xs = Some (?xs ! i)" "obj_load m ?xs = Some (?xs ! m)"
      "obj_load (i - 1) ys = Some ?prev" "obj_load m ys = Some (ys ! m)"
      using lb len ys(1) by (simp_all add: obj_load_def)
    have bd: "n - 1 - i = n - Suc i" by simp
    show ?thesis
      unfolding kheap_compress_step_def
      by (simp only: get bind.bind_lunit prod.case simp_thms if_False bd sel option.case load Let_def
          ys_def [symmetric] kheap_state.simps)
         (simp add: load [unfolded One_nat_def] Let_def bd)
  qed
  show thesis
  proof (cases "i \<noteq> 0 \<and> kd_base ?prev + kd_size ?prev = kd_base (ys ! m) \<and>
      KHEAP_DESCR_IS_FREE (kd_flags (ys ! m)) \<and> KHEAP_DESCR_IS_FREE (kd_flags ?prev)")
    case False
    then have "kheap_compress_step i (n - 1) s = Some (Some False, ?s)" using step by auto
    moreover have "map_ok n ?s" using ok ys by (simp add: map_ok_def kheap_bytes_def)
    ultimately show thesis using min' ys by (intro that [of False ?s]) (auto simp: sorted_at_def Suc_le_eq)
  next
    case True
    have i0: "i - 1 < i" "Suc (i - 1) = i" using True by auto
    have prev: "?prev = ?xs ! (i - 1)" using ysn [of "i - 1"] i0 m lb by auto
    have srt': "kd_base (?xs ! (i - 1)) \<le> kd_base (?xs ! b)" if "i \<le> b" "b < n" for b
      using srt that True by (auto simp: sorted_at_def)
    let ?h = "unat (kheap_bytes s)"
    have h: "?h < 18446744073709551616" by simp
    have prev_in: "?xs ! (i - 1) \<in># mset (take n ?xs)"
      using i0 lb len n nth_mem [of "i - 1" "take n ?xs"] by simp
    have eprev: "unat (kd_base ?prev + kd_size ?prev) = kd_end ?prev"
      using tiling_range [OF tl prev_in] h unfolding prev by (intro kd_end_word) auto
    have mi: "m = i"
    proof (rule ccontr)
      assume ne: "m \<noteq> i"
      have "i - 1 < m" "m < n" "n \<le> length ?xs" using i0 m n len by auto
      then obtain D where D: "mset (take n ?xs) = add_mset (?xs ! (i - 1)) (add_mset (?xs ! m) D)"
        by (rule mset_take_two)
      have "kd_end (?xs ! m) \<le> unat (kd_base (?xs ! (i - 1))) \<or> kd_end (?xs ! (i - 1)) \<le> unat (kd_base (?xs ! m))"
        by (rule tiling_disjoint [OF tl [unfolded D]]) simp
      moreover have "0 < unat (kd_size (?xs ! m))" using tiling_range [OF tl, of "?xs ! m"] D by simp
      moreover have "unat (kd_base (?xs ! (i - 1))) \<le> unat (kd_base (?xs ! m))"
        using srt' [OF m] by (simp add: word_le_nat_alt)
      ultimately have "kd_end (?xs ! (i - 1)) \<le> unat (kd_base (?xs ! m))" by linarith
      also have "\<dots> < unat (kd_base (?xs ! i))"
        using select_min_less [of kd_base "\<lambda>_. True" ?xs i "Suc i" "n - 1 - i"] ne
        by (simp add: m_def word_less_nat_alt)
      finally have "kd_end (?xs ! (i - 1)) < unat (kd_base (?xs ! i))" .
      moreover have "kd_end (?xs ! (i - 1)) = unat (kd_base (?xs ! i))"
        using True ysn [of m] ne lb eprev unfolding prev by auto
      ultimately show False by simp
    qed
    then have yx: "ys = ?xs" by (simp add: ys_def)
    let ?e = "?xs ! i"
    define d where "d = ?prev\<lparr>kd_size := kd_size ?prev + kd_size ?e\<rparr>"
    obtain D where D: "mset (take n ?xs) = add_mset ?prev (add_mset ?e D)"
      "D = mset (take (i - 1) ?xs) + mset (take (n - Suc i) (drop (Suc i) ?xs))"
      using mset_take_two [of "i - 1" i n ?xs] i0 lb n len by (auto simp: yx)
    have "kd_end ?e \<le> ?h" using tiling_range [OF tl, of ?e] D(1) by simp
    moreover have adj: "kd_end ?prev = unat (kd_base ?e)" using True eprev mi yx by simp
    ultimately have "unat (kd_size ?prev) + unat (kd_size ?e) < 18446744073709551616" using h by linarith
    from unat_add_64 [OF this]
    have t': "tiling (add_mset d D) ?h"
      by (intro tiling_merge [OF tl [unfolded D(1)] adj]) (simp_all add: d_def)
    define zs where "zs = take (i - 1) ?xs @ d # take (n - Suc i) (drop (Suc i) ?xs) @ zero_kdescr # drop n ?xs"
    have "take i (?xs[i - 1 := d]) = take (i - 1) ?xs @ [d]"
      using take_Suc_conv_app_nth [of "i - 1" "?xs[i - 1 := d]"] i0 lb len by simp
    then have del: "do { xs \<leftarrow> obj_clear zero_kdescr i 1 (?xs[i - 1 := d]); obj_move zero_kdescr i (i + 1) (n - 1 - i) xs } = Some zs"
      using obj_delete_at [of i n "?xs[i - 1 := d]" zero_kdescr] True lb n len by (simp add: zs_def)
    have zl: "length zs = 128" using i0 lb n len by (simp add: zs_def)
    have zsplit: "zs = (take (i - 1) ?xs @ d # take (n - Suc i) (drop (Suc i) ?xs)) @ zero_kdescr # drop n ?xs"
      by (simp add: zs_def)
    have zlen: "length (take (i - 1) ?xs @ d # take (n - Suc i) (drop (Suc i) ?xs)) = n - 1"
      using i0 lb n len by simp
    note zcut = iffD1 [OF append_eq_conv_conj zsplit [symmetric], unfolded zlen]
    have ztake: "take (n - 1) zs = take (i - 1) ?xs @ d # take (n - Suc i) (drop (Suc i) ?xs)"
      by (rule zcut [THEN conjunct1, symmetric])
    have "drop (n - 1) zs = zero_kdescr # drop n ?xs"
      by (rule zcut [THEN conjunct2, symmetric])
    also have "\<dots> = replicate (128 - (n - 1)) zero_kdescr"
      using n i zs by (simp add: Suc_diff_le flip: replicate_Suc)
    finally have zdrop: "drop (n - 1) zs = replicate (128 - (n - 1)) zero_kdescr" .
    have zmset: "mset (take (n - 1) zs) = add_mset d D" unfolding ztake D(2) by simp
    let ?t = "s\<lparr>kheap_map := zs\<rparr>"
    have "kheap_compress_step i (n - 1) s = Some (Some True, ?t)"
      using step True del mi yx by (simp add: d_def)
    moreover have "map_ok (n - 1) ?t"
      using mp n i zl zdrop t' zmset by (simp add: map_ok_def kheap_bytes_def)
    moreover have "sorted_at i (n - 1) zs"
      unfolding sorted_at_def
    proof (intro impI allI)
      fix b assume b: "i \<le> b \<and> b < n - 1"
      then obtain k where k: "b = i + k" using le_Suc_ex by blast
      have "zs ! (i - 1) = d" using i0 lb len by (simp add: zs_def nth_append)
      moreover have "zs ! b = ?xs ! Suc b"
        using b i0 lb len n k by (simp add: zs_def nth_append nth_Cons')
      moreover have "kd_base (?xs ! (i - 1)) \<le> kd_base (?xs ! Suc b)" using b by (intro srt') auto
      ultimately show "kd_base (zs ! (i - 1)) \<le> kd_base (zs ! b)"
        using prev by (simp add: d_def)
    qed
    moreover have "live_buffers (mset (take (n - 1) zs)) = live_buffers (mset (take n ?xs))"
      unfolding zmset D(1) using True mi yx by (simp add: live_buffers_add d_def)
    ultimately show thesis using True by (intro that [of True ?t]) simp_all
  qed
qed


text \<open>The whole compression, as far as its callers are concerned.\<close>

definition keeps_heap :: "'z kheap_state_scheme \<Rightarrow> 'z kheap_state_scheme \<Rightarrow> bool" where
  "keeps_heap s t \<longleftrightarrow> heap_inv t \<and> buffers t = buffers s \<and> same_heap s t"

lemma buffers_live: "buffers s = live_buffers (live s)"
  by (simp add: buffers_def live_buffers_def)

lemma kheap_bytes_same: "same_heap s t \<Longrightarrow> kheap_bytes t = kheap_bytes s"
  by (simp add: same_heap_def kheap_bytes_def)

lemma kheap_compress_from_ok:
  assumes "map_ok (Suc bound) s" and "unat (kheap_map_pool_ind s) = Suc bound"
    and "sorted_at i (Suc bound) (kheap_map s)"
  shows "\<exists>t. kheap_compress_from i bound s = Some t \<and> map_ok (unat (kheap_map_pool_ind t)) t \<and>
    live_buffers (live t) = live_buffers (live s) \<and> same_heap s t \<and> unat (kheap_map_pool_ind t) \<le> Suc bound"
  using assms
proof (induction i bound s rule: kheap_compress_from.induct)
  case (1 i bound s)
  show ?case
  proof (cases "i < bound")
    case False
    then show ?thesis using "1.prems"
      by (simp add: kheap_compress_from.simps [of i] map_ok_def kheap_bytes_def live_def same_heap_def)
  next
    case True
    have b: "Suc bound - 1 = bound" by simp
    obtain mg t where st: "kheap_compress_step i bound s = Some (Some mg, t)"
      and t: "map_ok (if mg then bound else Suc bound) t"
      "sorted_at (if mg then i else Suc i) (if mg then bound else Suc bound) (kheap_map t)"
      "live_buffers (mset (take (if mg then bound else Suc bound) (kheap_map t))) =
        live_buffers (mset (take (Suc bound) (kheap_map s)))"
      "t = s\<lparr>kheap_map := kheap_map t\<rparr>"
      by (rule kheap_compress_step_ok [OF "1.prems"(1) _ "1.prems"(3), unfolded b]) (use True in simp_all)
    have same: "same_heap s t" "kheap_map_pool_ind t = kheap_map_pool_ind s"
      using arg_cong [OF t(4), of kheap_map_pool_ind]
      by (subst t(4), simp add: same_heap_def) (subst t(4), simp)
    show ?thesis
    proof (cases mg)
      case False
      then have "\<exists>u. kheap_compress_from (Suc i) bound t = Some u \<and> map_ok (unat (kheap_map_pool_ind u)) u \<and>
          live_buffers (live u) = live_buffers (live t) \<and> same_heap t u \<and> unat (kheap_map_pool_ind u) \<le> Suc bound"
        using True st t same "1.prems" by (intro "1.IH"(2)) auto
      moreover have "live_buffers (live t) = live_buffers (live s)"
        using t(3) same(2) False "1.prems"(2) by (simp add: live_def)
      ultimately show ?thesis using True st False same(1) same_heap_trans
        by (fastforce simp: kheap_compress_from.simps [of i bound s])
    next
      case mgT: True
      let ?t = "t\<lparr>kheap_map_pool_ind := kheap_map_pool_ind t - 1\<rparr>"
      have nz: "kheap_map_pool_ind s \<noteq> 0" using "1.prems"(2) by auto
      have u: "unat (kheap_map_pool_ind ?t) = bound"
        using "1.prems"(2) same(2) nz by (simp add: unat_pred)
      have bS: "Suc (bound - 1) = bound" using True by simp
      have "map_ok bound ?t" using t(1) mgT by (simp add: map_ok_def kheap_bytes_def)
      then have "\<exists>v. kheap_compress_from i (bound - 1) ?t = Some v \<and> map_ok (unat (kheap_map_pool_ind v)) v \<and>
          live_buffers (live v) = live_buffers (live ?t) \<and> same_heap ?t v \<and> unat (kheap_map_pool_ind v) \<le> Suc (bound - 1)"
        using True st t(2) mgT u bS by (intro "1.IH"(1) [OF True st]) auto
      moreover have "live_buffers (live ?t) = live_buffers (live s)"
        using t(3) mgT u "1.prems"(2) by (simp add: live_def)
      moreover have "same_heap s ?t" using same(1) by (simp add: same_heap_def)
      ultimately show ?thesis using True st mgT same_heap_trans
        by (fastforce simp: kheap_compress_from.simps [of i bound s])
    qed
  qed
qed

lemma kheap_compress_map_ok:
  assumes "heap_inv s"
  shows "\<exists>t. kheap_compress_map s = Some t \<and> keeps_heap s t \<and>
    unat (kheap_map_pool_ind t) \<le> unat (kheap_map_pool_ind s)"
proof (cases "kheap_map_pool_ind s < 2")
  case True
  with assms show ?thesis by (simp add: kheap_compress_map_def keeps_heap_def)
next
  case False
  let ?b = "unat (kheap_map_pool_ind s - 1)"
  have "2 \<le> unat (kheap_map_pool_ind s)" using False by (simp add: word_less_nat_alt not_less)
  moreover from this have "kheap_map_pool_ind s \<noteq> 0" by auto
  ultimately have b: "unat (kheap_map_pool_ind s) = Suc ?b" by (simp add: unat_pred)
  from assms have inv: "map_ok (Suc ?b) s" "kheap_ready s" "kheap s \<noteq> null"
    "unat (kheap s) + unat (kheap_bytes s) < 18446744073709551616"
    unfolding heap_inv_def b by auto
  obtain t where t: "kheap_compress_from 0 ?b s = Some t" "map_ok (unat (kheap_map_pool_ind t)) t"
    "live_buffers (live t) = live_buffers (live s)" "same_heap s t" "unat (kheap_map_pool_ind t) \<le> Suc ?b"
    using kheap_compress_from_ok [OF inv(1) b, of 0] by (auto simp: sorted_at_def)
  then have "keeps_heap s t" using inv kheap_bytes_same [OF t(4)]
    by (simp add: keeps_heap_def heap_inv_def buffers_live same_heap_def)
  with t(1,5) False inv(2) b show ?thesis by (simp add: kheap_compress_map_def)
qed

lemma kheap_count_op_ok:
  assumes "heap_inv s"
  shows "\<exists>t. kheap_count_op s = Some t \<and> keeps_heap s t"
proof -
  let ?s = "s\<lparr>kheap_ops := kheap_ops s + 1\<rparr>"
  have "heap_inv ?s" "buffers ?s = buffers s" "same_heap s ?s"
    using assms by (simp_all add: heap_inv_def map_ok_def buffers_def live_def same_heap_def kheap_bytes_def)
  with kheap_compress_map_ok [of ?s] same_heap_trans show ?thesis
    by (fastforce simp: kheap_count_op_def keeps_heap_def Let_def)
qed

end
