(* ===== verification/Kmalloc_Props.thy ===== *)
theory Kmalloc_Props
  imports Kmalloc_Inv
begin

text \<open>
  What \<^verbatim>\<open>kmalloc\<close>, \<^verbatim>\<open>kfree\<close> and \<^verbatim>\<open>krealloc\<close> do to the set of allocated buffers, stated
  on \<open>buffers\<close>, and runs of the heap.
\<close>

section \<open>Taking a buffer from a free descriptor\<close>

lemma take_cut: "length xs = n \<Longrightarrow> take n (xs @ ys) = xs"
  and drop_cut: "length xs = n \<Longrightarrow> drop n (xs @ ys) = ys"
  by simp_all

lemma map_decompose:
  assumes "map_ok n s" and "e < n"
  obtains A B where "kheap_map s = A @ kheap_map s ! e # B @ replicate (128 - n) zero_kdescr"
    "length A = e" "length A + Suc (length B) = n"
    "mset (take n (kheap_map s)) = add_mset (kheap_map s ! e) (mset A + mset B)"
proof -
  let ?xs = "kheap_map s"
  let ?A = "take e ?xs" and ?B = "drop (Suc e) (take n ?xs)"
  have len: "length ?xs = 128" "n \<le> 128" and z: "drop n ?xs = replicate (128 - n) zero_kdescr"
    using assms(1) by (simp_all add: map_ok_def)
  have t: "take n ?xs = ?A @ ?xs ! e # ?B"
    using id_take_nth_drop [of e "take n ?xs"] assms(2) len by (simp add: min_def)
  have "?xs = ?A @ ?xs ! e # ?B @ replicate (128 - n) zero_kdescr"
    using append_take_drop_id [of n ?xs] unfolding z by (subst (asm) t) simp
  moreover have "mset (take n ?xs) = add_mset (?xs ! e) (mset ?A + mset ?B)" by (subst t) simp
  ultimately show thesis using assms(2) len by (intro that [of ?A ?B]) simp_all
qed

lemma tiling_nonzero: "tiling D h \<Longrightarrow> d \<in># D \<Longrightarrow> d \<noteq> zero_kdescr"
  using tiling_range by (fastforce simp: zero_kdescr_def)

lemma filter_live:
  "tiling (add_mset d (mset A + mset B)) h \<Longrightarrow>
    filter (\<lambda>x. x \<noteq> zero_kdescr) A = A \<and> filter (\<lambda>x. x \<noteq> zero_kdescr) B = B"
  by (auto simp: filter_id_conv dest: tiling_nonzero)

lemma compact_after_take:
  assumes "filter (\<lambda>x. x \<noteq> z) A = A" "filter (\<lambda>x. x \<noteq> z) B = B" "d \<noteq> z"
  shows "compact z (A @ z # B @ d # replicate k z) = (A @ B @ [d]) @ replicate (Suc k) z"
proof -
  have "filter (\<lambda>x. x \<noteq> z) (A @ z # B @ d # replicate k z) = A @ B @ [d]"
    using assms by simp
  then show ?thesis by (simp add: compact_def)
qed

lemma kmalloc_take_ok:
  assumes inv: "heap_inv s" and e: "e < unat (kheap_map_pool_ind s)" "unat (kheap_map_pool_ind s) < 128"
    and fr: "KHEAP_DESCR_IS_FREE (kd_flags (kheap_map s ! e))"
    and sz: "0 < unat sz" "unat sz \<le> unat (kd_size (kheap_map s ! e))"
  shows "\<exists>t. kmalloc_take e sz s = Some (kheap s + kd_base (kheap_map s ! e), t) \<and> heap_inv t \<and>
    same_heap s t \<and> buffers t = insert (kd_base (kheap_map s ! e), sz) (buffers s)"
proof -
  let ?n = "unat (kheap_map_pool_ind s)" and ?d = "kheap_map s ! e"
  let ?new = "kheap_init_descriptor (kd_base ?d) sz KHEAP_DESCR_FLAG_NULL"
  let ?rest = "?d\<lparr>kd_size := kd_size ?d - sz, kd_base := kd_base ?d + sz\<rparr>"
  have ok: "map_ok ?n s" using inv by (simp add: heap_inv_def)
  then have mp: "manual_pool (kheap_map_pool_id s) 128 (pools s)" and len: "length (kheap_map s) = 128"
    by (simp_all add: map_ok_def)
  obtain A B where xs: "kheap_map s = A @ ?d # B @ replicate (128 - ?n) zero_kdescr"
    and lA: "length A = e" "length A + Suc (length B) = ?n"
    and D: "mset (take ?n (kheap_map s)) = add_mset ?d (mset A + mset B)"
    by (rule map_decompose [OF ok e(1)])
  have tl: "tiling (add_mset ?d (mset A + mset B)) (unat (kheap_bytes s))"
    using ok D by (simp add: map_ok_def)
  obtain k where k: "128 - ?n = Suc k" "127 - ?n = k" using e(2) by (intro that [of "127 - ?n"]) linarith+
  define xs1 where "xs1 = A @ ?d # B @ ?new # replicate k zero_kdescr"
  have "kheap_map s = (A @ ?d # B) @ zero_kdescr # replicate k zero_kdescr"
    using xs unfolding k(1) by simp
  moreover have "length (A @ ?d # B) = ?n" using lA by simp
  ultimately have put: "(kheap_map s)[?n := ?new] = xs1"
    unfolding xs1_def by (metis append.assoc append_Cons list_update_length)
  have n1: "unat (kheap_map_pool_ind s + 1) = Suc ?n" using e(2) by (simp add: unat_word_ariths(1))
  have lxs: "Suc (Suc (length A + length B + k)) = 128" using lA(2) k e(2) by linarith
  have ld: "xs1 ! e = ?d" "length xs1 = 128" "xs1[e := x] = A @ x # B @ ?new # replicate k zero_kdescr" for x
    using lA(1) lxs by (simp_all add: xs1_def nth_append list_update_append)
  have e128: "e < 128" using e by simp
  have D': "live s = add_mset ?d (mset A + mset B)" using D by (simp add: live_def)
  have new: "kd_base ?new = kd_base ?d" "kd_size ?new = sz" "\<not> KHEAP_DESCR_IS_FREE (kd_flags ?new)"
    by (simp_all add: kheap_init_descriptor_def c_macros)
  have bs: "insert (kd_base ?d, sz) (buffers s) = live_buffers (add_mset ?new (mset A + mset B))"
    unfolding buffers_live D' using fr new by (simp add: live_buffers_add)
  let ?s1 = "s\<lparr>kheap_map := xs1, kheap_map_pool_ind := kheap_map_pool_ind s + 1\<rparr>"
  have lo: "obj_load e (kheap_map s) = Some ?d" "obj_load e xs1 = Some ?d"
    using e128 len ld by (simp_all add: obj_load_def)
  define P where "P = (if kd_size ?d - sz = 0
      then do { (ok, s) \<leftarrow> kheap_pack (?s1\<lparr>kheap_map := xs1[e := zero_kdescr]\<rparr>);
             Some (ok, if ok then s\<lparr>kheap_map_pool_ind := kheap_map_pool_ind s - 1\<rparr> else s) }
      else Some (True, ?s1\<lparr>kheap_map := xs1[e := ?rest]\<rparr>))"
  have step: "kmalloc_take e sz s = do { (ok, s) \<leftarrow> P; if \<not> ok then Some (null, s)
       else do { s \<leftarrow> kheap_count_op s; Some (kheap s + kd_base ?new, s) } }"
    unfolding kmalloc_take_def P_def
    by (simp add: lo kheap_put_manual [OF mp len] put e(2) Let_def)
  have fin: "\<exists>u. kmalloc_take e sz s = Some (kheap s + kd_base ?d, u) \<and> heap_inv u \<and>
      same_heap s u \<and> buffers u = insert (kd_base ?d, sz) (buffers s)"
    if t: "P = Some (True, t)" "heap_inv t" "same_heap s t" "live_buffers (live t) = live_buffers (add_mset ?new (mset A + mset B))" for t
  proof -
    obtain u where u: "kheap_count_op t = Some u" "keeps_heap t u"
      using kheap_count_op_ok [OF t(2)] by blast
    then have "same_heap s u" using same_heap_trans [OF t(3)] by (simp add: keeps_heap_def)
    then show ?thesis
      using step t u bs new(1) by (simp add: keeps_heap_def buffers_live) (simp add: same_heap_def)
  qed
  show ?thesis
  proof (cases "kd_size ?d - sz = 0")
    case True
    then have szd: "kd_size ?d = sz" by simp
    have nz: "?new \<noteq> zero_kdescr" using sz(1) by (auto simp: kheap_init_descriptor_def zero_kdescr_def)
    let ?ys = "xs1[e := zero_kdescr]"
    let ?zs = "(A @ B @ [?new]) @ replicate (Suc k) zero_kdescr"
    obtain t where pk: "kheap_pack (?s1\<lparr>kheap_map := ?ys\<rparr>) =
        Some (True, ?s1\<lparr>kheap_map := ?ys, pools := t, kheap_map := compact zero_kdescr ?ys\<rparr>)"
      "manual_pool (kheap_map_pool_id s) 128 t"
      using kheap_pack_manual [of "?s1\<lparr>kheap_map := ?ys\<rparr>"] mp ld(2) by auto
    have cz: "compact zero_kdescr ?ys = ?zs"
      unfolding ld(3) using compact_after_take [of zero_kdescr A B ?new k] filter_live [OF tl] nz by simp
    let ?t = "s\<lparr>kheap_map := ?zs, pools := t\<rparr>"
    have lAB: "length (A @ B @ [?new]) = ?n" using lA(2) by simp
    have take: "take ?n ?zs = A @ B @ [?new]" "drop ?n ?zs = replicate (Suc k) zero_kdescr"
      by (rule take_cut [OF lAB] drop_cut [OF lAB])+
    have "tiling (mset [?new] + (mset A + mset B)) (unat (kheap_bytes s))"
      by (rule tiling_replace [OF tl]) (use szd sz(1) new in simp)
    then have ti: "tiling (mset (take ?n ?zs)) (unat (kheap_bytes s))" by (simp only: take) simp
    have lz: "length ?zs = 128" using lxs by simp
    have "heap_inv ?t"
      using inv pk(2) take(2) ti lz e(2) k(1) by (simp add: heap_inv_def map_ok_def kheap_bytes_def del: replicate_Suc)
    moreover have "live_buffers (live ?t) = live_buffers (add_mset ?new (mset A + mset B))"
    proof -
      have "take (unat (kheap_map_pool_ind ?t)) (kheap_map ?t) = take ?n ?zs" by simp
      then show ?thesis unfolding live_def take(1) by simp
    qed
    moreover have "P = Some (True, ?t)"
      unfolding P_def using True pk(1) by (simp add: cz)
    ultimately show ?thesis by (intro fin [of ?t]) (simp_all add: same_heap_def)
  next
    case False
    let ?zs = "A @ ?rest # B @ ?new # replicate k zero_kdescr"
    let ?t = "?s1\<lparr>kheap_map := ?zs\<rparr>"
    have lt: "unat sz < unat (kd_size ?d)"
      using sz(2) False by (metis diff_self le_neq_implies_less word_unat_eq_iff)
    then have rs: "unat (kd_size ?d - sz) = unat (kd_size ?d) - unat sz"
      by (simp add: unat_sub word_le_nat_alt)
    have "kd_end ?d \<le> unat (kheap_bytes s)" using tiling_range [OF tl, of ?d] by simp
    then have "unat (kd_base ?d) + unat sz < 18446744073709551616"
      using lt unat_less_64 [of "kheap_bytes s"] by linarith
    then have rb: "unat (kd_base ?d + sz) = unat (kd_base ?d) + unat sz"
      by (rule unat_add_64)
    have lAB: "length (A @ ?rest # B @ [?new]) = Suc ?n" using lA(2) by simp
    have zs: "?zs = (A @ ?rest # B @ [?new]) @ replicate k zero_kdescr" by simp
    have take: "take (Suc ?n) ?zs = A @ ?rest # B @ [?new]" "drop (Suc ?n) ?zs = replicate k zero_kdescr"
      unfolding zs by (rule take_cut [OF lAB] drop_cut [OF lAB])+
    have "tiling (mset [?new, ?rest] + (mset A + mset B)) (unat (kheap_bytes s))"
      by (rule tiling_replace [OF tl]) (use sz lt new rs rb in simp)
    then have ti: "tiling (mset (take (Suc ?n) ?zs)) (unat (kheap_bytes s))"
      unfolding take by (simp add: add_mset_commute)
    have lz: "length ?zs = 128" using lxs by simp
    have km: "128 - Suc ?n = k" using k(1) by simp
    have "map_ok (Suc ?n) ?t"
      unfolding map_ok_def using mp take(2) ti lz e(2) km by (simp add: kheap_bytes_def)
    then have "heap_inv ?t"
      using inv n1 by (simp add: heap_inv_def kheap_bytes_def)
    moreover have "live_buffers (live ?t) = live_buffers (add_mset ?new (mset A + mset B))"
    proof -
      have "take (unat (kheap_map_pool_ind ?t)) (kheap_map ?t) = take (Suc ?n) ?zs" using n1 by simp
      then show ?thesis unfolding live_def take(1) using fr by (simp add: live_buffers_add)
    qed
    moreover have "P = Some (True, ?t)"
      unfolding P_def using False ld(3) by simp
    ultimately show ?thesis by (intro fin [of ?t]) (simp_all add: same_heap_def)
  qed
qed


section \<open>Searching the descriptors\<close>

definition suitable :: "u64 \<Rightarrow> kheap_descriptor_t \<Rightarrow> bool" where
  "suitable sz d \<longleftrightarrow> KHEAP_DESCR_IS_FREE (kd_flags d) \<and> sz \<le> kd_size d"

text \<open>The ranges \<open>[a, a + m)\<close> and \<open>[b, b + n)\<close> of the heap have no byte in common.\<close>

definition apart :: "u64 \<times> u64 \<Rightarrow> u64 \<times> u64 \<Rightarrow> bool" where
  "apart x y \<longleftrightarrow> unat (fst x) + unat (snd x) \<le> unat (fst y) \<or> unat (fst y) + unat (snd y) \<le> unat (fst x)"

lemma map_okD:
  assumes "heap_inv s"
  shows "manual_pool (kheap_map_pool_id s) 128 (pools s)" "length (kheap_map s) = 128"
    "1 \<le> unat (kheap_map_pool_ind s)" "unat (kheap_map_pool_ind s) \<le> 128"
    "tiling (live s) (unat (kheap_bytes s))"
  using assms by (simp_all add: heap_inv_def map_ok_def live_def)

lemma live_iff:
  assumes "heap_inv s"
  shows "d \<in># live s \<longleftrightarrow> (\<exists>i<unat (kheap_map_pool_ind s). d = kheap_map s ! i)"
  using map_okD [OF assms] by (auto simp: live_def in_set_conv_nth)

lemma live_nth: "heap_inv s \<Longrightarrow> i < unat (kheap_map_pool_ind s) \<Longrightarrow> kheap_map s ! i \<in># live s"
  by (auto simp: live_iff)

lemma kmalloc_scan_cases:
  assumes "manual_pool (kheap_map_pool_id s) 128 (pools s)" "length (kheap_map s) = 128"
  shows "i + k \<le> 128 \<Longrightarrow>
    (if \<exists>e. i \<le> e \<and> e < i + k \<and> suitable sz (kheap_map s ! e)
     then \<exists>e. i \<le> e \<and> e < i + k \<and> suitable sz (kheap_map s ! e) \<and>
       kmalloc_scan i k sz s = do { (ptr, s) \<leftarrow> kmalloc_take e sz s; Some (Some ptr, s) }
     else kmalloc_scan i k sz s = Some (None, s))"
proof (induction k arbitrary: i)
  case (Suc k)
  have get: "kheap_get (of_nat i) s = Some (True, Some i, s)" "obj_load i (kheap_map s) = Some (kheap_map s ! i)"
    using Suc.prems assms by (simp_all add: kheap_get_manual obj_load_def)
  show ?case
  proof (cases "suitable sz (kheap_map s ! i)")
    case True
    then have "kmalloc_scan i (Suc k) sz s = do { (ptr, s) \<leftarrow> kmalloc_take i sz s; Some (Some ptr, s) }"
      by (auto simp: get suitable_def simp flip: not_less)
    with True show ?thesis by (auto intro!: exI [of _ i])
  next
    case False
    then have st: "kmalloc_scan i (Suc k) sz s = kmalloc_scan (Suc i) k sz s"
      by (auto simp: get suitable_def)
    have ex: "(\<exists>e. i \<le> e \<and> e < i + Suc k \<and> suitable sz (kheap_map s ! e)) \<longleftrightarrow>
        (\<exists>e. Suc i \<le> e \<and> e < Suc i + k \<and> suitable sz (kheap_map s ! e))"
      using False by (metis Suc_leD Suc_le_eq add_Suc add_Suc_right le_neq_implies_less)
    have "Suc i + k \<le> 128" using Suc.prems by simp
    from Suc.IH [OF this] show ?thesis unfolding st ex
      by (auto split: if_splits dest: Suc_leD)
  qed
qed auto

text \<open>What a scan of the whole map does.\<close>

definition allocated :: "u64 \<Rightarrow> u64 \<Rightarrow> 'z kheap_state_scheme \<Rightarrow> 'z kheap_state_scheme \<Rightarrow> bool" where
  "allocated b sz s t \<longleftrightarrow> heap_inv t \<and> same_heap s t \<and> buffers t = insert (b, sz) (buffers s) \<and>
     unat b + unat sz \<le> unat (kheap_bytes s) \<and> (\<forall>x\<in>buffers s. apart (b, sz) x)"

lemma kmalloc_scan_whole:
  assumes inv: "heap_inv s" and sz: "0 < sz" and room: "kheap_map_pool_ind s \<noteq> 128"
  shows "(kmalloc_scan 0 (unat (kheap_map_pool_ind s)) sz s = Some (None, s) \<and> (\<forall>d\<in>#live s. \<not> suitable sz d)) \<or>
    (\<exists>b t. kmalloc_scan 0 (unat (kheap_map_pool_ind s)) sz s = Some (Some (kheap s + b), t) \<and> allocated b sz s t)"
proof -
  let ?n = "unat (kheap_map_pool_ind s)"
  note ok = map_okD [OF inv]
  have n: "?n < 128" proof -
    have "?n \<noteq> unat (128 :: u32)" using room unfolding word_unat_eq_iff .
    then show ?thesis using ok(4) by simp
  qed
  show ?thesis
  proof (cases "\<exists>e. 0 \<le> e \<and> e < 0 + ?n \<and> suitable sz (kheap_map s ! e)")
    case False
    with kmalloc_scan_cases [OF ok(1,2), of 0 ?n sz] ok(4) show ?thesis
      by (auto simp: live_iff [OF inv])
  next
    case True
    with kmalloc_scan_cases [OF ok(1,2), of 0 ?n sz] ok(4) obtain e where
      e: "e < ?n" "suitable sz (kheap_map s ! e)" and
      sc: "kmalloc_scan 0 ?n sz s = do { (ptr, s) \<leftarrow> kmalloc_take e sz s; Some (Some ptr, s) }" by auto
    let ?d = "kheap_map s ! e"
    have fr: "KHEAP_DESCR_IS_FREE (kd_flags ?d)" and le: "unat sz \<le> unat (kd_size ?d)"
      using e(2) by (simp_all add: suitable_def word_le_nat_alt)
    obtain t where t: "kmalloc_take e sz s = Some (kheap s + kd_base ?d, t)" "heap_inv t" "same_heap s t"
      "buffers t = insert (kd_base ?d, sz) (buffers s)"
      using kmalloc_take_ok [OF inv e(1) n fr] sz le by (auto simp: word_less_nat_alt)
    have d: "?d \<in># live s" using e(1) by (auto simp: live_iff [OF inv])
    have "kd_end ?d \<le> unat (kheap_bytes s)" using tiling_range [OF ok(5) d] by simp
    then have "unat (kd_base ?d) + unat sz \<le> unat (kheap_bytes s)" using le by simp
    moreover have "apart (kd_base ?d, sz) x" if x: "x \<in> buffers s" for x
    proof -
      obtain c where c: "x = (kd_base c, kd_size c)" "c \<in># live s" "\<not> KHEAP_DESCR_IS_FREE (kd_flags c)"
        using x by (auto simp: buffers_def)
      then have "c \<noteq> ?d" using fr by auto
      then have "c \<in># live s - {#?d#}" using c(2) by (simp add: in_diff_count)
      moreover have "tiling (add_mset ?d (live s - {#?d#})) (unat (kheap_bytes s))" using ok(5) d by simp
      ultimately show ?thesis using tiling_disjoint [of ?d _ _ c] le c(1) by (fastforce simp: apart_def)
    qed
    ultimately show ?thesis using sc t by (auto simp: allocated_def)
  qed
qed


section \<open>Allocation\<close>

lemma kmalloc_result:
  assumes inv: "heap_inv s" and sz: "0 < sz" "sz < kheap_bytes s" and room: "kheap_map_pool_ind s \<noteq> 128"
  shows "\<exists>p t. kmalloc sz s = Some (p, t) \<and> heap_inv t \<and> same_heap s t \<and>
    (if p = null
     then buffers t = buffers s \<and> (\<forall>d\<in>#live s. \<not> suitable sz d) \<and> (\<forall>d\<in>#live t. \<not> suitable sz d)
     else (\<exists>b. p = kheap s + b \<and> unat b + unat sz \<le> unat (kheap_bytes s) \<and>
       buffers t = insert (b, sz) (buffers s) \<and> (\<forall>x\<in>buffers s. apart (b, sz) x)))"
proof -
  let ?n = "unat (kheap_map_pool_ind s)"
  have guards: "kmalloc sz s = do {
        (r, s) \<leftarrow> kmalloc_scan 0 ?n sz s;
        case r of Some ptr \<Rightarrow> Some (ptr, s)
        | None \<Rightarrow> do {
            s \<leftarrow> kheap_compress_map s;
            (r, s) \<leftarrow> kmalloc_scan 0 (unat (kheap_map_pool_ind s)) sz s;
            case r of Some ptr \<Rightarrow> Some (ptr, s) | None \<Rightarrow> Some (null, s) } }"
    using inv sz room by (auto simp: kmalloc_def heap_inv_def c_macros not_le)
  have nn: "kheap s + b \<noteq> null" if "unat b + unat sz \<le> unat (kheap_bytes s)" for b
  proof -
    have "unat (kheap s) + unat b < 18446744073709551616" "unat (kheap s) \<noteq> 0"
      using inv that by (simp_all add: heap_inv_def unat_eq_zero)
    then have "unat (kheap s + b) \<noteq> 0" by (simp add: unat_add_64)
    then show ?thesis by auto
  qed
  have ret: ?thesis if "kmalloc sz s = Some (kheap s + b, t)" "allocated b sz s t" for b t
    using that nn [of b] by (fastforce simp: allocated_def)
  from kmalloc_scan_whole [OF inv sz(1) room] show ?thesis
  proof (elim disjE exE conjE)
    fix b t assume "kmalloc_scan 0 ?n sz s = Some (Some (kheap s + b), t)" "allocated b sz s t"
    then show ?thesis by (intro ret [of b t]) (simp_all add: guards)
  next
    assume none: "kmalloc_scan 0 ?n sz s = Some (None, s)" "\<forall>d\<in>#live s. \<not> suitable sz d"
    obtain u where u: "kheap_compress_map s = Some u" "keeps_heap s u"
      "unat (kheap_map_pool_ind u) \<le> ?n" using kheap_compress_map_ok [OF inv] by blast
    have room': "kheap_map_pool_ind u \<noteq> 128"
    proof
      assume "kheap_map_pool_ind u = 128"
      then have "128 \<le> ?n" using u(3) by simp
      moreover have "?n \<noteq> unat (128 :: u32)" using room unfolding word_unat_eq_iff .
      ultimately show False using map_okD(4) [OF inv] by simp
    qed
    have inv': "heap_inv u" and b: "buffers u = buffers s" and sh: "same_heap s u"
      using u(2) by (simp_all add: keeps_heap_def)
    have eqs: "kheap u = kheap s" "kheap_bytes u = kheap_bytes s"
      using sh by (simp_all add: same_heap_def kheap_bytes_def)
    from kmalloc_scan_whole [OF inv' sz(1) room'] show ?thesis
    proof (elim disjE exE conjE)
      fix c t assume *: "kmalloc_scan 0 (unat (kheap_map_pool_ind u)) sz u = Some (Some (kheap u + c), t)"
        "allocated c sz u t"
      then have "allocated c sz s t"
        using b eqs same_heap_trans [OF sh] by (simp add: allocated_def)
      then show ?thesis by (intro ret [of c t]) (simp_all add: guards none u(1) * eqs)
    next
      assume *: "kmalloc_scan 0 (unat (kheap_map_pool_ind u)) sz u = Some (None, u)"
        "\<forall>d\<in>#live u. \<not> suitable sz d"
      then have "kmalloc sz s = Some (null, u)" by (simp add: guards none u(1))
      then show ?thesis using none(2) * inv' b sh by auto
    qed
  qed
qed

lemma kmalloc_total:
  assumes inv: "heap_inv s"
  shows "\<exists>p t. kmalloc sz s = Some (p, t) \<and> heap_inv t \<and> same_heap s t \<and>
    (if p = null then buffers t = buffers s
     else (\<exists>b. p = kheap s + b \<and> buffers t = insert (b, sz) (buffers s)))"
proof (cases "sz = 0 \<or> kheap_bytes s \<le> sz \<or> kheap_map_pool_ind s = 128")
  case True
  with inv show ?thesis by (auto simp: kmalloc_def c_macros)
next
  case False
  then have "0 < sz" "sz < kheap_bytes s" "kheap_map_pool_ind s \<noteq> 128" by (auto simp: word_gt_0)
  from kmalloc_result [OF inv this] show ?thesis by (auto split: if_splits)
qed

section \<open>Release\<close>

definition contains :: "u64 \<Rightarrow> u64 \<times> u64 \<Rightarrow> u64 \<Rightarrow> bool" where
  "contains base x p \<longleftrightarrow> base + fst x \<le> p \<and> p < base + fst x + snd x"

lemma outside_entry_iff: "outside_entry p d s \<longleftrightarrow> \<not> contains (kheap s) (kd_base d, kd_size d) p"
  by (auto simp: outside_entry_def contains_def)

lemma heap_address:
  assumes "heap_inv s" and "d \<in># live s"
  shows "unat (kheap s + kd_base d) = unat (kheap s) + unat (kd_base d)"
    "unat (kheap s + kd_base d + kd_size d) = unat (kheap s) + kd_end d"
proof -
  have "kd_end d \<le> unat (kheap_bytes s)" "unat (kheap s) + unat (kheap_bytes s) < 18446744073709551616"
    using tiling_range [OF map_okD(5) [OF assms(1)] assms(2)] assms(1) by (simp_all add: heap_inv_def)
  then show "unat (kheap s + kd_base d) = unat (kheap s) + unat (kd_base d)"
    and "unat (kheap s + kd_base d + kd_size d) = unat (kheap s) + kd_end d"
    by (simp_all add: unat_add_64)
qed

lemma contains_unat:
  assumes "heap_inv s" and "d \<in># live s"
  shows "contains (kheap s) (kd_base d, kd_size d) p \<longleftrightarrow>
    unat (kheap s) + unat (kd_base d) \<le> unat p \<and> unat p < unat (kheap s) + kd_end d"
  using heap_address [OF assms] by (simp add: contains_def word_le_nat_alt word_less_nat_alt)

text \<open>What remains allocated when the block that contains \<open>p\<close> is released.\<close>

definition without :: "u64 \<Rightarrow> 'z kheap_state_scheme \<Rightarrow> (u64 \<times> u64) set" where
  "without p s = {x \<in> buffers s. \<not> contains (kheap s) x p}"

definition released :: "u64 \<Rightarrow> 'z kheap_state_scheme \<Rightarrow> 'z kheap_state_scheme \<Rightarrow> bool" where
  "released p s t \<longleftrightarrow> heap_inv t \<and> same_heap s t \<and> buffers t = without p s"

lemma without_all: "\<forall>d\<in>#live s. outside_entry p d s \<Longrightarrow> without p s = buffers s"
  by (auto simp: without_def buffers_def outside_entry_iff)

lemma set_free_ok:
  assumes inv: "heap_inv s" and i: "i < unat (kheap_map_pool_ind s)"
    and c: "\<not> outside_entry p (kheap_map s ! i) s"
  defines "d \<equiv> (kheap_map s ! i)\<lparr>kd_flags := kd_flags (kheap_map s ! i) OR KHEAP_DESCR_FLAGS_FREE\<rparr>"
  shows "released p s (s\<lparr>kheap_map := (kheap_map s)[i := d]\<rparr>)"
proof -
  let ?n = "unat (kheap_map_pool_ind s)" and ?d = "kheap_map s ! i"
  let ?t = "s\<lparr>kheap_map := (kheap_map s)[i := d]\<rparr>"
  note ok = map_okD [OF inv]
  have mok: "map_ok ?n s" using inv by (simp add: heap_inv_def)
  obtain A B where xs: "kheap_map s = A @ ?d # B @ replicate (128 - ?n) zero_kdescr"
    and lA: "length A = i" "length A + Suc (length B) = ?n"
    and D: "mset (take ?n (kheap_map s)) = add_mset ?d (mset A + mset B)"
    by (rule map_decompose [OF mok i])
  have xs': "(kheap_map s)[i := d] = (A @ d # B) @ replicate (128 - ?n) zero_kdescr"
    by (subst xs) (simp add: list_update_append lA(1) [symmetric])
  have lAB: "length (A @ d # B) = ?n" using lA by simp
  have live_t: "live ?t = add_mset d (mset A + mset B)"
  proof -
    have "live ?t = mset (take ?n ((A @ d # B) @ replicate (128 - ?n) zero_kdescr))"
      unfolding live_def by (simp add: xs')
    then show ?thesis unfolding take_cut [OF lAB] by simp
  qed
  have live_s: "live s = add_mset ?d (mset A + mset B)" using D by (simp add: live_def)
  have d: "kd_base d = kd_base ?d" "kd_size d = kd_size ?d" by (simp_all add: d_def)
  have fr: "KHEAP_DESCR_IS_FREE (kd_flags d)"
    by (simp add: d_def c_macros bit.conj_disj_distrib2 or_eq_0_iff)
  have tl: "tiling (add_mset ?d (mset A + mset B)) (unat (kheap_bytes s))"
    using ok(5) live_s by simp
  have "tiling (mset [d] + (mset A + mset B)) (unat (kheap_bytes s))"
    by (rule tiling_replace [OF tl]) (use tiling_range [OF tl, of ?d] d in simp)
  then have "tiling (live ?t) (unat (kheap_bytes ?t))" by (simp add: live_t kheap_bytes_def)
  moreover have "drop ?n (kheap_map ?t) = replicate (128 - ?n) zero_kdescr"
  proof -
    have "kheap_map ?t = (A @ d # B) @ replicate (128 - ?n) zero_kdescr" by (simp add: xs')
    then show ?thesis by (simp only: drop_cut [OF lAB])
  qed
  ultimately have inv': "heap_inv ?t"
    using inv ok by (simp add: heap_inv_def map_ok_def live_def kheap_bytes_def)
  have c': "contains (kheap s) (kd_base ?d, kd_size ?d) p" using c by (simp add: outside_entry_iff)
  have other: "\<not> contains (kheap s) (kd_base c, kd_size c) p" if cAB: "c \<in># mset A + mset B" for c
    using tiling_disjoint [OF tl cAB] c' cAB contains_unat [OF inv, of ?d p] contains_unat [OF inv, of c p]
    unfolding live_s by auto
  have "buffers ?t = live_buffers (mset A + mset B)"
    unfolding buffers_live live_t by (simp add: live_buffers_add fr)
  also have "\<dots> = without p s"
  proof (intro set_eqI iffI)
    fix x assume "x \<in> live_buffers (mset A + mset B)"
    then obtain c where "x = (kd_base c, kd_size c)" "c \<in># mset A + mset B" "\<not> KHEAP_DESCR_IS_FREE (kd_flags c)"
      by (auto simp: live_buffers_def)
    with other show "x \<in> without p s" by (auto simp: without_def buffers_def live_s)
  next
    fix x assume "x \<in> without p s"
    then obtain c where "x = (kd_base c, kd_size c)" "c \<in># live s" "\<not> KHEAP_DESCR_IS_FREE (kd_flags c)"
      "\<not> contains (kheap s) x p" by (auto simp: without_def buffers_def)
    with c' show "x \<in> live_buffers (mset A + mset B)" by (auto simp: live_buffers_def live_s)
  qed
  finally show ?thesis using inv' by (simp add: released_def same_heap_def)
qed


lemma kfree_scan_ok:
  assumes inv: "heap_inv s"
  shows "i + k = unat (kheap_map_pool_ind s) \<Longrightarrow>
    (\<forall>j<i. outside_entry p (kheap_map s ! j) s) \<Longrightarrow>
    \<exists>t. kfree_scan i k p s = Some t \<and> released p s t"
proof (induction k arbitrary: i)
  case 0
  then have "without p s = buffers s" by (intro without_all) (auto simp: live_iff [OF inv])
  with inv show ?case by (simp add: released_def)
next
  case (Suc k)
  note ok = map_okD [OF inv]
  have get: "kheap_get (of_nat i) s = Some (True, Some i, s)" "obj_load i (kheap_map s) = Some (kheap_map s ! i)"
    using Suc.prems ok by (simp_all add: kheap_get_manual obj_load_def)
  show ?case
  proof (cases "outside_entry p (kheap_map s ! i) s")
    case True
    with Suc.prems have "\<exists>t. kfree_scan (Suc i) k p s = Some t \<and> released p s t"
      by (intro Suc.IH) (auto simp: less_Suc_eq)
    with True show ?thesis by (simp add: get)
  next
    case False
    have "i < unat (kheap_map_pool_ind s)" using Suc.prems by simp
    from set_free_ok [OF inv this False] obtain t where
      t: "t = s\<lparr>kheap_map := (kheap_map s)[i := (kheap_map s ! i)\<lparr>kd_flags := kd_flags (kheap_map s ! i) OR KHEAP_DESCR_FLAGS_FREE\<rparr>]\<rparr>"
      "released p s t" by blast
    then obtain u where u: "kheap_count_op t = Some u" "keeps_heap t u"
      using kheap_count_op_ok [of t] by (auto simp: released_def)
    have "kfree_scan i (Suc k) p s = Some u" using False u(1) by (simp add: get t(1))
    moreover have "released p s u"
      using t(2) u(2) same_heap_trans [of s t u] by (simp add: released_def keeps_heap_def)
    ultimately show ?thesis by blast
  qed
qed

lemma kfree_ok:
  assumes "heap_inv s"
  shows "\<exists>t. kfree p s = Some t \<and> released p s t"
proof (cases "p < kheap s \<or> kheap s + kheap_bytes s \<le> p")
  case True
  have bd: "unat (kheap s + kheap_bytes s) = unat (kheap s) + unat (kheap_bytes s)"
    using assms by (simp add: heap_inv_def unat_add_64)
  have "\<not> contains (kheap s) (kd_base d, kd_size d) p" if "d \<in># live s" for d
    using True tiling_range [OF map_okD(5) [OF assms] that] bd
    by (auto simp: contains_unat [OF assms that] word_less_nat_alt word_le_nat_alt)
  then have "without p s = buffers s" by (intro without_all) (simp add: outside_entry_iff)
  with True assms show ?thesis by (auto simp: kfree_def released_def)
next
  case False
  then have "kfree p s = kfree_scan 0 (unat (kheap_map_pool_ind s)) p s"
    using assms by (auto simp: kfree_def heap_inv_def)
  with kfree_scan_ok [OF assms, of 0 _ p] show ?thesis by simp
qed

section \<open>Reallocation\<close>

lemma write_bytes_apply:
  fixes p x :: u64 and m :: memory
  assumes "length bs \<le> 18446744073709551616"
  shows "write_bytes p bs m x = (if in_region x p (length bs) then bs ! unat (x - p) else m x)"
proof -
  have "for_loop k (\<lambda>k m. m(p + of_nat k := bs ! k)) m x = (if unat (x - p) < k then bs ! unat (x - p) else m x)"
    if "k \<le> length bs" for k
    using that
  proof (induction k)
    case (Suc k)
    then show ?case using offset_eq_iff [of k x p] assms by (auto simp: less_Suc_eq)
  qed simp
  then show ?thesis by (simp add: write_bytes_def in_region_def)
qed

lemma heap_inv_vmem [simp]: "heap_inv (s\<lparr>vmem := m\<rparr>) = heap_inv s"
  and buffers_vmem [simp]: "buffers (s\<lparr>vmem := m\<rparr>) = buffers s"
  and live_vmem [simp]: "live (s\<lparr>vmem := m\<rparr>) = live s"
  by (simp_all add: heap_inv_def map_ok_def buffers_def live_def kheap_bytes_def)

text \<open>A descriptor that contains an address of an allocated buffer is the buffer's own.\<close>

lemma containing_entry:
  assumes inv: "heap_inv s" and x: "(b, z) \<in> buffers s" "contains (kheap s) (b, z) p"
    and d: "d \<in># live s" "contains (kheap s) (kd_base d, kd_size d) p"
  shows "kd_base d = b \<and> kd_size d = z"
proof (rule ccontr)
  assume ne: "\<not> ?thesis"
  obtain c where c: "b = kd_base c" "z = kd_size c" "c \<in># live s" using x(1) by (auto simp: buffers_def)
  then have "d \<noteq> c" using ne by auto
  then have "d \<in># live s - {#c#}" using d(1) by (simp add: in_diff_count)
  moreover have "tiling (add_mset c (live s - {#c#})) (unat (kheap_bytes s))"
    using map_okD(5) [OF inv] c(3) by simp
  ultimately have "kd_end d \<le> unat (kd_base c) \<or> kd_end c \<le> unat (kd_base d)"
    by (intro tiling_disjoint) auto
  then show False
    using x(2) d(2) unfolding c(1,2) contains_unat [OF inv c(3)] contains_unat [OF inv d(1)] by auto
qed

lemma without_buffer:
  assumes inv: "heap_inv s" and x: "(b, z) \<in> buffers s" "contains (kheap s) (b, z) p"
  shows "without p s = buffers s - {(b, z)}"
proof -
  have "contains (kheap s) y p \<longleftrightarrow> y = (b, z)" if y: "y \<in> buffers s" for y
  proof
    obtain d where "y = (kd_base d, kd_size d)" "d \<in># live s" using y by (auto simp: buffers_def)
    moreover assume "contains (kheap s) y p"
    ultimately show "y = (b, z)" using containing_entry [OF inv x, of d] by simp
  qed (use x in simp)
  then show ?thesis unfolding without_def by blast
qed

lemma krealloc_scan_ok:
  assumes inv: "heap_inv s" and x: "(b, z) \<in> buffers s" "contains (kheap s) (b, z) p"
  shows "i + k = unat (kheap_map_pool_ind s) \<Longrightarrow>
    (\<forall>j<i. outside_entry p (kheap_map s ! j) s) \<Longrightarrow>
    krealloc_scan i k p n s = do {
      let old_data = read_bytes (vmem s) (kheap s + b) (unat z);
      let s = s\<lparr>vmem := memclear (kheap s + b) z (vmem s)\<rparr>;
      s \<leftarrow> kfree p s;
      (new_buffer, s) \<leftarrow> kmalloc n s;
      if new_buffer = null then Some (null, s)
      else Some (new_buffer, s\<lparr>vmem := write_bytes new_buffer old_data (vmem s)\<rparr>) }"
proof (induction k arbitrary: i)
  case 0
  obtain c where c: "b = kd_base c" "z = kd_size c" "c \<in># live s" using x(1) by (auto simp: buffers_def)
  then obtain j where "j < i" "c = kheap_map s ! j" using 0 by (auto simp: live_iff [OF inv])
  with 0 c x(2) show ?case by (auto simp: outside_entry_iff)
next
  case (Suc k)
  note ok = map_okD [OF inv]
  have get: "kheap_get (of_nat i) s = Some (True, Some i, s)" "obj_load i (kheap_map s) = Some (kheap_map s ! i)"
    using Suc.prems ok by (simp_all add: kheap_get_manual obj_load_def)
  show ?case
  proof (cases "outside_entry p (kheap_map s ! i) s")
    case True
    with Suc.IH [of "Suc i"] Suc.prems show ?thesis by (simp add: get less_Suc_eq all_conj_distrib)
  next
    case False
    have "kheap_map s ! i \<in># live s" using Suc.prems by (intro live_nth [OF inv]) simp
    with False have "kd_base (kheap_map s ! i) = b \<and> kd_size (kheap_map s ! i) = z"
      by (intro containing_entry [OF inv x]) (simp_all add: outside_entry_iff)
    with False show ?thesis by (simp add: get Let_def)
  qed
qed

lemma krealloc_result:
  assumes inv: "heap_inv s" and x: "(b, z) \<in> buffers s" "contains (kheap s) (b, z) base"
    and n: "n < kheap_bytes s"
  shows "\<exists>p t. krealloc base n s = Some (p, t) \<and> heap_inv t \<and> same_heap s (t\<lparr>vmem := vmem s\<rparr>) \<and>
    (if p = null
     then buffers t = buffers s - {(b, z)} \<and>
       vmem t = (\<lambda>x. if in_region x (kheap s + b) (unat z) then 0 else vmem s x)
     else (\<exists>b'. p = kheap s + b' \<and> buffers t = insert (b', n) (buffers s - {(b, z)})) \<and>
       vmem t = (\<lambda>x. if in_region x p (unat z) then vmem s (kheap s + b + (x - p))
         else if in_region x (kheap s + b) (unat z) then 0 else vmem s x))"
proof -
  let ?m = "memclear (kheap s + b) z (vmem s)"
  let ?old = "read_bytes (vmem s) (kheap s + b) (unat z)"
  let ?s = "s\<lparr>vmem := ?m\<rparr>"
  have bd: "unat (kheap s + kheap_bytes s) = unat (kheap s) + unat (kheap_bytes s)"
    using inv by (simp add: heap_inv_def unat_add_64)
  obtain c where c: "b = kd_base c" "z = kd_size c" "c \<in># live s" using x(1) by (auto simp: buffers_def)
  have "\<not> (base < kheap s \<or> kheap s + kheap_bytes s \<le> base)"
    using x(2) tiling_range [OF map_okD(5) [OF inv] c(3)]
    unfolding c(1,2) contains_unat [OF inv c(3)] word_less_nat_alt word_le_nat_alt bd by auto
  then have "krealloc base n s = krealloc_scan 0 (unat (kheap_map_pool_ind s)) base n s"
    using inv n by (auto simp: krealloc_def heap_inv_def not_le)
  also have "\<dots> = do {
      s \<leftarrow> kfree base ?s;
      (p, s) \<leftarrow> kmalloc n s;
      if p = null then Some (null, s) else Some (p, s\<lparr>vmem := write_bytes p ?old (vmem s)\<rparr>) }"
    by (subst krealloc_scan_ok [OF inv x]) simp_all
  finally have run: "krealloc base n s = \<dots>" .
  obtain t where t: "kfree base ?s = Some t" "released base ?s t"
    using kfree_ok [of ?s base] inv by auto
  have wb: "buffers t = buffers s - {(b, z)}" "heap_inv t" "kheap t = kheap s" "vmem t = ?m"
    using t(2) without_buffer [of ?s b z base] inv x by (simp_all add: released_def same_heap_def)
  obtain p u where u: "kmalloc n t = Some (p, u)" "heap_inv u" "same_heap t u"
    "if p = null then buffers u = buffers t else (\<exists>b. p = kheap t + b \<and> buffers u = insert (b, n) (buffers t))"
    using kmalloc_total [OF wb(2), of n] by auto
  have sh: "same_heap s (u\<lparr>vmem := vmem s\<rparr>)"
    using t(2) u(3) by (simp add: released_def same_heap_def)
  have vu: "vmem u = ?m" using u(3) wb(4) by (simp add: same_heap_def)
  have m: "?m = (\<lambda>x. if in_region x (kheap s + b) (unat z) then 0 else vmem s x)"
    by (simp add: fun_eq_iff memclear_apply)
  have w: "write_bytes p ?old ?m = (\<lambda>x. if in_region x p (unat z) then vmem s (kheap s + b + (x - p))
         else if in_region x (kheap s + b) (unat z) then 0 else vmem s x)"
    by (auto simp: fun_eq_iff write_bytes_apply read_bytes_def m in_region_def)
  show ?thesis
  proof (cases "p = null")
    case True
    with run t(1) u wb vu m sh show ?thesis by auto
  next
    case False
    let ?u = "u\<lparr>vmem := write_bytes p ?old (vmem u)\<rparr>"
    have "krealloc base n s = Some (p, ?u)" using run t(1) u(1) False by simp
    moreover have "vmem ?u = (\<lambda>x. if in_region x p (unat z) then vmem s (kheap s + b + (x - p))
         else if in_region x (kheap s + b) (unat z) then 0 else vmem s x)" using vu w by simp
    moreover have "\<exists>b'. p = kheap s + b' \<and> buffers ?u = insert (b', n) (buffers s - {(b, z)})"
      using u(4) False wb by auto
    moreover have "heap_inv ?u" using u(2) by simp
    moreover have "same_heap s (?u\<lparr>vmem := vmem s\<rparr>)" using sh by simp
    ultimately show ?thesis using False by (intro exI [of _ p] exI [of _ ?u]) (simp only: if_False simp_thms)
  qed
qed

section \<open>Concrete heaps\<close>

text \<open>A heap of 64 pages at \<^verbatim>\<open>0x100000\<close> with the given descriptors.\<close>

definition demo_heap :: "kheap_descriptor_t list \<Rightarrow> kheap_state" where
  "demo_heap ds =
    \<lparr>falloc = \<lparr>frame_bitmap = \<lambda>_. 0, pool_top = 0, pool_status = empty, frame_pool = [], last_index = 0,
        last_free_frame = 0, frame_alloc_ready = True, memory_length = 0\<rparr>,
     pmem = \<lambda>_. 0, cr3 = 0, tlb_flushes = [],
     pools = \<lparr>obj_pools = [\<lparr>pool_base = 0, obj_size = 32, pool_size = 128, pool_id = 0, top_index = 0,
        bottom_index = 0, pool_type = manual\<rparr>], obj_pools_index = 1\<rparr>,
     mmap = [], mmap_size = 0, mmap_last_ind = 0, mmap_pool_id = 0, mman_ready = True,
     kheap = 0x100000, kheap_final_size = 64, kheap_ready = True, kheap_map_pool_id = 0,
     kheap_map_pool_ind = of_nat (length ds), kheap_ops = 0,
     kheap_map = ds @ replicate (128 - length ds) zero_kdescr,
     vmem = \<lambda>a. ucast a\<rparr>"

lemma demo_heap_inv:
  assumes "adjacent 0 ds 262144" and "0 < length ds" "length ds \<le> 128"
  shows "heap_inv (demo_heap ds)"
proof -
  have "tiling (mset ds) 262144" unfolding tiling_def using assms(1) by blast
  moreover have "unat (of_nat (length ds) :: u32) = length ds" using assms by simp
  ultimately show ?thesis using assms
    by (simp add: heap_inv_def map_ok_def manual_pool_def demo_heap_def kheap_bytes_def Suc_le_eq)
qed

lemma live_demo: "length ds \<le> 128 \<Longrightarrow> live (demo_heap ds) = mset ds"
  by (simp add: live_def demo_heap_def)

definition demo3 :: kheap_state where
  "demo3 = demo_heap [\<lparr>kd_base = 0, kd_size = 100, kd_flags = 0\<rparr>, \<lparr>kd_base = 100, kd_size = 50, kd_flags = 1\<rparr>,
     \<lparr>kd_base = 150, kd_size = 261994, kd_flags = 1\<rparr>]"

definition demo2 :: kheap_state where
  "demo2 = demo_heap [\<lparr>kd_base = 0, kd_size = 131072, kd_flags = 1\<rparr>, \<lparr>kd_base = 131072, kd_size = 131072, kd_flags = 1\<rparr>]"

lemma demo_invs: "heap_inv demo3" "heap_inv demo2"
  unfolding demo3_def demo2_def by (rule demo_heap_inv; simp)+

lemma demo3_facts: "kheap demo3 = 0x100000" "kheap_bytes demo3 = 262144" "kheap_map_pool_ind demo3 = 3"
  "buffers demo3 = {(0, 100)}"
proof -
  have "live demo3 = {#\<lparr>kd_base = 0, kd_size = 100, kd_flags = 0\<rparr>, \<lparr>kd_base = 100, kd_size = 50, kd_flags = 1\<rparr>,
     \<lparr>kd_base = 150, kd_size = 261994, kd_flags = 1\<rparr>#}" by (simp add: demo3_def live_demo)
  then show "buffers demo3 = {(0, 100)}"
    by (simp add: buffers_live live_buffers_add c_macros) (simp add: live_buffers_def)
qed (simp_all add: demo3_def demo_heap_def kheap_bytes_def)

section \<open>The properties\<close>

text \<open>
  C1: On a well-formed heap whose descriptor pool is not full, \<^verbatim>\<open>kmalloc\<close> of a non-zero size
  below the size of the heap either returns the address of a buffer that lies inside the
  heap, has no byte in common with any buffer allocated so far and becomes an allocated
  buffer, all others staying allocated; or it returns null, no buffer changes, and no
  free descriptor is large enough, neither before nor after the descriptors were sorted
  and merged.  The heap stays well-formed.
\<close>

theorem kmalloc_allocates:
  assumes inv: "heap_inv s" and sz: "0 < sz" "sz < kheap_bytes s" and room: "kheap_map_pool_ind s \<noteq> 128"
  shows "\<exists>p t. kmalloc sz s = Some (p, t) \<and> heap_inv t \<and> same_heap s t \<and>
    (if p = null
     then buffers t = buffers s \<and> (\<forall>d\<in>#live s. \<not> suitable sz d) \<and> (\<forall>d\<in>#live t. \<not> suitable sz d)
     else (\<exists>b. p = kheap s + b \<and> unat b + unat sz \<le> unat (kheap_bytes s) \<and>
       buffers t = insert (b, sz) (buffers s) \<and> (\<forall>x\<in>buffers s. apart (b, sz) x)))"
  by (rule kmalloc_result [OF assms])

theorem kmalloc_allocates_witness:
  "\<exists>p t. kmalloc 50 demo3 = Some (p, t) \<and> (p \<noteq> null \<longrightarrow> (\<exists>b. buffers t = {(b, 50), (0, 100)}))"
proof -
  have "(0 :: u64) < 50" "(50 :: u64) < kheap_bytes demo3" "kheap_map_pool_ind demo3 \<noteq> 128"
    by (simp_all add: demo3_facts)
  from kmalloc_allocates [OF demo_invs(1) this] show ?thesis
    by (auto simp: demo3_facts split: if_splits)
qed

text \<open>
  C2: On a well-formed heap \<^verbatim>\<open>kfree\<close> of any address releases exactly the allocated buffer
  that contains it, if there is one, whether or not the address is the start of the
  buffer; every other buffer stays allocated and the heap stays well-formed.
\<close>

theorem kfree_releases:
  assumes "heap_inv s"
  shows "\<exists>t. kfree p s = Some t \<and> heap_inv t \<and> same_heap s t \<and>
    buffers t = {x \<in> buffers s. \<not> contains (kheap s) x p}"
  using kfree_ok [OF assms, of p] by (simp add: released_def without_def)

theorem kfree_releases_witness: "\<exists>t. kfree 0x100063 demo3 = Some t \<and> buffers t = {}"
  using kfree_releases [OF demo_invs(1), of "0x100063"] by (auto simp: demo3_facts contains_def)

text \<open>
  C15: \<^verbatim>\<open>krealloc\<close> of an allocated buffer with a new size below the size of the heap, in a
  well-formed heap: the buffer is released whatever happens.  When a new buffer is found
  it is allocated and holds all bytes of the old buffer, also those beyond the new size
  when the buffer shrinks, which then lie in memory that is not part of the new buffer.
  When none is found the result is null and the bytes of the old buffer are lost: they
  are zero.
\<close>

theorem krealloc_moves:
  assumes inv: "heap_inv s" and x: "(b, z) \<in> buffers s" "contains (kheap s) (b, z) base"
    and n: "n < kheap_bytes s"
  shows "\<exists>p t. krealloc base n s = Some (p, t) \<and> heap_inv t \<and>
    (if p = null
     then buffers t = buffers s - {(b, z)} \<and>
       vmem t = (\<lambda>x. if in_region x (kheap s + b) (unat z) then 0 else vmem s x)
     else (\<exists>b'. p = kheap s + b' \<and> buffers t = insert (b', n) (buffers s - {(b, z)})) \<and>
       vmem t = (\<lambda>x. if in_region x p (unat z) then vmem s (kheap s + b + (x - p))
         else if in_region x (kheap s + b) (unat z) then 0 else vmem s x))"
  using krealloc_result [OF assms] by blast

theorem krealloc_moves_witness:
  "\<exists>p t. krealloc 0x100000 10 demo3 = Some (p, t) \<and> (p \<noteq> null \<longrightarrow> vmem t (p + 99) = vmem demo3 0x100063)"
proof -
  have "(0, 100) \<in> buffers demo3" "contains (kheap demo3) (0, 100) 0x100000" "10 < kheap_bytes demo3"
    by (simp_all add: demo3_facts contains_def)
  from krealloc_moves [OF demo_invs(1) this] show ?thesis
    by (auto simp: demo3_facts in_region_def split: if_splits)
qed

text \<open>
  Two free descriptors are never merged: on a heap of exactly two descriptors each
  smaller than the request, \<^verbatim>\<open>kmalloc\<close> returns null and the descriptors remain two, also
  when both are free and the whole heap would do.
\<close>

theorem kmalloc_last_pair_not_merged:
  assumes inv: "heap_inv s" and two: "kheap_map_pool_ind s = 2"
    and small: "\<forall>d\<in>#live s. kd_size d < sz" and sz: "sz < kheap_bytes s"
  shows "\<exists>t. kmalloc sz s = Some (null, t) \<and> kheap_map_pool_ind t = 2"
proof -
  have n: "unat (kheap_map_pool_ind s) = 2" using two by simp
  have "kheap_map s ! 0 \<in># live s" using n by (auto simp: live_iff [OF inv] intro: exI [of _ 0])
  then have "kd_size (kheap_map s ! 0) < sz" using small by blast
  then have pos: "0 < sz" by (metis word_gt_0 word_not_simps(1))
  have uns: "\<not> suitable sz d" if "d \<in># live s" for d
    using small that by (auto simp: suitable_def not_le)
  have mok: "map_ok 2 s" using inv n by (simp add: heap_inv_def)
  obtain mg t where st: "kheap_compress_step 0 1 s = Some (Some mg, t)" and mg: "\<not> mg"
    and t: "mset (take 2 (kheap_map t)) = mset (take 2 (kheap_map s))" "t = s\<lparr>kheap_map := kheap_map t\<rparr>"
    using kheap_compress_step_ok [OF mok, of 0 thesis] by (simp add: sorted_at_def)
  let ?t = "t\<lparr>kheap_ops := 0\<rparr>"
  have ind: "kheap_map_pool_ind ?t = 2" using arg_cong [OF t(2), of kheap_map_pool_ind] two by simp
  have "kheap_compress_map s = Some ?t"
    using inv two st mg by (simp add: kheap_compress_map_def heap_inv_def kheap_compress_from.simps)
  moreover have "live ?t = live s" using t(1) ind n by (simp add: live_def)
  moreover obtain u where "kheap_compress_map s = Some u" "keeps_heap s u"
    using kheap_compress_map_ok [OF inv] by blast
  ultimately have cm: "kheap_compress_map s = Some ?t" "heap_inv ?t" "\<forall>d\<in>#live ?t. \<not> suitable sz d"
    using uns by (auto simp: keeps_heap_def)
  have scan: "kmalloc_scan 0 (unat (kheap_map_pool_ind v)) sz v = Some (None, v)"
    if "heap_inv v" "kheap_map_pool_ind v = 2" "\<forall>d\<in>#live v. \<not> suitable sz d" for v :: "'a kheap_state_scheme"
  proof -
    let ?m = "unat (kheap_map_pool_ind v)"
    have "\<not> (\<exists>e. 0 \<le> e \<and> e < 0 + ?m \<and> suitable sz (kheap_map v ! e))"
      using that(3) unfolding live_iff [OF that(1)] Ball_def by (metis add_0)
    moreover have "0 + ?m \<le> 128" using map_okD(4) [OF that(1)] by simp
    ultimately show ?thesis
      using kmalloc_scan_cases [OF map_okD(1,2) [OF that(1)], of 0 ?m sz] by (simp only: if_False)
  qed
  have "kmalloc sz s = Some (null, ?t)"
    using scan [OF inv two] scan [OF cm(2) ind cm(3)] uns cm(1) pos sz inv two
    by (auto simp: kmalloc_def heap_inv_def c_macros)
  with ind show ?thesis by blast
qed

theorem kmalloc_last_pair_not_merged_witness:
  "buffers demo2 = {} \<and> kheap_bytes demo2 = 262144 \<and> (\<exists>t. kmalloc 200000 demo2 = Some (null, t))"
proof -
  have "live demo2 = {#\<lparr>kd_base = 0, kd_size = 131072, kd_flags = 1\<rparr>,
      \<lparr>kd_base = 131072, kd_size = 131072, kd_flags = 1\<rparr>#}" by (simp add: demo2_def live_demo)
  then have "buffers demo2 = {}" "kheap_bytes demo2 = 262144" "kheap_map_pool_ind demo2 = 2"
    "\<forall>d\<in>#live demo2. kd_size d < 200000"
    by (auto simp: demo2_def demo_heap_def kheap_bytes_def buffers_def c_macros)
  with kmalloc_last_pair_not_merged [OF demo_invs(2), of 200000] show ?thesis by auto
qed

text \<open>
  \<^verbatim>\<open>init_mm\<close> never returns true in a defined way: \<^verbatim>\<open>init_kmalloc\<close>, the last step, ends
  without a \<^verbatim>\<open>return\<close> exactly when it succeeds, so its result is undefined then.
\<close>

theorem init_mm_never_true: "init_mm pool_memory bootp s \<noteq> Some (True, t)"
proof -
  have "r = None \<or> r = Some False" if "init_kmalloc u = Some (r, v)" for r and u v :: "'a kheap_state_scheme"
    using that by (auto simp: init_kmalloc_def Let_def split: Option.bind_splits option.splits prod.splits if_splits)
  then show ?thesis
    by (auto simp: init_mm_def Let_def split: Option.bind_splits option.splits prod.splits if_splits)
qed

end
