(* ===== verification/Memory_Manager_Props.thy ===== *)
theory Memory_Manager_Props
  imports Memory_Manager
begin

text \<open>
  The page allocator as a whole: which descriptor \<^verbatim>\<open>kalloc_page\<close> takes the pages from, how it
  records them in the memory map, and where the pages are mapped afterwards.
\<close>

section \<open>The memory map\<close>

text \<open>
  The map is an array behind a manual pool whose first \<open>mmap_last_ind\<close> descriptors are the
  valid ones.
\<close>

definition map_inv :: "'z mm_state_scheme \<Rightarrow> bool" where
  "map_inv s \<longleftrightarrow> manual_pool (mmap_pool_id s) (length (mmap s)) (pools s) \<and>
     unat (mmap_size s) = length (mmap s) \<and> unat (mmap_last_ind s) \<le> length (mmap s) \<and>
     (\<forall>i < length (mmap s). descr_valid (mmap s ! i) \<longleftrightarrow> i < unat (mmap_last_ind s))"


lemma manual_pool_less: "manual_pool pid n t \<Longrightarrow> n < 4294967296"
  by (auto simp: manual_pool_def)

lemma unat_ucast_index: "unat (i :: u64) < 4294967296 \<Longrightarrow> unat (ucast i :: u32) = unat i"
  by (simp add: unsigned_ucast_eq take_bit_nat_eq_self)

lemma mmap_get_ok:
  assumes "manual_pool (mmap_pool_id s) (length (mmap s)) (pools s)" and "unat i < length (mmap s)"
  shows "mmap_get i s = Some (True, Some (unat i), s)"
proof -
  have "unat (ucast i :: u32) = unat i"
    using assms manual_pool_less [OF assms(1)] by (intro unat_ucast_index) linarith
  with assms show ?thesis by (cases s) (simp add: mmap_get_def obj_pool_get_manual)
qed


lemma unat_index: "manual_pool pid n t \<Longrightarrow> i < n \<Longrightarrow> unat (of_nat i :: u64) = i"
  using manual_pool_less [of pid n t] by (intro unat_of_nat_64) linarith



section \<open>Mapping the frames\<close>









section \<open>Recording the frames\<close>

text \<open>
  The descriptors that \<^verbatim>\<open>kalloc_page\<close> puts at the end of the map: one for each run of frames that
  follow each other, all but the last one with the flag for a next descriptor.  \<open>prev\<close> is the
  frame before the rest of the frames, which starts with number \<open>m\<close>, and \<open>cur\<close> the descriptor of the current run.
\<close>

fun run_entries ::
  "u64 \<Rightarrow> nat \<Rightarrow> u64 list \<Rightarrow> leokernel_memory_descriptor_t \<Rightarrow> leokernel_memory_descriptor_t list" where
  "run_entries prev m [] cur = [cur]"
| "run_entries prev m (f # fs) cur =
     (if 0 < m \<and> prev + PAGE_SIZE \<noteq> f
      then cur\<lparr>md_flags := md_flags cur OR LEOKERNEL_MEMORY_MAP_HAS_NEXT\<rparr> #
        run_entries f (Suc m) fs
          (init_descriptor (virtual_address cur + page_bytes (of_nat m)) f 1 LEOKERNEL_MEMORY_MAP_VALID kernel_reserved)
      else run_entries f (Suc m) fs (cur\<lparr>pages := pages cur + 1\<rparr>))"

definition put_entries :: "nat \<Rightarrow> 'a list \<Rightarrow> 'a list \<Rightarrow> 'a list" where
  "put_entries l ys xs = take l xs @ ys @ drop (l + length ys) xs"

definition shrink :: "nat \<Rightarrow> leokernel_memory_descriptor_t \<Rightarrow> leokernel_memory_descriptor_t" where
  "shrink k e = e\<lparr>virtual_address := virtual_address e + of_nat k * PAGE_SIZE, pages := pages e - of_nat k\<rparr>"

lemma shrink_Suc: "shrink (Suc k) e =
    shrink k (e\<lparr>virtual_address := virtual_address e + PAGE_SIZE, pages := pages e - 1\<rparr>)"
  by (simp add: shrink_def algebra_simps)



lemma put_entries_nil [simp]: "put_entries l [] xs = xs" by (simp add: put_entries_def)

lemma put_entries_one: "l < length xs \<Longrightarrow> put_entries l [x] xs = xs[l := x]"
  by (simp add: put_entries_def upd_conv_take_nth_drop)

lemma put_entries_Cons: "l + length ys < length xs \<Longrightarrow> put_entries (Suc l) ys (xs[l := y]) = put_entries l (y # ys) xs"
  by (simp add: put_entries_def take_Suc_conv_app_nth)

lemma length_put_entries: "l + length ys \<le> length xs \<Longrightarrow> length (put_entries l ys xs) = length xs"
  by (simp add: put_entries_def)






section \<open>After the loop\<close>




lemma descr_valid_shrink [simp]: "descr_valid (shrink k e) = descr_valid e"
  by (simp add: shrink_def)




section \<open>Allocation\<close>

text \<open>The descriptors of an allocation of the given frames at an address.\<close>

definition page_entries :: "u64 \<Rightarrow> u64 list \<Rightarrow> leokernel_memory_descriptor_t list" where
  "page_entries va frames =
     run_entries 0 0 frames (init_descriptor va (frames ! 0) 0 LEOKERNEL_MEMORY_MAP_VALID kernel_reserved)"

text \<open>The valid descriptors of the map, in their order.\<close>

definition valid_map :: "'z mm_state_scheme \<Rightarrow> leokernel_memory_descriptor_t list" where
  "valid_map s = take (unat (mmap_last_ind s)) (mmap s)"



section \<open>The pages\<close>






text \<open>The addresses of the pages of an allocation.\<close>

definition page_at :: "u64 \<Rightarrow> nat \<Rightarrow> u64" where
  "page_at base i = base + page_bytes (of_nat i)"








section \<open>The properties of an allocation\<close>







section \<open>A concrete allocation\<close>

text \<open>A machine whose frames 1 to 4 and 6 are free and whose memory map has one descriptor, of 8 available pages.\<close>

definition demo_supply :: frame_state where
  "demo_supply = snd (init_frame_alloc (\<lambda>k. if k = 0 then 94 else 0) demo_start)"

definition demo_free :: leokernel_memory_descriptor_t where
  "demo_free = init_descriptor 0x400000 null 8 (LEOKERNEL_MEMORY_MAP_AVAIL OR LEOKERNEL_MEMORY_MAP_VALID) usable"

definition demo_mm :: mm_state where
  "demo_mm = paging_state.extend \<lparr>falloc = demo_supply, pmem = \<lambda>_. 0, cr3 = 5 * 4096, tlb_flushes = []\<rparr>
     (mm_state.fields \<lparr>obj_pools = [\<lparr>pool_base = 0, obj_size = 24, pool_size = 6, pool_id = 0, top_index = 0,
        bottom_index = 0, pool_type = manual\<rparr>], obj_pools_index = 1\<rparr> (demo_free # replicate 5 zero_descriptor) 6 1 0 True)"



definition demo_taken :: frame_state where
  "demo_taken = snd (snd (kalloc_frames_array 2 [0, 0] demo_supply))"




section \<open>Release\<close>

text \<open>The numbers of the frames of a descriptor.\<close>

definition frame_numbers :: "leokernel_memory_descriptor_t \<Rightarrow> nat set" where
  "frame_numbers e = (\<lambda>i. fnum (page_at (physical_address e) i)) ` {..<unat (pages e)}"

definition frames_in_memory :: "frame_state \<Rightarrow> leokernel_memory_descriptor_t \<Rightarrow> bool" where
  "frames_in_memory fa e \<longleftrightarrow> (\<forall>i < unat (pages e). page_at (physical_address e) i < memory_length fa)"

lemma kfree_frame_succeeds:
  assumes "frame_alloc_ready fa" and "f < memory_length fa"
  shows "\<exists>fb. kfree_frame f fa = (True, fb) \<and> avail_frames fb = insert (fnum f) (avail_frames fa) \<and>
    frame_alloc_ready fb \<and> memory_length fb = memory_length fa"
proof -
  have "fst (kfree_frame f fa)" using assms by (simp add: kfree_frame_def Let_def not_le)
  then obtain fb where fb: "kfree_frame f fa = (True, fb)" by (cases "kfree_frame f fa") auto
  with kfree_frame_free(5,6) [OF fb] kfree_frame_avail(2) [OF fb] assms(1) show ?thesis by blast
qed

lemma free_run_ok:
  assumes "frame_alloc_ready fa" and "frames_in_memory fa e"
  shows "avail_frames (free_run e fa) = avail_frames fa \<union> frame_numbers e \<and> frame_alloc_ready (free_run e fa) \<and>
    memory_length (free_run e fa) = memory_length fa"
proof -
  let ?free = "\<lambda>n. for_loop n (\<lambda>i fa. snd (kfree_frame (physical_address e + page_bytes (of_nat i)) fa)) fa"
  have "n \<le> unat (pages e) \<Longrightarrow> avail_frames (?free n) = avail_frames fa \<union> (\<lambda>i. fnum (page_at (physical_address e) i)) ` {..<n} \<and>
      frame_alloc_ready (?free n) \<and> memory_length (?free n) = memory_length fa" for n
  proof (induction n)
    case 0
    with assms(1) show ?case by simp
  next
    case (Suc n)
    then have IH: "avail_frames (?free n) = avail_frames fa \<union> (\<lambda>i. fnum (page_at (physical_address e) i)) ` {..<n}"
      "frame_alloc_ready (?free n)" "memory_length (?free n) = memory_length fa" by simp_all
    have "page_at (physical_address e) n < memory_length (?free n)"
      using assms(2) Suc.prems IH(3) by (simp add: frames_in_memory_def)
    from kfree_frame_succeeds [OF IH(2) this] IH show ?case
      by (auto simp: page_at_def lessThan_Suc)
  qed
  from this [of "unat (pages e)"] show ?thesis by (simp add: free_run_def frame_numbers_def)
qed

text \<open>The descriptors of one allocation: all but the last one have a next descriptor.\<close>

fun block :: "leokernel_memory_descriptor_t list \<Rightarrow> bool" where
  "block [] = False"
| "block [e] = (\<not> DESCRIPTOR_HAS_NEXT (md_flags e))"
| "block (e # es) = (DESCRIPTOR_HAS_NEXT (md_flags e) \<and> block es)"

lemma kfree_page_loop_ok:
  assumes "block es" and "take (length es) (drop e (mmap s)) = es" and "\<forall>x \<in> set es. descr_valid x"
    and "frame_alloc_ready (falloc s)" and "\<forall>x \<in> set es. frames_in_memory (falloc s) x"
  shows "\<exists>fa. kfree_page_loop e s = Some (s\<lparr>falloc := fa, mmap := put_entries e (map freed_descriptor es) (mmap s)\<rparr>) \<and>
    avail_frames fa = avail_frames (falloc s) \<union> (\<Union>x \<in> set es. frame_numbers x)"
  using assms
proof (induction es arbitrary: e s)
  case (Cons x es)
  have e: "e < length (mmap s)" using Cons.prems(2) by (rule_tac ccontr) simp
  then have x: "mmap s ! e = x" "take (length es) (drop (Suc e) (mmap s)) = es"
    using Cons.prems(2) by (simp_all add: Cons_nth_drop_Suc [symmetric])
  let ?fa = "free_run x (falloc s)" and ?mp = "(mmap s)[e := freed_descriptor x]"
  have fr: "avail_frames ?fa = avail_frames (falloc s) \<union> frame_numbers x" "frame_alloc_ready ?fa"
    "memory_length ?fa = memory_length (falloc s)"
    using free_run_ok [OF Cons.prems(4), of x] Cons.prems(5) by simp_all
  have step: "kfree_page_loop e s = (if DESCRIPTOR_HAS_NEXT (md_flags x)
      then kfree_page_loop (Suc e) (s\<lparr>falloc := ?fa, mmap := ?mp\<rparr>) else Some (s\<lparr>falloc := ?fa, mmap := ?mp\<rparr>))"
    using e x(1) Cons.prems(3) by (simp add: kfree_page_loop.simps [of e s] Let_def)
  show ?case
  proof (cases es)
    case Nil
    with Cons.prems(1) step fr e show ?thesis by (intro exI [of _ ?fa]) (simp add: put_entries_one)
  next
    case (Cons y ys)
    with Cons.prems(1) have b: "DESCRIPTOR_HAS_NEXT (md_flags x)" "block es" by simp_all
    let ?s = "s\<lparr>falloc := ?fa, mmap := ?mp\<rparr>"
    have len: "e + length es < length (mmap s)"
      using arg_cong [OF x(2), of length] Cons e by simp
    have "\<exists>fa. kfree_page_loop (Suc e) ?s = Some (?s\<lparr>falloc := fa, mmap := put_entries (Suc e) (map freed_descriptor es) (mmap ?s)\<rparr>) \<and>
        avail_frames fa = avail_frames (falloc ?s) \<union> (\<Union>x \<in> set es. frame_numbers x)"
      by (rule Cons.IH) (use b x(2) Cons.prems(3,5) fr in \<open>simp_all add: frames_in_memory_def\<close>)
    with step b fr len show ?thesis by (auto simp: put_entries_Cons Un_assoc)
  qed
qed simp

lemma find_base_from_ok:
  assumes "map_inv s" and "e < unat (mmap_last_ind s)" and "virtual_address (mmap s ! e) = base"
    and "\<forall>i<e. virtual_address (mmap s ! i) \<noteq> base" and "i \<le> e" "i + k = length (mmap s)"
  shows "find_base_from i k base s = Some (Inr e, s)"
  using assms(5,6)
proof (induction k arbitrary: i)
  case 0
  then show ?case using assms(1,2) by (simp add: map_inv_def)
next
  case (Suc k)
  note pool = assms(1) [unfolded map_inv_def, THEN conjunct1]
  have i: "i < length (mmap s)" using Suc.prems by simp
  then have "mmap_get (of_nat i) s = Some (True, Some i, s)"
    using mmap_get_ok [OF pool, of "of_nat i"] unat_index [OF pool] by simp
  moreover have "descr_valid (mmap s ! i)" using assms(1,2) Suc.prems by (simp add: map_inv_def)
  moreover have "i = e \<or> virtual_address (mmap s ! i) \<noteq> base \<and> Suc i \<le> e"
    using assms(4) Suc.prems(1) by (metis Suc_leI le_neq_implies_less)
  ultimately show ?case using Suc i assms(3) by (auto simp: obj_load_def)
qed

lemma total_pages_put_entries:
  assumes "take (length es) (drop e xs) = es"
  shows "total_pages (put_entries e (map freed_descriptor es) xs) = total_pages xs"
proof -
  have "xs = take e xs @ es @ drop (e + length es) xs"
    using assms by (metis append_take_drop_id drop_drop add.commute)
  then have "total_pages xs = total_pages (take e xs) + total_pages es + total_pages (drop (e + length es) xs)"
    by (metis total_pages_simps(3) add.assoc)
  moreover have "total_pages (map freed_descriptor es) = total_pages es"
    by (simp add: total_pages_def freed_descriptor_def init_descriptor_def o_def)
  ultimately show ?thesis by (simp add: put_entries_def)
qed

text \<open>Where the descriptors of a block lie in the pool.\<close>

lemma block_at:
  assumes es: "take (length es) (drop e (valid_map s)) = es" "block es" "virtual_address (hd es) = base"
    and room: "unat (mmap_last_ind s) < length (mmap s)"
  shows "e + length es \<le> unat (mmap_last_ind s) \<and> take (length es) (drop e (mmap s)) = es \<and>
    e < unat (mmap_last_ind s) \<and> e < length (mmap s) \<and> virtual_address (mmap s ! e) = base"
proof -
  let ?L = "unat (mmap_last_ind s)"
  have ne: "es \<noteq> []" using es(2) by auto
  have eL: "e + length es \<le> ?L"
    using arg_cong [OF es(1), of length] ne room by (cases "e < ?L") (auto simp: valid_map_def min_def split: if_splits)
  have "length (take (length es) (drop e (mmap s))) = length es" using eL room by simp
  moreover have "take (length es) (drop e (mmap s)) = take (length es) (drop e (valid_map s))"
    using eL by (simp add: valid_map_def drop_take min_def)
  ultimately have es': "take (length es) (drop e (mmap s)) = es" using es(1) by simp
  have e: "e < ?L" "e < length (mmap s)" using eL ne room by (cases es; simp)+
  have "hd es = mmap s ! e" using es' ne e(2) by (metis hd_drop_conv_nth hd_take length_greater_0_conv)
  then have va: "virtual_address (mmap s ! e) = base" using es(3) by simp
  with eL es' e show ?thesis by simp
qed

lemma kfree_page_ok:
  assumes inv: "map_inv s" and base: "base \<noteq> null" "base < memory_length (falloc s)"
    and es: "take (length es) (drop e (valid_map s)) = es" "block es" "virtual_address (hd es) = base"
    and first: "\<forall>i<e. virtual_address (valid_map s ! i) \<noteq> base"
    and frames: "frame_alloc_ready (falloc s)" "\<forall>x \<in> set es. frames_in_memory (falloc s) x"
    and room: "unat (mmap_last_ind s) < length (mmap s)" "total_pages (mmap s) < 1048576"
  shows "\<exists>t. kfree_page base s = Some (True, t) \<and>
    avail_frames (falloc t) = avail_frames (falloc s) \<union> (\<Union>x \<in> set es. frame_numbers x) \<and>
    described (mmap t) = described (put_entries e (map freed_descriptor es) (mmap s)) \<and>
    (\<forall>w. get_physical_address w t = get_physical_address w s)"
proof -
  let ?L = "unat (mmap_last_ind s)" and ?mp = "put_entries e (map freed_descriptor es) (mmap s)"
  note I = inv [unfolded map_inv_def]
  have N: "length (mmap s) < 4294967296" using I by (blast intro: manual_pool_less)
  note at = block_at [OF es room(1)]
  have eL: "e + length es \<le> ?L" and es': "take (length es) (drop e (mmap s)) = es" and e: "e < ?L" "e < length (mmap s)"
    and va: "virtual_address (mmap s ! e) = base"
    using at by simp_all
  have valid: "\<forall>x \<in> set es. descr_valid x"
  proof
    fix x assume "x \<in> set es"
    then have "x \<in> set (valid_map s)" using es(1) by (metis in_set_dropD in_set_takeD)
    then obtain j where "mmap s ! j = x" "j < ?L" "j < length (mmap s)" by (auto simp: valid_map_def in_set_conv_nth)
    with I show "descr_valid x" by metis
  qed
  have find: "find_base_from 0 (unat (mmap_size s)) base s = Some (Inr e, s)"
    using find_base_from_ok [OF inv e(1) va, of 0 "length (mmap s)"] first e I by (simp add: valid_map_def)
  obtain fa where loop: "kfree_page_loop e s = Some (s\<lparr>falloc := fa, mmap := ?mp\<rparr>)"
    and fa: "avail_frames fa = avail_frames (falloc s) \<union> (\<Union>x \<in> set es. frame_numbers x)"
    using kfree_page_loop_ok [OF es(2) es' valid frames] by blast
  have len: "length ?mp = length (mmap s)" using eL room(1) by (simp add: length_put_entries)
  have "?mp ! ?L = mmap s ! ?L" using eL room(1) by (simp add: put_entries_def nth_append)
  then have inval: "\<not> descr_valid (?mp ! ?L)" using I room(1) by simp
  have "mmap_last_ind s \<noteq> 0" using e(1) by auto
  from compress_from_ok [OF refl this, of ?mp 0 "mmap_last_ind s"] obtain ys l where
    ys: "compress_map ?mp (mmap_last_ind s) (mmap_last_ind s) = Some (ys, l)" "described ys = described ?mp"
    using len N room inval total_pages_put_entries [OF es'] by (auto simp: compress_map_def)
  let ?s = "s\<lparr>falloc := fa, mmap := ?mp\<rparr>"
  have ne_map: "mmap s \<noteq> []" using room(1) by auto
  have "mmap_get 0 ?s = Some (True, Some 0, ?s)"
    using mmap_get_ok [of ?s 0] I len room(1) ne_map by simp
  then have "compress_mmap ?s = Some (?s\<lparr>mmap := ys, mmap_last_ind := l\<rparr>)"
    using ys(1) by (simp add: compress_mmap_def)
  then have "kfree_page base s = Some (True, ?s\<lparr>mmap := ys, mmap_last_ind := l\<rparr>)"
    using base find loop by (simp add: kfree_page_def not_le)
  moreover have "pmem (?s\<lparr>mmap := ys, mmap_last_ind := l\<rparr>) = pmem s" "cr3 (?s\<lparr>mmap := ys, mmap_last_ind := l\<rparr>) = cr3 s"
    by (cases s; simp)+
  then have "get_physical_address w (?s\<lparr>mmap := ys, mmap_last_ind := l\<rparr>) = get_physical_address w s" for w
    by (simp only: get_physical_address_def)
  moreover have "falloc (?s\<lparr>mmap := ys, mmap_last_ind := l\<rparr>) = fa" "mmap (?s\<lparr>mmap := ys, mmap_last_ind := l\<rparr>) = ys"
    by (cases s; simp)+
  ultimately show ?thesis
    using fa ys(2) by (intro exI [of _ "?s\<lparr>mmap := ys, mmap_last_ind := l\<rparr>"]) (simp only:, blast)
qed

text \<open>
  A release compares the virtual address with the size of the physical memory: an allocation
  at or above it is never released.
\<close>

lemma kfree_page_refuses_high: "memory_length (falloc s) \<le> b \<Longrightarrow> kfree_page b s = Some (False, s)"
  by (simp add: kfree_page_def)

text \<open>
  C6: Let the memory map be well-formed and not full, describe fewer than \<open>2 ^ 20\<close> pages (4 GiB), and let the
  descriptors \<open>es\<close> be the first allocation that begins at the address \<open>base\<close>, which is not null, with all their
  frames below the end of the physical memory, and let the frame allocator be initialised.  When \<open>base\<close> is below \<^verbatim>\<open>memory_length\<close>, the size
  of the physical memory, the release returns true and makes the frames of all descriptors of the
  allocation available, and nothing else; the descriptors are marked as available
  and merged where they can be, so that the map describes the same pages, with these
  marked.  The page tables are not touched: the released pages still translate to their
  frames.  When the virtual address \<open>base\<close> is at or above \<^verbatim>\<open>memory_length\<close>, the release
  returns false and nothing changes.
\<close>

theorem kfree_page_releases:
  assumes inv: "map_inv s" and base: "base \<noteq> null"
    and es: "take (length es) (drop e (valid_map s)) = es" "block es" "virtual_address (hd es) = base"
    and first: "\<forall>i<e. virtual_address (valid_map s ! i) \<noteq> base"
    and frames: "frame_alloc_ready (falloc s)" "\<forall>x \<in> set es. frames_in_memory (falloc s) x"
    and room: "unat (mmap_last_ind s) < length (mmap s)" "total_pages (mmap s) < 1048576"
  shows "if base < memory_length (falloc s)
    then \<exists>t. kfree_page base s = Some (True, t) \<and>
      avail_frames (falloc t) = avail_frames (falloc s) \<union> (\<Union>x \<in> set es. frame_numbers x) \<and>
      described (mmap t) = described (put_entries e (map freed_descriptor es) (mmap s)) \<and>
      (\<forall>w. get_physical_address w t = get_physical_address w s)
    else kfree_page base s = Some (False, s)"
proof (cases "base < memory_length (falloc s)")
  case True
  then show ?thesis using kfree_page_ok [OF inv base True es first frames room] by simp
qed (simp add: kfree_page_refuses_high not_less)

definition demo_used :: "leokernel_memory_descriptor_t list" where
  "demo_used = [init_descriptor 0x4000 24576 1 (LEOKERNEL_MEMORY_MAP_VALID OR LEOKERNEL_MEMORY_MAP_HAS_NEXT) kernel_reserved,
     init_descriptor 0x5000 16384 1 LEOKERNEL_MEMORY_MAP_VALID kernel_reserved]"

definition demo_held :: mm_state where
  "demo_held = demo_mm\<lparr>falloc := demo_taken, mmap := demo_used @ replicate 4 zero_descriptor, mmap_last_ind := 2\<rparr>"

lemma demo_taken_facts: "frame_alloc_ready demo_taken" "memory_length demo_taken = 0x40000"
  by code_simp+

theorem kfree_page_releases_witness:
  "\<exists>t. kfree_page 0x4000 demo_held = Some (True, t) \<and> {4, 6} \<subseteq> avail_frames (falloc t)"
proof -
  have u: "length demo_used = 2" "descr_valid (demo_used ! 0)" "descr_valid (demo_used ! 1)" "\<not> descr_valid zero_descriptor"
    "block demo_used" "virtual_address (hd demo_used) = 0x4000"
    by (simp_all add: demo_used_def init_descriptor_def zero_descriptor_def c_macros)
  have h: "mmap demo_held = demo_used @ replicate 4 zero_descriptor" "mmap_last_ind demo_held = 2" "falloc demo_held = demo_taken"
    "valid_map demo_held = demo_used" "manual_pool (mmap_pool_id demo_held) 6 (pools demo_held)" "mmap_size demo_held = 6"
    by (simp_all add: demo_held_def demo_mm_def paging_state.extend_def mm_state.fields_def valid_map_def u(1) manual_pool_def)
  have "descr_valid ((demo_used @ replicate 4 zero_descriptor) ! i) \<longleftrightarrow> i < 2" if "i < 6" for i
    using that u by (cases "i < 2") (auto simp: nth_append less_2_cases_iff)
  then have inv: "map_inv demo_held" using h u(1) by (simp add: map_inv_def)
  have fm: "\<forall>x \<in> set demo_used. frames_in_memory (falloc demo_held) x"
    using demo_taken_facts by (simp add: h frames_in_memory_def demo_used_def init_descriptor_def page_at_def page_bytes_def)
  have tp: "total_pages (mmap demo_held) < 1048576" by (simp add: h demo_used_def init_descriptor_def)
  have "(0x4000 :: u64) \<noteq> null" "0x4000 < memory_length (falloc demo_held)" "frame_alloc_ready (falloc demo_held)"
    "take (length demo_used) (drop 0 (valid_map demo_held)) = demo_used" "unat (mmap_last_ind demo_held) < length (mmap demo_held)"
    "\<forall>i<0. virtual_address (valid_map demo_held ! i) \<noteq> 0x4000"
    using demo_taken_facts by (simp_all add: h u(1))
  note pre = kfree_page_releases [OF inv this(1,4) u(5,6) this(6,3) fm this(5) tp, unfolded if_P [OF this(2)]]
  have "(\<Union>x \<in> set demo_used. frame_numbers x) = {4, 6}"
    by (simp add: demo_used_def frame_numbers_def init_descriptor_def page_at_def page_bytes_def fnum_def lessThan_Suc insert_commute)
  with pre show ?thesis by auto
qed

text \<open>
  The address of the third and every later run of frames is wrong: it is computed from the
  address of the run before and the number of all pages so far.  Three
  pages in scattered frames are recorded at the offsets 0, 1 and 3.
\<close>

theorem third_run_misplaced:
  assumes "f1 \<noteq> f0 + PAGE_SIZE" and "f2 \<noteq> f1 + PAGE_SIZE"
  shows "map virtual_address (page_entries va [f0, f1, f2]) = [va, va + 0x1000, va + 0x3000]"
  using assms by (auto simp: page_entries_def init_descriptor_def page_bytes_def)

end
