(* ===== verification/Kmap_Props.thy ===== *)
theory Kmap_Props
  imports Memory_Manager_Props
begin




text \<open>What is recorded for the pages around the mapped one, and what becomes of their descriptor.\<close>

definition split_parts :: "u64 \<Rightarrow> leokernel_memory_descriptor_t \<Rightarrow> leokernel_memory_descriptor_t list" where
  "split_parts page r =
     (if pages r = 1 then []
      else (if virtual_address r < page
            then [init_descriptor (virtual_address r) null (ucast ((page - virtual_address r) div PAGE_SIZE)) (md_flags r) (md_type r)]
            else []) @
        [init_descriptor (page + PAGE_SIZE) null
           (ucast (((virtual_address r + page_bytes (pages r - 1)) - page) div PAGE_SIZE)) (md_flags r) (md_type r)])"


lemma valid_parts: "descr_valid r \<Longrightarrow> \<forall>x \<in> set (split_parts page r). descr_valid x"
  by (auto simp: split_parts_def init_descriptor_def)




end
