(* ===== verification/Page_Cycle.thy ===== *)
theory Page_Cycle
  imports Memory_Manager_Props
begin

















end
