(* ===== verification/Tty_Props.thy ===== *)
theory Tty_Props
  imports Tty
begin

text \<open>
  The cursor of the terminal: where it stays, along every run of printed characters and
  backspaces, and where characters are drawn when it has run past the last row.
\<close>

section \<open>Drawing changes the memory only\<close>

definition only_memory :: "'z tty_state_scheme \<Rightarrow> 'z tty_state_scheme \<Rightarrow> bool" where
  "only_memory s t \<longleftrightarrow> (\<exists>m. t = s\<lparr>vmem := m\<rparr>)"

lemma only_memory_refl [simp]: "only_memory s s"
  by (auto simp: only_memory_def intro: exI [of _ "vmem s"])

lemma only_memory_trans: "only_memory s t \<Longrightarrow> only_memory t u \<Longrightarrow> only_memory s u"
  by (auto simp: only_memory_def)

lemma only_memory_eqs:
  assumes "only_memory s t"
  shows "cursor_x t = cursor_x s" "cursor_y t = cursor_y s" "grid_width t = grid_width s"
    "grid_height t = grid_height s" "tty_ready t = tty_ready s"
  using assms by (auto simp: only_memory_def)

lemma only_memory_loop:
  assumes "\<And>i t. only_memory t (f i t)"
  shows "only_memory s (for_loop n f s)"
  by (rule for_loop_invariant [of "\<lambda>_. only_memory s"]) (use assms only_memory_trans in \<open>auto intro: only_memory_trans\<close>)

lemma only_memory_plot: "only_memory s (plot_pixel x y c s)"
  by (auto simp: plot_pixel_def only_memory_def intro: exI [of _ "vmem s"])

lemma only_memory_putchar_at: "only_memory s (putchar_at c x y fg bg s)"
  by (auto simp: putchar_at_def Let_def only_memory_plot intro!: only_memory_loop)

lemma only_memory_clear_cell: "only_memory s (tty_clear_cell x y s)"
  by (auto simp: tty_clear_cell_def only_memory_plot intro!: only_memory_loop)

lemmas drawing_simps [simp] = only_memory_eqs [OF only_memory_putchar_at] only_memory_eqs [OF only_memory_clear_cell]

section \<open>The cursor\<close>

definition cursor_ok :: "'z tty_state_scheme \<Rightarrow> bool" where [inv_defs]:
  "cursor_ok s \<longleftrightarrow> cursor_x s \<le> grid_width s \<and> cursor_y s \<le> grid_height s \<and> 0 < grid_width s"

lemma word_Suc_le: "(x :: u64) < y \<Longrightarrow> x + 1 \<le> y"
  by (rule inc_le)

lemma new_line_cursor:
  "grid_width (new_line s) = grid_width s \<and> grid_height (new_line s) = grid_height s \<and> cursor_x (new_line s) = 0 \<and>
    cursor_y (new_line s) = (if cursor_y s < grid_height s then cursor_y s + 1 else 0)"
  by (simp add: new_line_def tty_clear_def)

lemma putchar_cursor:
  assumes "cursor_ok s"
  shows "cursor_ok (putchar c fg bg s)"
proof (cases "tty_ready s")
  case True
  let ?t = "if c = 10 \<or> cursor_x s = grid_width s then new_line s else s"
  have t: "cursor_ok ?t" "c \<noteq> 10 \<Longrightarrow> cursor_x ?t < grid_width ?t"
    using assms new_line_cursor [of s] word_Suc_le by (auto simp: cursor_ok_def)
  let ?p = "\<lambda>x y. putchar_at c x y fg bg ?t"
  show ?thesis
  proof (cases "c = 10")
    case True
    with \<open>tty_ready s\<close> t(1) show ?thesis by (simp add: putchar_def)
  next
    case False
    have "cursor_ok ((?p x y)\<lparr>cursor_x := cursor_x (?p x y) + 1\<rparr>)" for x y
      using t False word_Suc_le
      by (simp add: cursor_ok_def)
    with False True show ?thesis by (simp add: putchar_def Let_def)
  qed
qed (use assms in \<open>simp add: putchar_def\<close>)

lemma word_pred_le: "(x :: u64) \<noteq> 0 \<Longrightarrow> x \<le> y \<Longrightarrow> x - 1 \<le> y"
  by (simp add: word_le_nat_alt unat_minus_one)

lemma backspace_cursor:
  assumes "cursor_ok s"
  shows "cursor_ok (tty_backspace s)"
proof -
  let ?t = "if cursor_x s = 0
      then if 0 < cursor_y s then s\<lparr>cursor_x := grid_width s - 1, cursor_y := cursor_y s - 1\<rparr> else s
      else s\<lparr>cursor_x := cursor_x s - 1\<rparr>"
  have "cursor_ok ?t"
    using assms word_pred_le [of "cursor_x s" "grid_width s"] word_pred_le [of "cursor_y s" "grid_height s"]
      word_pred_le [of "grid_width s" "grid_width s"]
    by (auto simp: cursor_ok_def)
  then show ?thesis
    by (simp add: tty_backspace_def Let_def cursor_ok_def split del: if_split)
qed

text \<open>A run of the terminal: characters and backspaces, and changes of the colors between them.\<close>

inductive tty_run :: "'z tty_state_scheme \<Rightarrow> 'z tty_state_scheme \<Rightarrow> bool" where
  start: "tty_run s s"
| char: "tty_run s t \<Longrightarrow> tty_run s (putchar c fg bg t)"
| backspace: "tty_run s t \<Longrightarrow> tty_run s (tty_backspace t)"
| clear: "tty_run s t \<Longrightarrow> tty_run s (tty_clear t)"
| fg_color: "tty_run s t \<Longrightarrow> tty_run s (set_tty_char_fg c t)"
| bg_color: "tty_run s t \<Longrightarrow> tty_run s (set_tty_char_bg c t)"

lemma tty_run_grid: "tty_run s t \<Longrightarrow> grid_width t = grid_width s \<and> grid_height t = grid_height s"
proof (induction rule: tty_run.induct)
  case (char s t c fg bg)
  then show ?case
    using new_line_cursor [of t] by (simp add: putchar_def Let_def)
next
  case (backspace s t)
  then show ?case
    by (simp add: tty_backspace_def Let_def)
qed (simp_all add: tty_clear_def set_tty_char_fg_def set_tty_char_bg_def)

lemma tty_run_cursor: "tty_run s t \<Longrightarrow> cursor_ok s \<Longrightarrow> cursor_ok t"
  by (induction rule: tty_run.induct)
    (simp_all add: putchar_cursor backspace_cursor, simp_all add: cursor_ok_def tty_clear_def set_tty_char_fg_def set_tty_char_bg_def)

text \<open>A terminal of 2 columns and 3 rows, the cursor on the last row, over a memory of zeros.\<close>

definition demo_tty :: tty_state where
  "demo_tty =
    \<lparr>falloc = \<lparr>frame_bitmap = \<lambda>_. 0, pool_top = 0, pool_status = empty, frame_pool = [], last_index = 0,
        last_free_frame = 0, frame_alloc_ready = True, memory_length = 0\<rparr>,
     pmem = \<lambda>_. 0, cr3 = 0, tlb_flushes = [], pools = \<lparr>obj_pools = [], obj_pools_index = 0\<rparr>,
     mmap = [], mmap_size = 0, mmap_last_ind = 0, mmap_pool_id = 0, mman_ready = True,
     kheap = 0, kheap_final_size = 0, kheap_ready = False, kheap_map_pool_id = 0, kheap_map_pool_ind = 0,
     kheap_ops = 0, kheap_map = [], vmem = \<lambda>_. 0,
     fb = 0x1000, glyphs = 0x9000, tty_height = 24, tty_width = 16, tty_size = 1536, cursor_x = 0, cursor_y = 2,
     grid_height = 3, grid_width = 2, cell_height = 8, cell_width = 8, cell_pitch = 16,
     foreground = TTY_COLOR_WHITE, background = TTY_COLOR_BLACK, bg_transparent = True, tty_ready = True\<rparr>"

lemma demo_tty_facts [simp]:
  "tty_ready demo_tty" "cursor_x demo_tty = 0" "cursor_y demo_tty = 2" "grid_height demo_tty = 3" "grid_width demo_tty = 2"
  by (simp_all add: demo_tty_def)

text \<open>
  C34: Along every run of characters, backspaces, screen clears and color changes the
  cursor stays in the grid with its right and lower borders: the column is at most the
  width and the row at most the height of the grid, which do not change.
\<close>

theorem tty_cursor_invariant:
  assumes "tty_run s t" and "cursor_x s \<le> grid_width s" "cursor_y s \<le> grid_height s" "0 < grid_width s"
  shows "cursor_x t \<le> grid_width s \<and> cursor_y t \<le> grid_height s \<and>
    grid_width t = grid_width s \<and> grid_height t = grid_height s"
  using tty_run_cursor [OF assms(1)] tty_run_grid [OF assms(1)] assms(2-4) by (simp add: cursor_ok_def)

theorem tty_cursor_invariant_witness:
  "cursor_y (tty_backspace (putchar 10 0 0 (putchar 65 0 0 demo_tty))) \<le> 3"
proof -
  have "tty_run demo_tty (tty_backspace (putchar 10 0 0 (putchar 65 0 0 demo_tty)))"
    by (intro tty_run.intros)
  from tty_cursor_invariant [OF this] show ?thesis by simp
qed

text \<open>
  The row is not kept below the height: a new line on the last row of the grid puts
  the cursor on the row after it, and the next character is drawn there, below the grid;
  only a further new line clears the screen.
\<close>

theorem putchar_below_grid:
  assumes "tty_ready s" and "cursor_y s + 1 = grid_height s" and "cursor_y s < grid_height s"
    and "c \<noteq> 10" and "grid_width s \<noteq> 0"
  shows "\<exists>t. putchar 10 fg bg s = t \<and> cursor_y t = grid_height t \<and>
    putchar c fg bg t = (let u = putchar_at c 0 (ucast (ucast (cell_height s) * grid_height s)) fg bg t
      in u\<lparr>cursor_x := cursor_x u + 1\<rparr>) \<and>
    cursor_y (putchar 10 fg bg t) = 0"
proof -
  have nl: "new_line s = s\<lparr>cursor_x := 0, cursor_y := grid_height s\<rparr>"
    using assms(2,3) by (simp add: new_line_def)
  then have "putchar 10 fg bg s = s\<lparr>cursor_x := 0, cursor_y := grid_height s\<rparr>"
    using assms(1) by (simp add: putchar_def)
  moreover have "cursor_y (putchar 10 fg bg (s\<lparr>cursor_x := 0, cursor_y := grid_height s\<rparr>)) = 0"
    using assms(1) by (simp add: putchar_def new_line_def tty_clear_def)
  ultimately show ?thesis using assms(1,4,5) by (simp add: putchar_def Let_def)
qed

theorem putchar_below_grid_witness:
  "\<exists>t. putchar 10 0 0 demo_tty = t \<and> cursor_y t = 3 \<and> cursor_y (putchar 10 0 0 t) = 0"
  using putchar_below_grid [of demo_tty 65 0 0] by (auto simp: putchar_def new_line_def)

end
