(* ===== verification/Strings_Props.thy ===== *)
theory Strings_Props
  imports Strings
begin

text \<open>
  Correctness of the string routines on terminated strings: \<open>cstring m s xs\<close> says that the
  bytes \<open>xs\<close>, none of them zero, and a zero after them stand at the address \<open>s\<close>.
\<close>

section \<open>Terminated strings\<close>

definition cstring :: "memory \<Rightarrow> u64 \<Rightarrow> u8 list \<Rightarrow> bool" where
  "cstring m s xs \<longleftrightarrow> length xs < 4294967296 \<and> 0 \<notin> set xs \<and>
     (\<forall>k<length xs. m (s + of_nat k) = xs ! k) \<and> m (s + of_nat (length xs)) = 0"

lemma of_nat_ucast_32_64: "k < 4294967296 \<Longrightarrow> (ucast (of_nat k :: u32) :: u64) = of_nat k"
  by (simp add: word_unat_eq_iff)

lemma strlen_from_cstring:
  assumes "cstring m s xs"
  shows "i + k = length xs \<Longrightarrow> strlen_from m s (of_nat i) = Some (of_nat (length xs))"
proof (induction k arbitrary: i)
  case 0
  then show ?case using assms by (simp add: strlen_from.simps of_nat_ucast_32_64 cstring_def)
next
  case (Suc k)
  have i: "i < length xs" "length xs < 4294967296" using Suc.prems assms by (simp_all add: cstring_def)
  then have "m (s + of_nat i) \<noteq> 0" using assms by (auto simp: cstring_def in_set_conv_nth)
  moreover have "strlen_from m s (of_nat (Suc i)) = Some (of_nat (length xs))"
    using Suc.prems by (intro Suc.IH) simp
  ultimately show ?case using i by (subst strlen_from.simps) (simp add: of_nat_ucast_32_64 add.commute)
qed

lemma strlen_cstring: "cstring m s xs \<Longrightarrow> strlen s m = Some (of_nat (length xs))"
  using strlen_from_cstring [of m s xs 0 "length xs"] by (simp add: strlen_def)

lemma pow_eq: "pow base e = base ^ unat e"
proof (cases "e = 0")
  case False
  have "for_loop n (\<lambda>_ ret. ret * base) base = base ^ Suc n" for n
    by (induction n) (simp_all add: mult.commute)
  moreover have "unat e = Suc (unat (e - 1))" using False unat_eq_zero [of e] by (simp add: unat_pred)
  ultimately show ?thesis using False by (simp add: pow_def)
qed (simp add: pow_def)

section \<open>Numbers in decimal\<close>

definition decimal :: "u8 list \<Rightarrow> nat" where
  "decimal xs = horner_sum (\<lambda>c. unat c - 48) 10 (rev xs)"

lemma is_digit_unat: "is_digit c \<longleftrightarrow> 48 \<le> unat c \<and> unat c \<le> 57"
proof -
  define n where "n = unat c"
  have "sint c = (if n < 128 then int n else int n - 256)" "n < 256"
    unfolding n_def by (simp_all only: sint_unat_8 unat_less_8)
  then show ?thesis unfolding is_digit_def n_def [symmetric] by auto
qed

lemma digit_value: "is_digit c \<Longrightarrow> (scast c - 48 :: u32) = of_nat (unat c - 48)"
proof -
  assume c: "is_digit c"
  then have n: "48 \<le> unat c" "unat c < 128" by (simp_all add: is_digit_unat)
  have "(scast c :: u32) = of_int (sint c)" by simp
  also have "sint c = int (unat c)" using n by (simp only: sint_unat_8 if_True)
  finally show ?thesis using n by (simp add: of_nat_diff)
qed

lemma stoi_from_digits:
  assumes "cstring m s xs" and "\<forall>c\<in>set xs. is_digit c"
  shows "i + k = length xs \<Longrightarrow> stoi_from i k s (of_nat (length xs)) m ret =
    Some (ret + of_nat (\<Sum>j = i..<length xs. (unat (rev xs ! j) - 48) * 10 ^ j))"
proof (induction k arbitrary: i ret)
  case (Suc k)
  have i: "i < length xs" "length xs < 4294967296" using Suc.prems assms by (simp_all add: cstring_def)
  have d: "m (s + of_nat i) = xs ! i" "is_digit (xs ! i)" using assms i by (simp_all add: cstring_def)
  have "s + of_nat (length xs) - 1 - of_nat i = s + (of_nat (length xs) - of_nat (Suc i))" by simp
  also have "\<dots> = s + of_nat (length xs - Suc i)" using i by (simp add: of_nat_diff)
  finally have ad: "s + of_nat (length xs) - 1 - of_nat i = s + of_nat (length xs - Suc i)" .
  have "\<forall>k<length xs. m (s + of_nat k) = xs ! k" using assms(1) by (simp add: cstring_def)
  then have "m (s + of_nat (length xs) - 1 - of_nat i) = rev xs ! i"
    unfolding ad using i by (metis rev_nth diff_Suc_less gr_implies_not_zero length_greater_0_conv list.size(3))
  moreover from this have "is_digit (rev xs ! i)" using assms(2) i by (simp add: rev_nth)
  ultimately have t: "(scast (m (s + of_nat (length xs) - 1 - of_nat i)) - 48) * pow 10 (of_nat i) =
      of_nat ((unat (rev xs ! i) - 48) * 10 ^ i)"
    using i by (simp add: digit_value pow_eq)
  have "stoi_from i (Suc k) s (of_nat (length xs)) m ret =
      stoi_from (Suc i) k s (of_nat (length xs)) m (ret + of_nat ((unat (rev xs ! i) - 48) * 10 ^ i))"
    using d i unfolding t [symmetric] by (simp add: of_nat_ucast_32_64)
  also have "\<dots> = Some (ret + of_nat ((unat (rev xs ! i) - 48) * 10 ^ i) +
      of_nat (\<Sum>j = Suc i..<length xs. (unat (rev xs ! j) - 48) * 10 ^ j))"
    using Suc.prems by (intro Suc.IH) simp
  finally show ?case using i by (simp add: sum.atLeast_Suc_lessThan)
qed simp


lemma stoi_plain:
  assumes "cstring m s xs" and "\<forall>c\<in>set xs. is_digit c"
  shows "stoi_from 0 (length xs) s (of_nat (length xs)) m 0 = Some (of_nat (decimal xs))"
  using stoi_from_digits [OF assms, of 0 "length xs" 0]
  by (simp add: decimal_def horner_sum_eq_sum atLeast0LessThan)

text \<open>Removing the sign: what \<^verbatim>\<open>memmove(string, string + 1, length)\<close> does to the string.\<close>

lemma memmove_drop_first:
  assumes "cstring m s (c # xs)"
  shows "cstring (memmove s (s + 1) (of_nat (length (c # xs))) m) s xs"
proof -
  let ?n = "length (c # xs)"
  have n: "?n < 4294967296" using assms by (simp add: cstring_def)
  then have u: "unat (of_nat ?n :: u64) = ?n" by (intro unat_of_nat_64) simp
  have mv: "memmove s (s + 1) (of_nat ?n) m x =
      (if unat (x - s) < ?n then m (s + 1 + (x - s)) else if unat (x - (s + 1)) < ?n then 0 else m x)" for x
    unfolding memmove_def u by (rule memmove_loop_apply [where n = "length (c # xs)"]) (use n in \<open>simp_all add: unat_uminus_64\<close>)
  have rd: "m (s + of_nat (Suc k)) = (c # xs) ! Suc k" if "k < length xs" for k
  proof -
    have "Suc k < ?n" using that by simp
    then show ?thesis using assms unfolding cstring_def by blast
  qed
  have "m (s + of_nat ?n) = 0" using assms by (simp only: cstring_def)
  moreover have at: "memmove s (s + 1) (of_nat ?n) m (s + of_nat k) = m (s + of_nat (Suc k))" if "k < ?n" for k
    unfolding mv using that n by (simp add: algebra_simps)
  ultimately have "\<forall>k<length xs. memmove s (s + 1) (of_nat ?n) m (s + of_nat k) = xs ! k"
    "memmove s (s + 1) (of_nat ?n) m (s + of_nat (length xs)) = 0"
    using rd by simp_all
  with assms show ?thesis by (simp only: cstring_def) simp
qed

lemma stoi_value:
  assumes "\<forall>c\<in>set xs. is_digit c"
  shows "(cstring m s xs \<longrightarrow> stoi s m = Some (of_nat (decimal xs), m)) \<and>
    (cstring m s (45 # xs) \<longrightarrow> (\<exists>m'. stoi s m = Some (- of_nat (decimal xs), m') \<and> cstring m' s xs))"
proof (intro conjI impI)
  assume c: "cstring m s xs"
  have "m s \<noteq> 45"
  proof (cases xs)
    case Nil
    with c show ?thesis by (simp add: cstring_def)
  next
    case (Cons y ys)
    then have "m s = y" using c by (auto simp: cstring_def)
    with Cons assms show ?thesis by (auto simp: is_digit_unat)
  qed
  moreover have "length xs < 4294967296" using c by (simp add: cstring_def)
  ultimately show "stoi s m = Some (of_nat (decimal xs), m)"
    using stoi_plain [OF c assms] strlen_cstring [OF c] by (simp add: stoi_def)
next
  assume c: "cstring m s (45 # xs)"
  let ?m = "memmove s (s + 1) (of_nat (length (45 # xs))) m"
  have c': "cstring ?m s xs" by (rule memmove_drop_first [OF c])
  have "length (45 # xs) < 4294967296" "m s = 45" using c by (auto simp: cstring_def)
  then have "stoi s m = Some (- of_nat (decimal xs), ?m)"
    using stoi_plain [OF c' assms] strlen_cstring [OF c]
    by (simp add: stoi_def of_nat_ucast_32_64 del: of_nat_Suc) simp
  with c' show "\<exists>m'. stoi s m = Some (- of_nat (decimal xs), m') \<and> cstring m' s xs" by blast
qed


text \<open>Strings laid out in a memory of zeros, for the concrete runs.\<close>

primrec place :: "u64 \<Rightarrow> u8 list \<Rightarrow> memory \<Rightarrow> memory" where
  "place a [] m = m"
| "place a (x # xs) m = (place (a + 1) xs m)(a := x)"

definition demo_text :: memory where
  "demo_text = place 100 [45, 52, 50] (place 200 [52, 50] (place 300 [50] (\<lambda>_. 0)))"

lemma demo_cstrings: "cstring demo_text 100 [45, 52, 50]" "cstring demo_text 200 [52, 50]"
  "cstring demo_text 300 [50]"
  by (simp_all add: cstring_def demo_text_def All_less_Suc)

text \<open>
  C32: \<^verbatim>\<open>stoi\<close> of a terminated string of decimal digits returns its decimal value modulo
  \<open>2 ^ 32\<close> and leaves the memory as it is.  With a minus sign in front it returns the
  negated value and removes the sign from the caller's string.
\<close>

theorem stoi_decimal:
  assumes "\<forall>c\<in>set xs. is_digit c"
  shows "(cstring m s xs \<longrightarrow> stoi s m = Some (of_nat (decimal xs), m)) \<and>
    (cstring m s (45 # xs) \<longrightarrow> (\<exists>m'. stoi s m = Some (- of_nat (decimal xs), m') \<and> cstring m' s xs))"
  by (rule stoi_value [OF assms])

theorem stoi_decimal_witness:
  "stoi 200 demo_text = Some (42, demo_text) \<and> (\<exists>m'. stoi 100 demo_text = Some (- 42, m') \<and> cstring m' 100 [52, 50])"
proof -
  have "\<forall>c\<in>set [52, 50 :: u8]. is_digit c" by (simp add: is_digit_unat)
  from stoi_decimal [OF this, of demo_text 200] stoi_decimal [OF this, of demo_text 100] demo_cstrings
  show ?thesis by (simp add: decimal_def)
qed

section \<open>Copying and searching\<close>

text \<open>The \<open>p + 1\<close> bytes from \<open>a\<close> and the \<open>q + 1\<close> bytes from \<open>b\<close> have none in common.\<close>

definition separate :: "u64 \<Rightarrow> nat \<Rightarrow> u64 \<Rightarrow> nat \<Rightarrow> bool" where
  "separate a p b q \<longleftrightarrow> (\<forall>i\<le>p. \<forall>j\<le>q. a + of_nat i \<noteq> b + of_nat j)"

lemma separate_not_in: "separate a p b q \<Longrightarrow> j \<le> q \<Longrightarrow> n \<le> Suc p \<Longrightarrow> \<not> unat (b + of_nat j - a) < n"
proof
  assume s: "separate a p b q" "j \<le> q" "n \<le> Suc p" and l: "unat (b + of_nat j - a) < n"
  let ?i = "unat (b + of_nat j - a)"
  have "a + of_nat ?i = b + of_nat j" by simp
  moreover have "?i \<le> p" using l s by simp
  ultimately show False using s(1,2) unfolding separate_def by blast
qed

lemma separateD: "separate a p b q \<Longrightarrow> i \<le> p \<Longrightarrow> j \<le> q \<Longrightarrow> b + of_nat j \<noteq> a + of_nat i"
  unfolding separate_def by metis

lemma cstring_nth: "cstring m s xs \<Longrightarrow> k < length xs \<Longrightarrow> m (s + of_nat k) = xs ! k"
  and cstring_end: "cstring m s xs \<Longrightarrow> m (s + of_nat (length xs)) = 0"
  and cstring_length: "cstring m s xs \<Longrightarrow> length xs < 4294967296"
  and cstring_nonzero: "cstring m s xs \<Longrightarrow> k < length xs \<Longrightarrow> xs ! k \<noteq> 0"
  by (auto simp: cstring_def in_set_conv_nth)

lemma cstring_keep:
  assumes "cstring m s xs" and "\<And>k. k \<le> length xs \<Longrightarrow> m' (s + of_nat k) = m (s + of_nat k)"
  shows "cstring m' s xs"
  using assms by (simp add: cstring_def)

definition copied :: "memory \<Rightarrow> u64 \<Rightarrow> u64 \<Rightarrow> nat \<Rightarrow> memory" where
  "copied m dest src n = (\<lambda>x. if unat (x - dest) < n then m (src + (x - dest)) else m x)"

lemma copied_Suc:
  fixes dest src :: u64 assumes "n < 18446744073709551616"
  shows "copied m dest src (Suc n) = (copied m dest src n)(dest + of_nat n := m (src + of_nat n))"
proof
  fix x
  show "copied m dest src (Suc n) x = ((copied m dest src n)(dest + of_nat n := m (src + of_nat n))) x"
    using offset_eq_iff [OF assms, of x dest] assms by (auto simp: copied_def less_Suc_eq)
qed

lemma strcpy_from_copied:
  assumes c: "cstring m src xs" and s: "separate dest (length xs) src (length xs)"
  shows "i + k = length xs \<Longrightarrow>
    strcpy_from (copied m dest src i) dest src (of_nat i) = Some (copied m dest src (length xs))"
proof (induction k arbitrary: i)
  case 0
  have "copied m dest src i (src + of_nat i) = m (src + of_nat i)"
    using separate_not_in [OF s, of i i] 0 by (simp add: copied_def)
  then show ?case using 0 cstring_end [OF c] cstring_length [OF c]
    by (subst strcpy_from.simps) (simp add: of_nat_ucast_32_64)
next
  case (Suc k)
  have i: "i < length xs" "i < 4294967296" using Suc.prems cstring_length [OF c] by simp_all
  have rd: "copied m dest src i (src + of_nat i) = m (src + of_nat i)"
    using separate_not_in [OF s, of i i] i by (simp add: copied_def)
  have "strcpy_from (copied m dest src (Suc i)) dest src (of_nat (Suc i)) = Some (copied m dest src (length xs))"
    using Suc.prems by (intro Suc.IH) simp
  then show ?case
    using i cstring_nonzero [OF c i(1)] cstring_nth [OF c i(1)] rd
    by (subst strcpy_from.simps) (simp add: of_nat_ucast_32_64 copied_Suc add.commute)
qed

text \<open>
  \<^verbatim>\<open>strcpy\<close> of a terminated string to a separate place copies its characters and writes
  nothing else, the terminator neither: the destination holds the source string exactly
  when the byte after the copied characters was zero before.
\<close>

theorem strcpy_leaves_terminator:
  assumes c: "cstring m src xs" and s: "separate dest (length xs) src (length xs)"
  shows "\<exists>m'. strcpy dest src m = Some m' \<and>
    (\<forall>x. m' x = (if in_region x dest (length xs) then m (src + (x - dest)) else m x)) \<and>
    (cstring m' dest xs \<longleftrightarrow> m (dest + of_nat (length xs)) = 0)"
proof -
  let ?n = "length xs" and ?m = "copied m dest src (length xs)"
  have n: "?n < 4294967296" by (rule cstring_length [OF c])
  have "strcpy dest src m = Some ?m"
    using strcpy_from_copied [OF assms, of 0 ?n] by (simp add: strcpy_def copied_def)
  moreover have "?m (dest + of_nat k) = xs ! k" if "k < ?n" for k
    using that n cstring_nth [OF c that] by (simp add: copied_def)
  moreover have "?m (dest + of_nat ?n) = m (dest + of_nat ?n)" using n by (simp add: copied_def)
  moreover have "?n < 4294967296" "0 \<notin> set xs" using c by (simp_all add: cstring_def)
  ultimately show ?thesis
    by (intro exI [of _ ?m]) (simp add: cstring_def copied_def in_region_def)
qed

theorem strcpy_leaves_terminator_witness:
  "\<exists>m'. strcpy 100 300 demo_text = Some m' \<and> \<not> cstring m' 100 [50]"
proof -
  have "separate 100 (length [50 :: u8]) 300 (length [50 :: u8])"
    by (auto simp: separate_def le_Suc_eq)
  moreover have "demo_text (100 + of_nat (length [50 :: u8])) \<noteq> 0" by (simp add: demo_text_def)
  ultimately show ?thesis using strcpy_leaves_terminator [OF demo_cstrings(3), of 100] by blast
qed

lemma same_from_eq:
  "same_from i k a b m = (if \<forall>j. i \<le> j \<and> j < i + k \<longrightarrow> m (a + of_nat j) = m (b + of_nat j) then 0 else - 1)"
proof (induction k arbitrary: i)
  case (Suc k)
  have "(\<forall>j. i \<le> j \<and> j < i + Suc k \<longrightarrow> P j) \<longleftrightarrow> P i \<and> (\<forall>j. Suc i \<le> j \<and> j < Suc i + k \<longrightarrow> P j)" for P
    by (auto simp: Suc_le_eq) (metis le_neq_implies_less)
  then show ?case by (simp only: same_from.simps Suc.IH) auto
qed simp

lemma strcmp_cstring:
  assumes a: "cstring m a xs" and b: "cstring m b ys"
  shows "strcmp a b m = Some (if xs = ys then 0 else - 1)"
proof (cases "length xs = length ys")
  case True
  have "(\<forall>j. 0 \<le> j \<and> j < 0 + length xs \<longrightarrow> m (a + of_nat j) = m (b + of_nat j)) \<longleftrightarrow> xs = ys"
    using True cstring_nth [OF a] cstring_nth [OF b] by (auto intro: nth_equalityI)
  then show ?thesis
    using True strlen_cstring [OF a] strlen_cstring [OF b] cstring_length [OF a]
    by (simp add: strcmp_def same_from_eq)
next
  case False
  have "(of_nat (length xs) :: u32) \<noteq> of_nat (length ys)"
    using False cstring_length [OF a] cstring_length [OF b] by (metis unat_of_nat_32)
  then show ?thesis using False strlen_cstring [OF a] strlen_cstring [OF b] by (auto simp: strcmp_def)
qed


definition occurs_at :: "u8 list \<Rightarrow> u8 list \<Rightarrow> nat \<Rightarrow> bool" where
  "occurs_at ss ts i \<longleftrightarrow> take (length ts) (drop i ss) = ts"

lemma strtok_from_find:
  assumes "cstring m token ts" and "cstring m str ss" and "m (buffer + of_nat (length ts)) = 0"
    and st: "separate buffer (length ts) token (length ts)" and ss: "separate buffer (length ts) str (length ss)"
  shows "i + k + length ts \<le> length ss \<Longrightarrow>
    \<exists>m'. strtok_from i k buffer str token (of_nat (length ts)) m =
      Some (case find (occurs_at ss ts) [i..<i + k] of None \<Rightarrow> null | Some j \<Rightarrow> str + of_nat j, m')"
  using assms(1-3)
proof (induction k arbitrary: i m)
  case (Suc k)
  let ?n = "length ts"
  let ?sub = "take ?n (drop i ss)"
  have t: "cstring m token ts" and s: "cstring m str ss" and e: "m (buffer + of_nat ?n) = 0"
    using Suc.prems by simp_all
  have n: "?n < 4294967296" "length ss < 4294967296" using cstring_length [OF t] cstring_length [OF s] .
  have far: "?n \<le> unat (buffer - (str + of_nat i))"
  proof (rule ccontr)
    assume "\<not> ?n \<le> unat (buffer - (str + of_nat i))"
    then have lt: "unat (buffer - (str + of_nat i)) < ?n" by simp
    let ?d = "unat (buffer - (str + of_nat i))"
    have "str + of_nat (i + ?d) = buffer + of_nat 0" by (simp add: algebra_simps)
    moreover have "i + ?d \<le> length ss" using lt Suc.prems by simp
    ultimately show False using ss unfolding separate_def by (metis le0)
  qed
  define M where "M = memcpy buffer (str + of_nat i) (ucast (of_nat ?n :: u32)) m"
  have M: "M x = (if unat (x - buffer) < ?n then m (str + of_nat i + (x - buffer)) else m x)" for x
    unfolding M_def by (subst memcpy_apply) (use far n in \<open>simp_all add: in_region_def\<close>)
  have Mt: "cstring M token ts"
    using separate_not_in [OF st] by (intro cstring_keep [OF t]) (simp add: M)
  have Ms: "cstring M str ss"
    using separate_not_in [OF ss] by (intro cstring_keep [OF s]) (simp add: M)
  have Mb: "M (buffer + of_nat k) = ?sub ! k" if k: "k < ?n" for k
  proof -
    have "M (buffer + of_nat k) = m (str + of_nat (i + k))"
      using k n by (simp add: M algebra_simps)
    also have "\<dots> = ss ! (i + k)" using k Suc.prems by (intro cstring_nth [OF s]) simp
    finally show ?thesis using k Suc.prems by simp
  qed
  have Me: "M (buffer + of_nat ?n) = 0" using e n by (simp add: M)
  have len: "length ?sub = ?n" using Suc.prems by simp
  have "cstring M buffer ?sub"
    using Mb Me n s unfolding cstring_def len by (auto dest!: in_set_takeD in_set_dropD)
  then have cmp: "strcmp buffer token M = Some (if occurs_at ss ts i then 0 else - 1)"
    using strcmp_cstring [OF _ Mt] by (simp add: occurs_at_def)
  have run: "strtok_from i (Suc k) buffer str token (of_nat ?n) m =
      (if occurs_at ss ts i then Some (str + of_nat i, M)
       else strtok_from (Suc i) k buffer str token (of_nat ?n) M)"
    by (simp add: M_def [symmetric] cmp)
  have up: "[i..<i + Suc k] = i # [Suc i..<Suc i + k]" by (simp add: upt_conv_Cons)
  show ?case
  proof (cases "occurs_at ss ts i")
    case True
    then show ?thesis unfolding run up by simp
  next
    case False
    have "Suc i + k + ?n \<le> length ss" using Suc.prems by simp
    from Suc.IH [OF this Mt Ms Me] False show ?thesis unfolding run up by simp
  qed
qed simp

text \<open>
  C33: What \<^verbatim>\<open>strtok\<close> searches for: with a string shorter than the token the result is null,
  with one of the same length it is the string itself whatever it contains, and otherwise
  the first occurrence of the token that does not stand at the very end of the string.
\<close>

theorem strtok_search:
  assumes "cstring m token ts" and "cstring m str ss" and "ts \<noteq> []"
    and "separate buffer (length ts) token (length ts)" and "separate buffer (length ts) str (length ss)"
  shows "\<exists>m'. strtok buffer str token m = Some
    (if length ss < length ts then null else if length ss = length ts then str
     else case find (\<lambda>i. take (length ts) (drop i ss) = ts) [0..<length ss - length ts] of
       None \<Rightarrow> null | Some i \<Rightarrow> str + of_nat i, m')"
proof -
  let ?n = "length ts" and ?M = "m(buffer + of_nat (length ts) := 0)"
  note t = assms(1) and s = assms(2)
  have n: "?n < 4294967296" "length ss < 4294967296" using cstring_length [OF t] cstring_length [OF s] .
  have lt: "(of_nat (length ss) :: u32) < of_nat ?n \<longleftrightarrow> length ss < ?n"
    and eq: "(of_nat (length ss) :: u32) = of_nat ?n \<longleftrightarrow> length ss = ?n"
    and z: "(of_nat ?n :: u32) = 0 \<longleftrightarrow> ?n = 0" "(of_nat (length ss) :: u32) = 0 \<longleftrightarrow> length ss = 0"
    using n by (simp_all add: word_less_nat_alt word_unat_eq_iff)
  have "cstring ?M token ts" "cstring ?M str ss"
    using separateD [OF assms(4)] separateD [OF assms(5)]
    by (auto intro!: cstring_keep [OF t] cstring_keep [OF s])
  moreover have "0 + (length ss - ?n) + ?n \<le> length ss" if "?n < length ss" using that by simp
  ultimately have sf: "?n < length ss \<Longrightarrow> \<exists>m'. strtok_from 0 (length ss - ?n) buffer str token (of_nat ?n) ?M =
      Some (case find (occurs_at ss ts) [0..<0 + (length ss - ?n)] of None \<Rightarrow> null | Some j \<Rightarrow> str + of_nat j, m')"
    using assms(4,5) by (intro strtok_from_find) simp_all
  have sub: "unat (of_nat (length ss) - of_nat ?n :: u32) = length ss - ?n" if "?n < length ss"
    using that n by (simp add: unat_sub word_le_nat_alt)
  have oc: "occurs_at ss ts = (\<lambda>i. take ?n (drop i ss) = ts)" by (simp add: fun_eq_iff occurs_at_def)
  have run: "strtok buffer str token m =
    (if ?n = 0 \<or> length ss = 0 then Some (null, ?M) else if length ss < ?n then Some (null, ?M)
     else if length ss = ?n then Some (str, ?M)
     else strtok_from 0 (unat (of_nat (length ss) - of_nat ?n :: u32)) buffer str token (of_nat ?n) ?M)"
    using strlen_cstring [OF t] strlen_cstring [OF s] n
    by (simp add: strtok_def lt eq z of_nat_ucast_32_64)
  consider "length ss < ?n" | "length ss = ?n" | "?n < length ss" by linarith
  then show ?thesis
  proof cases
    case 3
    then have g: "\<not> length ss < ?n" "length ss \<noteq> ?n" "?n \<noteq> 0" "length ss \<noteq> 0" using assms(3) by auto
    with 3 run sub sf [unfolded oc] show ?thesis by (simp only: if_False simp_thms add_0)
  qed (use run assms(3) in auto)
qed

theorem strtok_search_witness: "\<exists>m'. strtok 400 200 300 demo_text = Some (null, m')"
proof -
  have "separate 400 (length [50 :: u8]) 300 (length [50 :: u8])"
    "separate 400 (length [50 :: u8]) 200 (length [52, 50 :: u8])"
    by (auto simp: separate_def le_Suc_eq)
  from strtok_search [OF demo_cstrings(3,2) _ this] show ?thesis by simp
qed

end
