(* ===== verification/Vsnprintf_Props.thy ===== *)
theory Vsnprintf_Props
  imports Vsnprintf Strings_Props
begin

text \<open>
  What \<^verbatim>\<open>num_fmt\<close> prints, in terms of the digits of a number, and two bounds that the
  formatted printing does not keep: the width of a number and the length of the output.
\<close>

section \<open>The digits of a number\<close>

fun numerals :: "nat \<Rightarrow> nat \<Rightarrow> nat list" where
  "numerals b n = (if n < b \<or> b < 2 then [n mod b] else numerals b (n div b) @ [n mod b])"

declare numerals.simps [simp del]

lemma numerals_length_pos: "0 < length (numerals b n)"
  by (subst numerals.simps) simp

lemma numerals_less: "0 < b \<Longrightarrow> d \<in> set (numerals b n) \<Longrightarrow> d < b"
  by (induction b n rule: numerals.induct) (subst (asm) (2) numerals.simps, auto split: if_splits)

lemma length_numerals: "2 \<le> b \<Longrightarrow> n < b ^ Suc k \<Longrightarrow> length (numerals b n) \<le> Suc k"
proof (induction k arbitrary: n)
  case (Suc k)
  show ?case
  proof (cases "n < b")
    case False
    have "n div b < b ^ Suc k" using Suc.prems by (simp add: less_mult_imp_div_less mult.commute)
    with Suc False show ?thesis by (subst numerals.simps) simp
  qed (subst numerals.simps, simp)
qed (subst numerals.simps, simp)

lemma numerals_value: "2 \<le> b \<Longrightarrow> horner_sum id b (rev (numerals b n)) = n"
  by (induction b n rule: numerals.induct) (subst numerals.simps, auto)

section \<open>num_fmt\<close>

lemma push_front_ok: "0 < p \<Longrightarrow> p \<le> length xs \<Longrightarrow>
    push_front c (p, xs) = Some (p - 1, take (p - 1) xs @ c # drop p xs)"
  by (auto simp: push_front_def upd_conv_take_nth_drop)

lemma num_fmt_digits_ok:
  assumes b: "2 \<le> unat base" "unat base \<le> length ds" and "length ds \<le> 16"
  shows "length (numerals (unat base) (unat i)) \<le> p \<Longrightarrow> p \<le> length xs \<Longrightarrow>
    \<exists>w'. num_fmt_digits i base w ds (- 1) (p, xs) =
      Some ((p - length (numerals (unat base) (unat i)),
        take (p - length (numerals (unat base) (unat i))) xs @ map ((!) ds) (numerals (unat base) (unat i)) @ drop p xs), w') \<and>
      unat w' = unat w - length (numerals (unat base) (unat i))"
proof (induction "unat i" arbitrary: i p xs w rule: less_induct)
  case less
  let ?b = "unat base" and ?d = "ds ! (unat i mod unat base)"
  have bn: "base \<noteq> 0" using b by auto
  have md: "unat (i mod ucast base) = unat i mod ?b" "unat (i div ucast base) = unat i div ?b"
    by (simp_all add: unat_mod unat_div)
  have "unat i mod ?b < ?b" using b by simp
  then have ok: "\<not> length ds \<le> unat i mod ?b" using b by linarith
  have p: "0 < p" using less.prems numerals_length_pos [of ?b "unat i"] by linarith
  let ?ys = "take (p - 1) xs @ ?d # drop p xs"
  define w1 where "w1 = (if w \<noteq> 0 then w - 1 else w)"
  have w1: "unat w1 = unat w - 1" by (simp add: w1_def unat_pred)
  have run: "num_fmt_digits i base w ds (- 1) (p, xs) =
      (if i div ucast base \<noteq> 0 then num_fmt_digits (i div ucast base) base w1 ds (- 1) (p - 1, ?ys)
       else Some ((p - 1, ?ys), w1))"
    by (subst num_fmt_digits.simps)
      (simp add: bn md ok push_front_ok [OF p less.prems(2)] w1_def Let_def)
  show ?case
  proof (cases "unat i < ?b")
    case True
    then have "i div ucast base = 0" by (simp add: word_unat_eq_iff md)
    moreover have "numerals ?b (unat i) = [unat i mod ?b]" using True by (subst numerals.simps) simp
    ultimately show ?thesis using p w1 unfolding run by simp
  next
    case False
    let ?i = "i div ucast base"
    have nz: "?i \<noteq> 0" using False b by (simp add: word_unat_eq_iff md div_eq_0_iff not_less)
    have num: "numerals ?b (unat i) = numerals ?b (unat ?i) @ [unat i mod ?b]"
      using False b by (subst numerals.simps) (simp add: md)
    have "unat ?i < unat i" using b False by (simp add: md)
    moreover have "length (numerals ?b (unat ?i)) \<le> p - 1" "p - 1 \<le> length ?ys"
      using less.prems num p by simp_all
    ultimately obtain w' where "num_fmt_digits ?i base w1 ds (- 1) (p - 1, ?ys) =
      Some ((p - 1 - length (numerals ?b (unat ?i)),
        take (p - 1 - length (numerals ?b (unat ?i))) ?ys @ map ((!) ds) (numerals ?b (unat ?i)) @ drop (p - 1) ?ys), w')"
      "unat w' = unat w1 - length (numerals ?b (unat ?i))"
      using less.hyps [of ?i "p - 1" ?ys w1] by blast
    then show ?thesis using nz w1 p less.prems unfolding run num by (simp add: min_def) (use p less.prems(2) in auto)
  qed
qed

lemma num_fmt_pad_ok:
  "p \<le> length xs \<Longrightarrow> num_fmt_pad k c (p, xs) =
    (if k \<le> p then Some (p - k, take (p - k) xs @ replicate k c @ drop p xs) else None)"
proof (induction k arbitrary: p xs)
  case (Suc k)
  show ?case
  proof (cases "p = 0")
    case False
    then show ?thesis using Suc
      by (simp add: push_front_ok) (auto simp: replicate_app_Cons_same min_def)
  qed (simp add: push_front_def)
qed simp


lemma digits_lower_nth: "k < 10 \<Longrightarrow> digits_lower ! k = of_nat (48 + k)"
  by (simp add: digits_lower_def less_Suc_eq numeral_eq_Suc) auto

definition decimal_chars :: "nat \<Rightarrow> u8 list" where
  "decimal_chars n = map (\<lambda>d. of_nat (48 + d)) (numerals 10 n)"

lemma decimal_chars_digits: "\<forall>c\<in>set (decimal_chars n). is_digit c \<and> c \<noteq> 0"
proof
  fix c assume "c \<in> set (decimal_chars n)"
  then obtain d where d: "c = of_nat (48 + d)" "d \<in> set (numerals 10 n)" by (auto simp: decimal_chars_def)
  then have "d < 10" using numerals_less [of 10 d n] by simp
  then have "unat c = 48 + d" using d(1) by (simp only: unat_of_nat_8)
  with \<open>d < 10\<close> show "is_digit c \<and> c \<noteq> 0" by (auto simp: is_digit_unat)
qed

lemma decimal_decimal_chars: "decimal (decimal_chars n) = n"
proof -
  have "unat (of_nat (48 + d) :: u8) - 48 = d" if "d \<in> set (numerals 10 n)" for d
  proof -
    have "d < 10" using numerals_less [of 10 d n] that by simp
    then have "unat (of_nat (48 + d) :: u8) = 48 + d" by (simp only: unat_of_nat_8)
    then show ?thesis by simp
  qed
  then have "map (\<lambda>c. unat c - 48) (rev (decimal_chars n)) = rev (numerals 10 n)"
    by (auto simp: decimal_chars_def rev_map comp_def intro!: map_idI)
  moreover have "horner_sum (\<lambda>c. unat c - 48) 10 ys = horner_sum id 10 (map (\<lambda>c. unat c - 48) ys)" for ys :: "u8 list"
    by (induction ys) simp_all
  ultimately show ?thesis using numerals_value [of 10 n] by (simp add: decimal_def)
qed


lemma num_chars_cut:
  assumes "p = length A" and "\<forall>c\<in>set B. c \<noteq> 0" and "0 < n"
  shows "num_chars (p, A @ B @ replicate n 0) = B"
proof -
  obtain k where "n = Suc k" using assms(3) gr0_implies_Suc by blast
  then show ?thesis using assms(1,2) by (simp add: num_chars_def takeWhile_append2)
qed

definition magnitude :: "u64 \<Rightarrow> nat" where
  "magnitude x = unat (if x <s 0 then - x else x)"

lemma num_fmt_result:
  fixes x :: u64
  assumes pad: "pad \<noteq> 0"
  defines "n \<equiv> length (decimal_chars (magnitude x))" and "sg \<equiv> if x <s 0 then [45 :: u8] else []"
  shows "\<exists>pb. num_fmt x 10 w pad False (- 1) = (if 49 < max n (unat w) + length sg then None else Some pb) \<and>
    (max n (unat w) + length sg \<le> 49 \<longrightarrow>
      num_chars pb = sg @ replicate (unat w - n) pad @ decimal_chars (magnitude x))"
proof -
  let ?i = "if x <s 0 then - x else x" and ?zs = "replicate 100 (0 :: u8)"
  let ?d = "decimal_chars (magnitude x)"
  have mag: "magnitude x = unat ?i" by (simp add: magnitude_def)
  have "unat ?i < 10 ^ Suc 19" by (rule order_less_le_trans [OF unat_less_64]) simp
  then have "length (numerals 10 (unat ?i)) \<le> 20" using length_numerals [of 10 "unat ?i" 19] by simp
  then have n20: "n \<le> 20" by (simp add: n_def mag decimal_chars_def)
  have dc: "map ((!) digits_lower) (numerals 10 (unat ?i)) = ?d"
    using numerals_less [of 10 _ "unat ?i"] by (auto simp: decimal_chars_def mag digits_lower_nth)
  have nl: "length (numerals 10 (unat ?i)) = n" by (simp add: n_def mag decimal_chars_def)
  have "\<exists>w'. num_fmt_digits ?i 10 w digits_lower (- 1) (49, ?zs) =
      Some ((49 - n, take (49 - n) ?zs @ ?d @ drop 49 ?zs), w') \<and> unat w' = unat w - n"
  proof -
    have l: "length digits_lower = 16" "unat (10 :: u32) = 10" "49 \<le> length ?zs"
      by (simp_all add: digits_lower_def)
    have p: "2 \<le> unat (10 :: u32)" "unat (10 :: u32) \<le> length digits_lower" "length digits_lower \<le> 16"
      "length (numerals (unat (10 :: u32)) (unat ?i)) \<le> 49"
      unfolding l nl using n20 by simp_all
    from num_fmt_digits_ok [OF p l(3), of w] show ?thesis unfolding l(2) nl dc .
  qed
  then obtain w' where dg: "num_fmt_digits ?i 10 w digits_lower (- 1) (49, ?zs) =
      Some ((49 - n, take (49 - n) ?zs @ ?d @ drop 49 ?zs), w')" and w': "unat w' = unat w - n" by blast
  let ?xs = "take (49 - n) ?zs @ ?d @ drop 49 ?zs"
  have xs: "length ?xs = 100" "drop (49 - n) ?xs = ?d @ replicate 51 0" using n20
    by (simp_all add: n_def)
  have run: "num_fmt x 10 w pad False (- 1) = do {
      pb \<leftarrow> num_fmt_pad (unat w') pad (49 - n, ?xs); if x <s 0 then push_front 45 pb else Some pb }"
    unfolding num_fmt_def using dg by (cases "x <s 0") (simp_all add: Let_def)
  let ?k = "unat w - n"
  have Bnz: "\<forall>c\<in>set (sg @ replicate ?k pad @ ?d). c \<noteq> 0"
    using decimal_chars_digits pad by (auto simp: sg_def)
  show ?thesis
  proof (cases "?k \<le> 49 - n")
    case False
    then have "49 < max n (unat w) + length sg" using n20 by simp
    moreover have "num_fmt x 10 w pad False (- 1) = None"
      unfolding run w' using False n20 by (subst num_fmt_pad_ok) (simp_all add: n_def)
    ultimately show ?thesis by simp
  next
    case True
    let ?p = "49 - n - ?k"
    define A where "A = take ?p ?xs"
    define B where "B = replicate ?k pad @ ?d"
    have A: "length A = ?p" using xs(1) by (simp add: A_def)
    have "num_fmt_pad ?k pad (49 - n, ?xs) = Some (?p, A @ B @ replicate 51 0)"
      by (subst num_fmt_pad_ok) (use True xs in \<open>simp_all add: A_def B_def\<close>)
    then have run': "num_fmt x 10 w pad False (- 1) =
        (if x <s 0 then push_front 45 (?p, A @ B @ replicate 51 0) else Some (?p, A @ B @ replicate 51 0))"
      unfolding run w' by simp
    have mx: "max n (unat w) = n + ?k" by simp
    have Bz: "\<forall>c\<in>set B. c \<noteq> 0" using Bnz by (simp add: B_def)
    show ?thesis
    proof (cases "x <s 0")
      case False
      have "num_chars (?p, A @ B @ replicate 51 0) = B"
        by (rule num_chars_cut) (simp_all add: A Bz)
      then show ?thesis using run' False True n20 mx by (simp add: sg_def B_def)
    next
      case neg: True
      show ?thesis
      proof (cases "?p = 0")
        case True
        then show ?thesis using run' neg n20 mx by (simp add: sg_def push_front_def)
      next
        case False
        have pf: "push_front 45 (?p, A @ B @ replicate 51 0) =
            Some (?p - 1, take (?p - 1) A @ (45 # B) @ replicate 51 0)"
          by (subst push_front_ok) (use False A in simp_all)
        have "num_chars (?p - 1, take (?p - 1) A @ (45 # B) @ replicate 51 0) = 45 # B"
          by (rule num_chars_cut) (use A Bz in simp_all)
        with pf show ?thesis using run' neg False n20 mx by (simp add: sg_def B_def)
      qed
    qed
  qed
qed


section \<open>The properties\<close>

text \<open>
  C30: \<^verbatim>\<open>num_fmt\<close> in base 10 yields the sign, the padding up to the width \<open>w\<close> and the decimal
  digits of the magnitude.  When the sign and the wider of both need more than 49
  characters it writes in front of its static array.
\<close>

theorem num_fmt_decimal:
  assumes "pad \<noteq> 0"
  shows "\<exists>pb. num_fmt x 10 w pad False (- 1) =
      (if 49 < max (length (decimal_chars (magnitude x))) (unat w) + (if x <s 0 then 1 else 0) then None else Some pb) \<and>
    (max (length (decimal_chars (magnitude x))) (unat w) + (if x <s 0 then 1 else 0) \<le> 49 \<longrightarrow>
      num_chars pb = (if x <s 0 then [45] else []) @
        replicate (unat w - length (decimal_chars (magnitude x))) pad @ decimal_chars (magnitude x))"
  using num_fmt_result [OF assms, of x w] by (cases "x <s 0") simp_all

theorem num_fmt_decimal_witness:
  "num_fmt 7 10 50 48 False (- 1) = None \<and> (\<exists>pb. num_fmt 7 10 3 48 False (- 1) = Some pb \<and> num_chars pb = [48, 48, 55])"
proof -
  have "(48 :: u8) \<noteq> 0" and d: "decimal_chars (magnitude 7) = [55]" "\<not> (7 :: u64) <s 0"
    by (simp_all add: decimal_chars_def magnitude_def numerals.simps word_sless_alt)
  moreover have "replicate 2 (48 :: u8) = [48, 48]" by (simp add: numeral_2_eq_2)
  ultimately show ?thesis using num_fmt_decimal [of 48 7 50] num_fmt_decimal [of 48 7 3] by auto
qed

lemma ucast_uminus_64_32: "(ucast (- i :: u64) :: u32) = - ucast i"
  proof -
  have "take_bit 32 (- take_bit 64 k) = take_bit 32 (- k)" for k :: int
    using take_bit_minus [of 32 "take_bit 64 k"] take_bit_minus [of 32 k] by simp
  then show ?thesis by transfer simp
qed

text \<open>
  C29: A 32-bit integer printed by \<^verbatim>\<open>num_fmt\<close> and read back by \<^verbatim>\<open>stoi\<close> is the same integer.
\<close>

theorem num_fmt_stoi_roundtrip:
  "\<exists>pb. num_fmt (scast (x :: u32)) 10 0 32 False (- 1) = Some pb \<and>
    (\<forall>m s. cstring m s (num_chars pb) \<longrightarrow> (\<exists>m'. stoi s m = Some (x, m')))"
proof -
  let ?i = "scast x :: u64" and ?n = "magnitude (scast x)"
  have "unat (if ?i <s 0 then - ?i else ?i) < 10 ^ Suc 19"
    by (rule order_less_le_trans [OF unat_less_64]) simp
  then have "length (decimal_chars ?n) \<le> 20"
    using length_numerals [of 10 "?n" 19] by (simp add: decimal_chars_def magnitude_def)
  then obtain pb where pb: "num_fmt ?i 10 0 32 False (- 1) = Some pb"
    "num_chars pb = (if ?i <s 0 then [45] else []) @ decimal_chars ?n"
    using num_fmt_result [of 32 ?i 0] by (auto split: if_splits)
  have x: "ucast ?i = x" by (rule bit_word_eqI) (auto simp: bit_simps)
  have val: "of_nat ?n = (if ?i <s 0 then - x else x)"
    by (simp add: magnitude_def x ucast_uminus_64_32 of_nat_unat)
  have dg: "\<forall>c\<in>set (decimal_chars ?n). is_digit c" using decimal_chars_digits by blast
  have "\<exists>m'. stoi s m = Some (x, m')" if "cstring m s (num_chars pb)" for m s
    using that stoi_value [OF dg, of m s] val unfolding pb(2)
    by (cases "?i <s 0") (auto simp: decimal_decimal_chars)
  with pb(1) show ?thesis by blast
qed

theorem num_fmt_stoi_roundtrip_witness:
  "\<exists>pb. num_fmt (scast (42 :: u32)) 10 0 32 False (- 1) = Some pb \<and>
    (num_chars pb = [52, 50] \<longrightarrow> (\<exists>m'. stoi 200 demo_text = Some (42, m')))"
  using num_fmt_stoi_roundtrip [of 42] demo_cstrings(2) by metis

lemma vsnprintf_literals:
  assumes c: "cstring m fmt xs" and lit: "37 \<notin> set xs" and s: "separate buf (length xs) fmt (length xs)"
    and len: "len \<noteq> 0"
  shows "i + k = length xs \<Longrightarrow>
    vsnprintf_loop (fmt + of_nat i) args (copied m buf fmt i, buf + of_nat i, len) =
      Some (copied m buf fmt (length xs), buf + of_nat (length xs), len)"
proof (induction k arbitrary: i)
  case 0
  have "copied m buf fmt i (fmt + of_nat i) = 0"
    using separate_not_in [OF s, of i i] 0 cstring_end [OF c] by (simp add: copied_def)
  then show ?case using 0 by (subst vsnprintf_loop.simps) simp
next
  case (Suc k)
  have i: "i < length xs" "i < 18446744073709551616" using Suc.prems cstring_length [OF c] by simp_all
  have rd: "copied m buf fmt i (fmt + of_nat i) = xs ! i"
    using separate_not_in [OF s, of i i] i cstring_nth [OF c i(1)] by (simp add: copied_def)
  have nz: "xs ! i \<noteq> 0" "xs ! i \<noteq> 37" using cstring_nonzero [OF c i(1)] lit i(1) by (auto simp: in_set_conv_nth)
  have st: "(copied m buf fmt i)(buf + of_nat i := xs ! i) = copied m buf fmt (Suc i)"
    using copied_Suc [OF i(2), of m buf fmt] cstring_nth [OF c i(1)] by simp
  have nx: "fmt + of_nat i + 1 = fmt + of_nat (Suc i)" "buf + of_nat i + 1 = buf + of_nat (Suc i)"
    by (simp_all add: algebra_simps)
  have "vsnprintf_loop (fmt + of_nat i) args (copied m buf fmt i, buf + of_nat i, len) =
      vsnprintf_loop (fmt + of_nat (Suc i)) args (copied m buf fmt (Suc i), buf + of_nat (Suc i), len)"
    by (subst vsnprintf_loop.simps) (simp only: prod.case rd nz len st nx simp_thms if_False if_True not_False_eq_True)
  with Suc.IH [of "Suc i"] Suc.prems show ?case by simp
qed

text \<open>
  The bound of \<^verbatim>\<open>vsnprintf\<close> does not hold for literal text: a format of \<open>n\<close> characters
  without a \<^verbatim>\<open>%\<close> is written in full with its terminator, \<open>n + 1\<close> bytes, whatever the given
  length of the buffer (not 0) is.
\<close>

theorem vsnprintf_literal_ignores_length:
  assumes "cstring m fmt xs" and "37 \<notin> set xs" and "separate buf (length xs) fmt (length xs)"
    and "len \<noteq> 0"
  shows "\<exists>m'. vsnprintf buf len fmt args m = Some m' \<and>
    (\<forall>x. m' x = (if in_region x buf (length xs) then m (fmt + (x - buf))
      else if x = buf + of_nat (length xs) then 0 else m x))"
proof -
  have "(copied m buf fmt 0) = m" by (simp add: copied_def)
  then have "vsnprintf_loop fmt args (m, buf, len) =
      Some (copied m buf fmt (length xs), buf + of_nat (length xs), len)"
    using vsnprintf_literals [OF assms, of 0 "length xs" args] by simp
  then have "vsnprintf buf len fmt args m =
      Some ((copied m buf fmt (length xs))(buf + of_nat (length xs) := 0))"
    using assms(4) by (simp add: vsnprintf_def)
  moreover have "\<not> in_region (buf + of_nat (length xs)) buf (length xs)"
    using cstring_length [OF assms(1)] by (simp add: in_region_def)
  ultimately show ?thesis by (auto simp: copied_def in_region_def)
qed

theorem vsnprintf_literal_ignores_length_witness:
  "\<exists>m'. vsnprintf 400 1 200 [] demo_text = Some m' \<and> m' 400 = 52 \<and> m' 401 = 50"
proof -
  have "separate 400 (length [52, 50 :: u8]) 200 (length [52, 50 :: u8])"
    by (auto simp: separate_def le_Suc_eq)
  moreover have "demo_text 200 = 52" "demo_text 201 = 50" by (simp_all add: demo_text_def)
  ultimately show ?thesis
    using vsnprintf_literal_ignores_length [OF demo_cstrings(2), of 400 1 "[]"] by (auto simp: in_region_def)
qed

end
