(* ===== verification/Demo.thy ===== *)
theory Demo
  imports Acpi Isr Tty_Props
begin

text \<open>
  A small machine on which the properties of the device code are tried: one I/O APIC with 24
  pins at the address \<open>0xFEC00000\<close>, whose first request is 16, and no other device.  The
  state of the devices is the selected register of the I/O APIC with the content of all; the
  machine is also used with the devices of other properties.
\<close>

definition demo_bus :: "(u32 \<times> (u32 \<Rightarrow> u32)) bus" where
  "demo_bus = \<lparr>dev_inb = \<lambda>_ d. (0, d), dev_outb = \<lambda>_ _ d. d, dev_inw = \<lambda>_ d. (0, d), dev_outw = \<lambda>_ _ d. d,
     dev_inl = \<lambda>_ d. (0, d), dev_outl = \<lambda>_ _ d. d,
     dev_read32 = \<lambda>a d. (if a = 0xFEC00010 then snd d (fst d) else 0, d),
     dev_write32 = \<lambda>a v d. (if a = 0xFEC00000 then (v, snd d)
       else if a = 0xFEC00010 then (fst d, (snd d)(fst d := v)) else d),
     dev_cpuid = \<lambda>_ _. (0, 0, 0, 0), dev_rdmsr = \<lambda>_ _. (0, 0), dev_wrmsr = \<lambda>_ _ d. d, dev_cr2 = \<lambda>_. 0\<rparr>"

definition demo_frame :: frame where
  "demo_frame = \<lparr>printf_buf = 0xA000, literal = 0xB000, local_char = 0xC000, prompt = 0xD000\<rparr>"

definition no_ioapic :: ioapic_t where
  "no_ioapic = \<lparr>ioapic_id = 0, ioapic_addr = 0, global_system_interrupt_base = 0, max_redirections = 0\<rparr>"

definition demo_ioapic :: ioapic_t where
  "demo_ioapic = \<lparr>ioapic_id = 0, ioapic_addr = 0xFEC00000, global_system_interrupt_base = 16, max_redirections = 23\<rparr>"

definition demo_files :: files_state where
  "demo_files = tty_state.extend demo_tty (files_state.fields True 0 3 [])"

definition machine_with :: "'d \<Rightarrow> 'd machine_state" where
  "machine_with d = files_state.extend demo_files (machine_state.fields d True False
     (replicate 8 \<lparr>limit_0 = 0, base_0 = 0, base_1 = 0, access = 0, limit_1 = 0, gdt_flags = 0, base_2 = 0\<rparr>)
     \<lparr>gdtr_size = 0, gdtr_base = 0\<rparr>
     (replicate 256 \<lparr>isr_0 = 0, kernel_cs = 0, ist = 0, idt_flags = 0, isr_1 = 0, isr_2 = 0, idt_reserved = 0\<rparr>)
     \<lparr>idtr_limit = 0, idtr_base = 0\<rparr> (replicate 256 0) (replicate 256 (replicate 4 null)) True)"

definition apic_with :: "'d \<Rightarrow> 'd apic_state" where
  "apic_with d = machine_state.extend (machine_with d) (apic_state.fields 0xFEE00000
     (replicate 16 \<lparr>cpu_id = 0, lapic_id = 0, lapic_flags = 0\<rparr>) (demo_ioapic # replicate 255 no_ioapic) 0 False 0 False)"

definition kernel_with :: "'d \<Rightarrow> 'd acpi_state" where
  "kernel_with d = keyboard_state.extend
     (timer_state.extend (apic_state.extend (apic_with d) (timer_state.fields True False))
       (keyboard_state.fields False
         \<lparr>capslock = False, numlock = False, scroll_lock = False, shift = False, ctrl = False, altgr = False, alt = False,
          fn_key = False, key_layout = \<lparr>layout_type = no_layout, layout_map = replicate 95 0\<rparr>, key_source = ps2\<rparr> True False False 0))
     (acpi_state.fields 0 0 0 0 0 0 False)"

definition demo_kernel :: "(u32 \<times> (u32 \<Rightarrow> u32)) acpi_state" where
  "demo_kernel = kernel_with (0, \<lambda>r. if r = 1 then 0x170011 else 0)"

lemmas demo_defs = demo_kernel_def kernel_with_def apic_with_def machine_with_def demo_files_def demo_tty_def
  keyboard_state.extend_def timer_state.extend_def apic_state.extend_def machine_state.extend_def files_state.extend_def
  tty_state.extend_def keyboard_state.fields_def timer_state.fields_def apic_state.fields_def machine_state.fields_def
  files_state.fields_def acpi_state.fields_def

lemma demo_kernel_facts [simp]:
  "device demo_kernel = (0, \<lambda>r. if r = 1 then 0x170011 else 0)"
  "isr_hooks demo_kernel = replicate 256 (replicate 4 null)"
  "length (idt demo_kernel) = 256"
  "system_ioapics demo_kernel = demo_ioapic # replicate 255 no_ioapic"
  "pit_ready demo_kernel" "vmem demo_kernel = (\<lambda>_. 0)" "nmi_enabled demo_kernel"
  by (simp_all add: demo_defs)

end
