(* ===== verification/Apic_Props.thy ===== *)
theory Apic_Props
  imports Demo
begin

text \<open>
  The I/O APICs: the table of descriptors is well-formed, so that no operation panics, and
  what an interrupt routing rule puts into the redirection registers of the device.
\<close>

section \<open>The table of descriptors\<close>

text \<open>A descriptor in use lies at the place of its identifier.\<close>

definition ioapics_ok :: "('d, 'z) apic_state_scheme \<Rightarrow> bool" where [inv_defs]:
  "ioapics_ok s \<longleftrightarrow> length (system_ioapics s) = 256 \<and>
     (\<forall>i<256. ioapic_addr (system_ioapics s ! i) \<noteq> 0 \<longrightarrow> unat (ioapic_id (system_ioapics s ! i)) = i)"

definition serves :: "ioapic_t \<Rightarrow> u8 \<Rightarrow> bool" where
  "serves io n \<longleftrightarrow> ioapic_addr io \<noteq> 0 \<and> global_system_interrupt_base io \<le> ucast n \<and>
     ucast n - global_system_interrupt_base io < ucast (max_redirections io)"

lemma ioapic_by_irq_step:
  "ioapic_by_irq_from i (Suc k) n xs = (if serves (xs ! i) n then Some i else ioapic_by_irq_from (Suc i) k n xs)"
  by (simp add: Let_def serves_def)

lemma ioapic_by_irq_from_Some:
  "ioapic_by_irq_from i k n xs = Some j \<Longrightarrow> i \<le> j \<and> j < i + k \<and> serves (xs ! j) n"
proof (induction k arbitrary: i)
  case (Suc k)
  then show ?case
    by (cases "serves (xs ! i) n") (fastforce simp: ioapic_by_irq_step simp del: ioapic_by_irq_from.simps)+
qed simp

lemma ioapic_by_irq_from_None:
  "ioapic_by_irq_from i k n xs = None \<longleftrightarrow> (\<forall>j. i \<le> j \<and> j < i + k \<longrightarrow> \<not> serves (xs ! j) n)"
proof (induction i k n xs rule: ioapic_by_irq_from.induct)
  case (2 i k n xs)
  have "(\<forall>j. i \<le> j \<and> j < i + Suc k \<longrightarrow> \<not> serves (xs ! j) n) \<longleftrightarrow>
      \<not> serves (xs ! i) n \<and> (\<forall>j. Suc i \<le> j \<and> j < Suc i + k \<longrightarrow> \<not> serves (xs ! j) n)"
    by (auto simp: Suc_le_eq) (metis le_neq_implies_less)
  then show ?case using 2 by (auto simp: Let_def serves_def)
qed auto

lemma get_ioapic_by_irq_Some:
  assumes "get_ioapic_by_irq n s = Some io"
  shows "\<exists>j<256. io = system_ioapics s ! j \<and> serves io n"
  using assms ioapic_by_irq_from_Some [of 0 256 n "system_ioapics s"] by (auto simp: get_ioapic_by_irq_def)

lemma get_ioapic_by_irq_None:
  "get_ioapic_by_irq n s = None \<longleftrightarrow> (\<forall>j<256. \<not> serves (system_ioapics s ! j) n)"
  by (auto simp: get_ioapic_by_irq_def ioapic_by_irq_from_None)

text \<open>The descriptor that the operations look up again by its identifier.\<close>

lemma serving_ioapic:
  assumes "ioapics_ok s" and "get_ioapic_by_irq n s = Some io"
  shows "system_ioapics s ! unat (ioapic_id io) = io" "ioapic_addr io \<noteq> 0" "serves io n"
proof -
  from get_ioapic_by_irq_Some [OF assms(2)] obtain j where j: "j < 256" "io = system_ioapics s ! j" "serves io n"
    by blast
  then show "ioapic_addr io \<noteq> 0" "serves io n" by (simp_all add: serves_def)
  with j assms(1) have "unat (ioapic_id io) = j" by (simp add: ioapics_ok_def)
  with j show "system_ioapics s ! unat (ioapic_id io) = io" by simp
qed

text \<open>A change of the device does not concern the table.\<close>

lemma ioapics_device [simp]: "get_ioapic_by_irq n (s\<lparr>device := d\<rparr>) = get_ioapic_by_irq n s"
  "ioapics_ok (s\<lparr>device := d\<rparr>) = ioapics_ok s"
  by (simp_all add: get_ioapic_by_irq_def ioapics_ok_def)

section \<open>Accesses to a device\<close>

text \<open>
  A device at an address: writing the address selects a register, and the selected register
  is read and written at the address plus 16.  \<open>sel\<close> is the selected register and \<open>regs\<close>
  the content of all.
\<close>

definition indexed_registers :: "'d bus \<Rightarrow> u64 \<Rightarrow> u64 \<Rightarrow> ('d \<Rightarrow> u32) \<Rightarrow> ('d \<Rightarrow> u32 \<Rightarrow> u32) \<Rightarrow> bool" where
  "indexed_registers B a w sel regs \<longleftrightarrow>
     (\<forall>d v. sel (dev_write32 B a v d) = v \<and> regs (dev_write32 B a v d) = regs d) \<and>
     (\<forall>d v. regs (dev_write32 B w v d) = (regs d)(sel d := v)) \<and>
     (\<forall>d. fst (dev_read32 B w d) = regs d (sel d) \<and> regs (snd (dev_read32 B w d)) = regs d)"

definition ioapic_device :: "'d bus \<Rightarrow> ioapic_t \<Rightarrow> ('d \<Rightarrow> u32) \<Rightarrow> ('d \<Rightarrow> u32 \<Rightarrow> u32) \<Rightarrow> bool" where
  "ioapic_device B io = indexed_registers B (ucast (ioapic_addr io)) (ucast (ioapic_addr io + 0x10))"

text \<open>The state of the device after a read and after a write of a register.\<close>

definition after_read :: "'d bus \<Rightarrow> ioapic_t \<Rightarrow> u32 \<Rightarrow> 'd \<Rightarrow> 'd" where
  "after_read B io r d = snd (dev_read32 B (ucast (ioapic_addr io + 0x10)) (dev_write32 B (ucast (ioapic_addr io)) (r AND 0xFF) d))"

definition read_value :: "'d bus \<Rightarrow> ioapic_t \<Rightarrow> u32 \<Rightarrow> 'd \<Rightarrow> u32" where
  "read_value B io r d = fst (dev_read32 B (ucast (ioapic_addr io + 0x10)) (dev_write32 B (ucast (ioapic_addr io)) (r AND 0xFF) d))"

definition after_write :: "'d bus \<Rightarrow> ioapic_t \<Rightarrow> u32 \<Rightarrow> u32 \<Rightarrow> 'd \<Rightarrow> 'd" where
  "after_write B io r v d = dev_write32 B (ucast (ioapic_addr io + 0x10)) v (dev_write32 B (ucast (ioapic_addr io)) (r AND 0xFF) d)"

lemma ioapic_read_eq:
  assumes "system_ioapics s ! unat (ioapic_id io) = io"
  shows "ioapic_read B (ioapic_id io) r s =
    Some (read_value B io r (device s), s\<lparr>device := after_read B io r (device s)\<rparr>)"
  using assms by (simp add: ioapic_read_def read32_def write32_def Let_def read_value_def after_read_def case_prod_beta)

lemma ioapic_write_eq:
  assumes "system_ioapics s ! unat (ioapic_id io) = io"
  shows "ioapic_write B (ioapic_id io) r v s = Some (s\<lparr>device := after_write B io r v (device s)\<rparr>)"
  using assms by (simp add: ioapic_write_def write32_def Let_def after_write_def)

lemma device_laws:
  assumes "ioapic_device B io sel regs"
  shows "read_value B io r d = regs d (r AND 0xFF)" "regs (after_read B io r d) = regs d"
    "regs (after_write B io r v d) = (regs d)(r AND 0xFF := v)"
  using assms by (simp_all add: ioapic_device_def indexed_registers_def read_value_def after_read_def after_write_def)

section \<open>Routing rules\<close>

definition redirection :: "u8 \<Rightarrow> u32" where
  "redirection n = 0x10 + 2 * ucast n"

text \<open>The words that \<^verbatim>\<open>apic_irq\<close> composes.\<close>

definition rule_lo :: "u32 \<Rightarrow> u8 \<Rightarrow> ioapic_int_delivery_mode_t \<Rightarrow> u8 \<Rightarrow> u8 \<Rightarrow> u8 \<Rightarrow> bool \<Rightarrow> u32" where
  "rule_lo old vec mode dm pol trig masked =
     old AND 0xFFFE5000 OR (ucast vec AND 0xFF) OR push_bit 8 (delivery_code mode AND 7) OR push_bit 11 (ucast dm AND 1) OR
     push_bit 13 (ucast pol AND 1) OR push_bit 15 (ucast trig AND 1) OR push_bit 16 (of_bool masked AND 1)"

definition rule_hi :: "u32 \<Rightarrow> u8 \<Rightarrow> u32" where
  "rule_hi old dest = old AND 0xF0FFFFFF OR push_bit 24 (ucast dest AND 0x0F)"

lemma apic_irq_eq:
  assumes ok: "ioapics_ok s" and io: "get_ioapic_by_irq n s = Some io"
  shows "apic_irq B n vec mode dm pol trig masked dest s =
    (let r = redirection n; d = device s; lo = read_value B io r d; d = after_read B io r d;
         hi = read_value B io (r + 1) d; d = after_read B io (r + 1) d;
         d = after_write B io r (rule_lo lo vec mode dm pol trig masked) d;
         d = after_write B io (r + 1) (rule_hi hi dest) d
     in Some (True, s\<lparr>device := d\<rparr>))"
  using serving_ioapic [OF ok io]
  by (simp add: apic_irq_def io Let_def ioapic_read_eq ioapic_write_eq redirection_def rule_lo_def rule_hi_def or.assoc)

lemma apic_clear_irq_eq:
  assumes ok: "ioapics_ok s" and io: "get_ioapic_by_irq n s = Some io"
  shows "apic_clear_irq B n s =
    Some (True, s\<lparr>device := after_write B io (redirection n + 1) 0 (after_write B io (redirection n) (push_bit 16 1) (device s))\<rparr>)"
  using serving_ioapic [OF ok io] by (simp add: apic_clear_irq_def io ioapic_write_eq redirection_def)

lemma apic_set_mask_eq:
  assumes ok: "ioapics_ok s" and io: "get_ioapic_by_irq n s = Some io"
  shows "apic_set_mask B n masked s =
    (let r = redirection n; d = device s; lo = read_value B io r d; d = after_read B io r d
     in Some (True, s\<lparr>device := after_write B io r (lo AND 0xFFFEFFFF OR push_bit 16 (of_bool masked AND 1)) d\<rparr>))"
  using serving_ioapic [OF ok io] by (simp add: apic_set_mask_def io Let_def ioapic_read_eq ioapic_write_eq redirection_def)

text \<open>No operation on the routing rules panics, and only the device changes.\<close>

lemma apic_set_mask_total:
  assumes "ioapics_ok s"
  shows "\<exists>ok d. apic_set_mask B n masked s = Some (ok, s\<lparr>device := d\<rparr>)"
proof (cases "get_ioapic_by_irq n s")
  case None
  then show ?thesis by (intro exI [of _ False] exI [of _ "device s"]) (simp add: apic_set_mask_def)
next
  case (Some io)
  show ?thesis by (rule exI [of _ True]) (simp add: apic_set_mask_eq [OF assms Some] Let_def, blast)
qed

lemma rule_lo_bits:
  "bit (rule_lo old vec mode dm pol trig masked) 11 = bit dm 0"
  "bit (rule_lo old vec mode dm pol trig masked) 13 = bit pol 0"
  "bit (rule_lo old vec mode dm pol trig masked) 15 = bit trig 0"
  "bit (rule_lo old vec mode dm pol trig masked) 16 = masked"
  by (simp_all add: rule_lo_def bit_simps)

lemma rule_lo_vector: "take_bit 8 (rule_lo old vec mode dm pol trig masked) = ucast vec"
proof -
  have m: "x AND 255 = take_bit 8 x" for x :: u32 by (simp add: take_bit_eq_mask mask_eq_exp_minus_1)
  have "take_bit 8 (ucast vec :: u32) = ucast vec" by (rule bit_eqI) (auto simp: bit_simps dest: bit_imp_le_length)
  then show ?thesis by (simp add: rule_lo_def take_bit_or take_bit_and take_bit_push_bit m)
qed

lemma rule_lo_mode: "take_bit 3 (drop_bit 8 (rule_lo old vec mode dm pol trig masked)) = delivery_code mode"
  by (cases mode) (simp_all add: rule_lo_def take_bit_or take_bit_and drop_bit_or drop_bit_and)

lemma rule_hi_destination: "take_bit 4 (drop_bit 24 (rule_hi old dest)) = ucast dest AND 0xF"
proof -
  have m: "x AND 0xF = take_bit 4 x" for x :: u32 by (simp add: take_bit_eq_mask mask_eq_exp_minus_1)
  have "take_bit 4 (drop_bit 24 (push_bit 24 (take_bit 4 x))) = take_bit 4 x" for x :: u32
    by (rule bit_eqI) (auto simp: bit_simps)
  moreover have "take_bit 4 (drop_bit 24 (0xF0FFFFFF :: u32)) = 0" by simp
  ultimately show ?thesis by (simp only: rule_hi_def take_bit_or take_bit_and drop_bit_or drop_bit_and m) simp
qed

text \<open>The two registers of a request: the device sees the low byte of the numbers.\<close>

lemma unat_register: "unat (x :: u32) < 256 \<Longrightarrow> unat (0x10 + 2 * x) = 16 + 2 * unat x"
  by (simp add: unat_word_ariths)

lemma unat_redirection: "unat (redirection n) = 16 + 2 * unat n"
  unfolding redirection_def by (subst unat_register) simp_all

lemma unat_and_255: "unat ((x :: u32) AND 0xFF) = unat x mod 256"
proof -
  have "x AND 0xFF = take_bit 8 x" by (simp add: take_bit_eq_mask mask_eq_exp_minus_1)
  then have "unat (x AND 0xFF) = take_bit 8 (unat x)" by (simp only: unsigned_take_bit_eq)
  then show ?thesis by (simp add: take_bit_eq_mod)
qed

lemma unat_redirection_low:
  "unat (redirection n AND 0xFF) = (16 + 2 * unat n) mod 256"
  "unat ((redirection n + 1) AND 0xFF) = (17 + 2 * unat n) mod 256"
proof -
  have "unat (redirection n + 1) = 17 + 2 * unat n"
    using unat_Suc_less [of "redirection n" "0xFFFF"] unat_less_8 [of n]
    by (simp add: word_less_nat_alt unat_redirection)
  then show "unat (redirection n AND 0xFF) = (16 + 2 * unat n) mod 256"
    "unat ((redirection n + 1) AND 0xFF) = (17 + 2 * unat n) mod 256"
    by (simp_all add: unat_and_255 unat_redirection)
qed

lemma odd_even_mod_256: "odd a \<Longrightarrow> even b \<Longrightarrow> a mod 256 \<noteq> b mod (256 :: nat)"
proof
  assume a: "odd a" "even b" "a mod 256 = b mod 256"
  have "even (x mod 256) = even x" for x :: nat by (rule dvd_mod_iff) simp
  with a show False by metis
qed

lemma redirection_registers: "(redirection n + 1) AND 0xFF \<noteq> redirection n AND 0xFF"
proof -
  have "(17 + 2 * unat n) mod 256 \<noteq> (16 + 2 * unat n) mod 256" by (rule odd_even_mod_256) simp_all
  then show ?thesis by (metis unat_redirection_low)
qed

lemma wrong_pin_nat:
  assumes "b \<noteq> 0" "b \<noteq> 128" "b \<le> n" "n < (256 :: nat)"
  shows "16 + 2 * (n - b) \<noteq> (16 + 2 * n) mod 256" "16 + 2 * (n - b) \<noteq> (17 + 2 * n) mod 256"
proof -
  show "16 + 2 * (n - b) \<noteq> (16 + 2 * n) mod 256"
  proof
    assume e: "16 + 2 * (n - b) = (16 + 2 * n) mod 256"
    have "(16 + 2 * n) div 256 * 256 + (16 + 2 * n) mod 256 = 16 + 2 * n" by (rule div_mult_mod_eq)
    with e assms(3) have "b = 128 * ((16 + 2 * n) div 256)" by linarith
    moreover from this assms have "(16 + 2 * n) div 256 < 2" "(16 + 2 * n) div 256 \<noteq> 0" "(16 + 2 * n) div 256 \<noteq> 1"
      by linarith+
    ultimately show False by linarith
  qed
  show "16 + 2 * (n - b) \<noteq> (17 + 2 * n) mod 256"
  proof
    assume "16 + 2 * (n - b) = (17 + 2 * n) mod 256"
    then have "even ((17 + 2 * n) mod 256)" by (metis even_add even_mult_iff even_numeral)
    moreover have "even ((17 + 2 * n) mod 256) = even (17 + 2 * n)" by (rule dvd_mod_iff) simp
    ultimately show False by simp
  qed
qed

lemma wrong_pin:
  assumes "b \<noteq> 0" "b \<noteq> 128" "b \<le> ucast n"
  shows "0x10 + 2 * (ucast n - b) \<noteq> redirection n AND 0xFF" "0x10 + 2 * (ucast n - b) \<noteq> (redirection n + 1) AND 0xFF"
proof -
  have b: "unat b \<noteq> 0" "unat b \<le> unat n" using assms by (simp_all add: unat_eq_zero word_le_nat_alt)
  have b128: "unat b \<noteq> 128"
  proof
    assume "unat b = 128"
    then have "unat b = unat (128 :: u32)" by simp
    with assms(2) show False by (simp only: word_unat_eq_iff [symmetric])
  qed
  have "unat (ucast n - b) = unat n - unat b" using assms(3) by (simp add: unat_sub)
  moreover from this have "unat (ucast n - b) < 256" using unat_less_8 [of n] by linarith
  ultimately have "unat (0x10 + 2 * (ucast n - b)) = 16 + 2 * (unat n - unat b)"
    by (simp only: unat_register)
  then show "0x10 + 2 * (ucast n - b) \<noteq> redirection n AND 0xFF"
    "0x10 + 2 * (ucast n - b) \<noteq> (redirection n + 1) AND 0xFF"
    using wrong_pin_nat [OF b(1) b128 b(2) unat_less_8] by (metis unat_redirection_low)+
qed

lemma demo_ioapics [simp]: "ioapics_ok demo_kernel"
  by (auto simp: ioapics_ok_def demo_ioapic_def no_ioapic_def nth_Cons' split: if_splits)

lemma demo_serves: "serves (system_ioapics demo_kernel ! j) n \<Longrightarrow> j < 256 \<Longrightarrow> j = 0"
  by (auto simp: serves_def no_ioapic_def nth_Cons' split: if_splits)

lemma demo_get_ioapic [simp]: "get_ioapic_by_irq 18 demo_kernel = Some demo_ioapic"
proof -
  have "serves (system_ioapics demo_kernel ! 0) 18" by (simp add: serves_def demo_ioapic_def)
  then have "get_ioapic_by_irq 18 demo_kernel \<noteq> None" by (subst get_ioapic_by_irq_None) (auto intro: exI [of _ 0])
  then obtain io where io: "get_ioapic_by_irq 18 demo_kernel = Some io" by auto
  from get_ioapic_by_irq_Some [OF this] demo_serves have "io = system_ioapics demo_kernel ! 0" by blast
  with io show ?thesis by simp
qed

lemma demo_device [simp]: "ioapic_addr io = 0xFEC00000 \<Longrightarrow> ioapic_device demo_bus io fst snd"
  by (simp add: ioapic_device_def indexed_registers_def demo_bus_def)

text \<open>
  C37: A routing rule for any interrupt request that a well-formed table of I/O APICs serves,
  on a device with indexed registers: \<^verbatim>\<open>apic_irq\<close> returns true and the two registers
  \<open>0x10 + 2 * irq\<close> and \<open>0x10 + 2 * irq + 1\<close>, both modulo 256, hold the vector, the delivery
  mode, the destination mode, polarity, trigger mode and mask bit, and the destination it was given; no
  other register changes.  From request 120 on the numbers wrap around: request 120 programs
  the registers 0 and 1, which are no redirection entries.  The register is chosen by the
  number of the request and not by the pin \<open>irq - base\<close>: for an I/O APIC with a base other
  than 0, and other than 128, where the two agree modulo 256, the entry of the pin keeps its old content.
\<close>

theorem apic_irq_programs:
  assumes ok: "ioapics_ok s" and io: "get_ioapic_by_irq n s = Some io"
    and d: "ioapic_device B io sel regs"
  shows "\<exists>t. apic_irq B n vec mode dm pol trig masked dest s = Some (True, t) \<and>
    (let lo = regs (device t) (redirection n AND 0xFF); hi = regs (device t) ((redirection n + 1) AND 0xFF)
     in take_bit 8 lo = ucast vec \<and> take_bit 3 (drop_bit 8 lo) = delivery_code mode \<and> bit lo 11 = bit dm 0 \<and>
        bit lo 13 = bit pol 0 \<and> bit lo 15 = bit trig 0 \<and> bit lo 16 = masked \<and>
        take_bit 4 (drop_bit 24 hi) = ucast dest AND 0xF) \<and>
    (\<forall>r. r \<noteq> redirection n AND 0xFF \<and> r \<noteq> (redirection n + 1) AND 0xFF \<longrightarrow>
      regs (device t) r = regs (device s) r) \<and>
    (global_system_interrupt_base io \<noteq> 0 \<and> global_system_interrupt_base io \<noteq> 128 \<longrightarrow>
      (let pin = 0x10 + 2 * (ucast n - global_system_interrupt_base io)
       in regs (device t) pin = regs (device s) pin))"
proof -
  let ?r = "redirection n AND 0xFF" and ?q = "(redirection n + 1) AND 0xFF"
  note laws = device_laws [OF d]
  let ?lo = "rule_lo (regs (device s) ?r) vec mode dm pol trig masked" and ?hi = "rule_hi (regs (device s) ?q) dest"
  obtain e where e: "apic_irq B n vec mode dm pol trig masked dest s = Some (True, s\<lparr>device := e\<rparr>)"
    "regs e = (regs (device s))(?r := ?lo, ?q := ?hi)"
    unfolding apic_irq_eq [OF ok io] Let_def by (simp add: laws)
  moreover have "global_system_interrupt_base io \<le> ucast n"
    using serving_ioapic(3) [OF ok io] by (simp add: serves_def)
  ultimately show ?thesis
    using wrong_pin [of "global_system_interrupt_base io" n] redirection_registers [of n]
    by (intro exI [of _ "s\<lparr>device := e\<rparr>"])
      (simp add: Let_def rule_lo_bits rule_lo_vector rule_lo_mode rule_hi_destination)
qed

theorem apic_irq_programs_witness:
  "\<exists>t. apic_irq demo_bus 18 0x30 low_priority 0 1 0 True 2 demo_kernel = Some (True, t) \<and>
    take_bit 8 (snd (device t) 52) = 0x30 \<and> bit (snd (device t) 52) 16 \<and> snd (device t) 20 = 0"
  using apic_irq_programs [OF demo_ioapics demo_get_ioapic demo_device, where vec = "0x30" and mode = low_priority and dm = 0 and pol = 1 and trig = 0 and masked = True and dest = 2]
  by (auto simp: demo_ioapic_def redirection_def Let_def)

section \<open>Registering an I/O APIC\<close>

lemma save_ioapic_info_eq:
  fixes s :: "('d, 'z) apic_state_scheme" and n :: u8 and addr gsib :: u32
  assumes ok: "ioapics_ok s"
  defines "io \<equiv> (system_ioapics s ! unat n)\<lparr>ioapic_id := n, ioapic_addr := addr, global_system_interrupt_base := gsib\<rparr>"
  shows "save_ioapic_info B n addr gsib s = Some (s\<lparr>device := after_read B io 1 (device s),
    system_ioapics := (system_ioapics s)[unat n :=
      io\<lparr>max_redirections := ucast (drop_bit 16 (read_value B io 1 (device s)) AND 0xFF)\<rparr>]\<rparr>)"
proof -
  let ?s = "s\<lparr>system_ioapics := (system_ioapics s)[unat n := io]\<rparr>"
  have "unat n < length (system_ioapics s)" using ok by (simp add: ioapics_ok_def)
  then have "system_ioapics ?s ! unat (ioapic_id io) = io" "ioapic_id io = n" by (simp_all add: io_def)
  from ioapic_read_eq [OF this(1), of B 1, unfolded this(2)] show ?thesis
    by (simp add: save_ioapic_info_def Let_def io_def [symmetric])
qed

lemma save_ioapic_info_total:
  fixes s :: "('d, 'z) apic_state_scheme"
  assumes ok: "ioapics_ok s"
  shows "\<exists>t. save_ioapic_info B n addr gsib s = Some t \<and> vmem t = vmem s \<and> ioapics_ok t"
  using ok by (auto simp: save_ioapic_info_eq ioapics_ok_def nth_list_update)

text \<open>
  Registering an I/O APIC in a well-formed table never panics, keeps the table
  well-formed, and stores at the place of its identifier the address and the base it was
  given and, for a device with indexed registers, the number in bits 16 to 23 of register 1;
  no other descriptor changes.
\<close>

theorem save_ioapic_info_ok:
  assumes ok: "ioapics_ok s"
  shows "\<exists>t. save_ioapic_info B n addr gsib s = Some t \<and> ioapics_ok t \<and>
    (let io = system_ioapics t ! unat n
     in ioapic_id io = n \<and> ioapic_addr io = addr \<and> global_system_interrupt_base io = gsib \<and>
        (ioapic_device B io sel regs \<longrightarrow> max_redirections io = ucast (take_bit 8 (drop_bit 16 (regs (device s) 1))))) \<and>
    (\<forall>i. i \<noteq> unat n \<longrightarrow> system_ioapics t ! i = system_ioapics s ! i)"
proof -
  let ?io = "(system_ioapics s ! unat n)\<lparr>ioapic_id := n, ioapic_addr := addr, global_system_interrupt_base := gsib\<rparr>"
  let ?io' = "?io\<lparr>max_redirections := ucast (drop_bit 16 (read_value B ?io 1 (device s)) AND 0xFF)\<rparr>"
  have l: "unat n < length (system_ioapics s)" using ok by (simp add: ioapics_ok_def)
  have max: "max_redirections ?io' = ucast (take_bit 8 (drop_bit 16 (regs (device s) 1)))"
    if "ioapic_device B ?io' sel regs"
  proof -
    have "ioapic_device B ?io sel regs" using that by (simp add: ioapic_device_def)
    from device_laws(1) [OF this] show ?thesis by (simp add: take_bit_eq_mask mask_eq_exp_minus_1)
  qed
  let ?t = "s\<lparr>device := after_read B ?io 1 (device s), system_ioapics := (system_ioapics s)[unat n := ?io']\<rparr>"
  have t: "save_ioapic_info B n addr gsib s = Some ?t" by (rule save_ioapic_info_eq [OF ok])
  moreover have "ioapics_ok ?t" using save_ioapic_info_total [OF ok, of B n addr gsib] t by auto
  ultimately show ?thesis using l max by (intro exI [of _ ?t]) (simp add: Let_def)
qed

theorem save_ioapic_info_ok_witness:
  "\<exists>t. save_ioapic_info demo_bus 3 0xFEC00000 40 demo_kernel = Some t \<and> ioapics_ok t \<and>
    max_redirections (system_ioapics t ! 3) = 0x17"
proof -
  have "unat (3 :: u8) = 3" by simp
  with save_ioapic_info_ok [OF demo_ioapics, where B = demo_bus and n = 3 and addr = "0xFEC00000" and gsib = 40 and sel = fst and regs = snd] show ?thesis
    by (fastforce simp: Let_def)
qed

text \<open>
  The last pin of an I/O APIC cannot be used: \<^verbatim>\<open>max_redirections\<close> is the number of its
  last redirection entry and the search takes it for their count.  Unless another I/O APIC
  serves the request of that pin, routing, clearing and masking it return false without a
  change.
\<close>

theorem ioapic_last_pin:
  assumes io: "io = system_ioapics s ! i" "i < 256"
    and n: "ucast n = global_system_interrupt_base io + ucast (max_redirections io)"
    and other: "\<forall>j<256. j \<noteq> i \<longrightarrow> \<not> serves (system_ioapics s ! j) n"
  shows "apic_irq B n vec mode dm pol trig masked dest s = Some (False, s) \<and> apic_clear_irq B n s = Some (False, s) \<and>
    apic_set_mask B n masked s = Some (False, s)"
proof -
  have "\<not> serves io n" using n by (simp add: serves_def)
  with io other have "get_ioapic_by_irq n s = None" by (auto simp: get_ioapic_by_irq_None)
  then show ?thesis by (simp add: apic_irq_def apic_clear_irq_def apic_set_mask_def)
qed

theorem ioapic_last_pin_witness: "apic_irq demo_bus 39 0x30 fixed_mode 0 0 0 False 0 demo_kernel = Some (False, demo_kernel)"
proof -
  have "\<forall>j<256. j \<noteq> 0 \<longrightarrow> \<not> serves (system_ioapics demo_kernel ! j) 39" using demo_serves by blast
  from ioapic_last_pin [OF _ _ _ this, where io = demo_ioapic and B = demo_bus and vec = "0x30" and mode = fixed_mode and dm = 0 and pol = 0 and trig = 0 and masked = False and dest = 0]
  show ?thesis by (simp add: demo_ioapic_def)
qed

end
