(* ===== verification/Interrupts_Props.thy ===== *)
theory Interrupts_Props
  imports Apic_Props
begin

text \<open>
  The interrupt table and the hooks: which vectors get a gate, that a hook can be undone, that
  the handlers of a vector run in the order of their places, and that a \<^verbatim>\<open>sleep\<close> whose
  ticks arrive ends and leaves the hooks as they were.
\<close>

section \<open>Gates\<close>

text \<open>The address a gate of the interrupt table leads to, put together from its three parts.\<close>

definition gate_address :: "idt_t \<Rightarrow> u64" where
  "gate_address e = ucast (isr_0 e) OR push_bit 16 (ucast (isr_1 e)) OR push_bit 32 (ucast (isr_2 e))"

definition gate_for :: "u64 \<Rightarrow> idt_t" where
  "gate_for a = \<lparr>isr_0 = ucast (a AND 0xFFFF), kernel_cs = 8, ist = 0, idt_flags = 0x8E,
     isr_1 = ucast (drop_bit 16 a AND 0xFFFF), isr_2 = ucast (drop_bit 32 a AND 0xFFFFFFFF), idt_reserved = 0\<rparr>"

lemma gate_address_gate_for [simp]: "gate_address (gate_for a) = a"
proof -
  have t: "a AND 0xFFFF = take_bit 16 a" "a AND 0xFFFFFFFF = take_bit 32 a" for a :: u64
    by (simp_all add: take_bit_eq_mask mask_eq_exp_minus_1)
  show ?thesis
  proof (rule bit_eqI)
    fix n assume "possible_bit TYPE(64 word) n"
    then have "n < 64" by simp
    moreover have "n - 32 < 32 \<or> 64 \<le> n" "n < 16 \<or> n - 16 < 16 \<or> 32 \<le> n" "n < 32 \<or> 32 + (n - 32) = n" by arith+
    ultimately show "bit (gate_address (gate_for a)) n = bit a n"
      by (auto simp: gate_address_def gate_for_def t bit_or_iff bit_push_bit_iff bit_ucast_iff bit_take_bit_iff bit_drop_bit_eq)
  qed
qed

lemma gate_for_fields [simp]: "idt_flags (gate_for a) = 0x8E" "kernel_cs (gate_for a) = 8"
  by (simp_all add: gate_for_def)

lemma set_idt_entry_gate:
  "set_idt_entry n a (ISR_FLAG_PRESENT OR ISR_FLAG_RING0 OR ISR_TYPE_INT) s = s\<lparr>idt := (idt s)[unat n := gate_for a]\<rparr>"
  by (simp add: set_idt_entry_def gate_for_def c_macros)

lemma length_isrs [simp]: "length isrs = 256"
  by (simp add: isrs_def)

lemma isrs_nth: "i < 26 \<Longrightarrow> isrs ! i = Some (if i < 23 then exception i else irq (i - 23))"
  by (cases "i < 23")
    (auto simp: isrs_def nth_append nth_Cons' split: if_splits)

lemma isrs_26 [simp]: "isrs ! 26 = None"
  by (simp add: isrs_def nth_append)

lemma isrs_37: "isrs ! 37 = Some (irq 14)" "isrs ! 38 = Some (irq 15)"
  by (simp_all add: isrs_def nth_append)

text \<open>The loop installs the entries from \<open>i\<close> on until the first null one.\<close>

lemma install_isrs_steps:
  assumes "\<And>j. i \<le> j \<Longrightarrow> j < i + n \<Longrightarrow> isr_entry isr_addr j \<noteq> null" "i + n \<le> 256" "n \<le> k"
    and "k = n \<or> isr_entry isr_addr (i + n) = null"
  shows "install_isrs isr_addr i k limit s =
    (limit + of_nat n, s\<lparr>idt := fold (\<lambda>j t. t[j := gate_for (isr_entry isr_addr j)]) [i..<i + n] (idt s)\<rparr>)"
  using assms
proof (induction n arbitrary: i k limit s)
  case 0
  then show ?case by (cases k) auto
next
  case (Suc n)
  then obtain k' where k: "k = Suc k'" by (cases k) auto
  let ?s = "s\<lparr>idt := (idt s)[i := gate_for (isr_entry isr_addr i)]\<rparr>"
  have ne: "isr_entry isr_addr i \<noteq> null" using Suc.prems(1) [of i] by simp
  have u: "unat (of_nat i :: u8) = i" using Suc.prems(2) by simp
  have "install_isrs isr_addr i k limit s = install_isrs isr_addr (Suc i) k' (limit + 1) ?s"
    by (simp only: k install_isrs.simps ne if_False set_idt_entry_gate u)
  moreover have "install_isrs isr_addr (Suc i) k' (limit + 1) ?s = (limit + 1 + of_nat n,
      ?s\<lparr>idt := fold (\<lambda>j t. t[j := gate_for (isr_entry isr_addr j)]) [Suc i..<Suc i + n] (idt ?s)\<rparr>)"
  proof (rule Suc.IH)
    show "isr_entry isr_addr j \<noteq> null" if "Suc i \<le> j" "j < Suc i + n" for j
      using Suc.prems(1) [of j] that by simp
  qed (use Suc.prems k in simp_all)
  moreover have "[i..<i + Suc n] = i # [Suc i..<Suc i + n]" by (simp add: upt_conv_Cons)
  ultimately show ?case by (simp add: add.assoc)
qed

lemma length_fold_update [simp]: "length (fold (\<lambda>j t. t[j := f j]) js xs) = length xs"
  by (induction js arbitrary: xs) auto

lemma fold_update_nth:
  "fold (\<lambda>j t. t[j := f j]) [a..<b] xs ! i = (if a \<le> i \<and> i < b \<and> i < length xs then f i else xs ! i)"
proof (induction b)
  case (Suc b)
  show ?case
  proof (cases "i = b")
    case True
    then show ?thesis using Suc by (cases "b < length xs") (auto simp: list_update_beyond)
  next
    case False
    then show ?thesis using Suc by auto
  qed
qed simp

lemma identity_map:
  assumes "length m = 256" and "i < 256"
  shows "for_loop 256 (\<lambda>i m. m[i := of_nat i]) m ! i = (of_nat i :: u8)"
proof -
  let ?P = "\<lambda>k m. length m = 256 \<and> (\<forall>j<k. j < 256 \<longrightarrow> m ! j = (of_nat j :: u8))"
  have "?P 256 (for_loop 256 (\<lambda>i m. m[i := of_nat i]) m)"
    by (rule for_loop_invariant [where P = ?P]) (use assms(1) in \<open>auto simp: nth_list_update less_Suc_eq\<close>)
  then show ?thesis using assms(2) by blast
qed

text \<open>
  C19: When every routine has an address other than null and the tables have their 256
  entries, setting up the interrupts returns true and installs, in this order, present
  gates of ring 0 in the code segment of the kernel for the 23 exceptions and the first three interrupt
  requests, each leading to the address of its routine, and no other gate: the table \<^verbatim>\<open>isrs\<close>
  has an empty place after them, where the loop stops.  The register of the table holds its
  address and the limit of 26 gates, so that the routines \<^verbatim>\<open>irq14\<close> and \<^verbatim>\<open>irq15\<close>, which \<^verbatim>\<open>isrs\<close> has
  at the places 37 and 38, are never installed.  Interrupts and the non-maskable interrupt
  are enabled, every interrupt request is mapped to itself, and every place for a handler is free.
\<close>

theorem setup_interrupts_gates:
  assumes "\<forall>r. isr_addr r \<noteq> null" and "length (idt s) = 256" and "length (gsi_map s) = 256"
  shows "\<exists>t. setup_interrupts B isr_addr base s = (True, t) \<and>
    (\<forall>i<26. gate_address (idt t ! i) = isr_addr (if i < 23 then exception i else irq (i - 23)) \<and>
      idt_flags (idt t ! i) = 0x8E \<and> kernel_cs (idt t ! i) = 8) \<and>
    (\<forall>i. 26 \<le> i \<longrightarrow> idt t ! i = idt s ! i) \<and>
    idtr t = \<lparr>idtr_limit = 26 * 16 - 1, idtr_base = base\<rparr> \<and>
    isrs ! 37 = Some (irq 14) \<and> isrs ! 38 = Some (irq 15) \<and>
    interrupts_enabled t \<and> nmi_enabled t \<and> (\<forall>i<256. gsi_map t ! i = of_nat i) \<and>
    isr_hooks t = replicate 256 (replicate 4 null)"
proof -
  let ?t = "fold (\<lambda>j t. t[j := gate_for (isr_entry isr_addr j)]) [0..<26] (idt s)"
  let ?r = "snd (setup_interrupts B isr_addr base s)"
  have e: "isr_entry isr_addr j = isr_addr (if j < 23 then exception j else irq (j - 23))" if "j < 26" for j
    using that by (simp add: isr_entry_def isrs_nth)
  have "install_isrs isr_addr 0 255 0 s = (0 + of_nat 26, s\<lparr>idt := fold (\<lambda>j t. t[j := gate_for (isr_entry isr_addr j)]) [0..<0 + 26] (idt s)\<rparr>)"
    by (rule install_isrs_steps) (use e assms(1) in \<open>auto simp: isr_entry_def\<close>)
  then have r: "setup_interrupts B isr_addr base s = (True, ?r)" "idt ?r = ?t"
    "idtr ?r = \<lparr>idtr_limit = 26 * 16 - 1, idtr_base = base\<rparr>"
    "interrupts_enabled ?r" "nmi_enabled ?r" "isr_hooks ?r = replicate 256 (replicate 4 null)"
    "gsi_map ?r = for_loop 256 (\<lambda>i m. m[i := of_nat i]) (gsi_map s)"
    by (simp_all add: setup_interrupts_def MAX_INTERRUPT_def nmi_enable_def inb_def outb_def Let_def
      enable_int_def disable_int_def case_prod_beta del: for_loop_numeral)
  have gate: "?t ! i = gate_for (isr_entry isr_addr i)" if "i < 26" for i
    using that assms(2) by (simp add: fold_update_nth)
  have other: "?t ! i = idt s ! i" if "26 \<le> i" for i
    using that by (simp add: fold_update_nth)
  show ?thesis
  proof (intro exI [of _ ?r] conjI allI impI)
    show "gsi_map ?r ! i = of_nat i" if "i < 256" for i
      unfolding r(7) by (rule identity_map [OF assms(3) that])
  qed (use r(1-6) gate other e isrs_37 in simp_all)
qed

theorem setup_interrupts_gates_witness:
  "\<exists>t. setup_interrupts demo_bus (\<lambda>r. 0x8000) 0x3000 demo_kernel = (True, t) \<and> gate_address (idt t ! 25) = 0x8000 \<and>
    idt t ! 37 = idt demo_kernel ! 37 \<and> gsi_map t ! 9 = 9"
proof -
  have "length (gsi_map demo_kernel) = 256" by (simp add: demo_defs)
  then show ?thesis
    using setup_interrupts_gates [where isr_addr = "\<lambda>r. 0x8000" and s = demo_kernel and B = demo_bus and base = "0x3000"]
    by fastforce
qed

section \<open>Hooks\<close>

text \<open>Each vector has four places; the handlers of a vector are the non-null ones, in order.\<close>

definition hooks_ok :: "('d, 'z) machine_state_scheme \<Rightarrow> bool" where [inv_defs]:
  "hooks_ok s \<longleftrightarrow> length (isr_hooks s) = 256 \<and> (\<forall>hs\<in>set (isr_hooks s). length hs = 4)"

definition handlers :: "('d, 'z) machine_state_scheme \<Rightarrow> u8 \<Rightarrow> u64 list" where
  "handlers s n = filter (\<lambda>h. h \<noteq> null) (isr_hooks s ! unat n)"

lemma hooks_ok_places: "hooks_ok s \<Longrightarrow> length (isr_hooks s ! unat (n :: u8)) = 4 \<and> unat n < length (isr_hooks s)"
  by (simp add: hooks_ok_def)

lemma hooks_ok_update:
  "hooks_ok s \<Longrightarrow> length hs = 4 \<Longrightarrow> hooks_ok (s\<lparr>isr_hooks := (isr_hooks s)[unat (n :: u8) := hs]\<rparr>)"
  by (auto simp: hooks_ok_def dest!: set_update_subset_insert [THEN subsetD])

text \<open>The search for a free place: the first null one of the four, or 4.\<close>

lemma free_hook_4:
  assumes "length hs = 4"
  shows "free_hook 4 hs 0 = (if hs ! 0 = null then 0 else if hs ! 1 = null then 1
    else if hs ! 2 = null then 2 else if hs ! 3 = null then 3 else 4)"
proof -
  have "free_hook 4 hs 0 = free_hook (Suc (Suc (Suc (Suc 0)))) hs 0" by (simp add: eval_nat_numeral)
  then show ?thesis by (simp add: ISR_MAX_HOOKS_def)
qed

lemma length_4E:
  assumes "length hs = 4" obtains a b c d where "hs = [a, b, c, d]"
  using assms by (auto simp: numeral_eq_Suc length_Suc_conv)

lemma free_hook_finds:
  assumes "length hs = 4"
  shows "free_hook 4 hs 0 = 4 \<and> filter (\<lambda>h. h \<noteq> null) hs = hs \<or> free_hook 4 hs 0 < 4 \<and> hs ! unat (free_hook 4 hs 0) = null"
proof -
  from length_4E [OF assms] obtain a b c d where hs: "hs = [a, b, c, d]" .
  show ?thesis unfolding free_hook_4 [OF assms] by (simp add: hs)
qed

lemma filter_update_mset:
  assumes "i < length xs" "\<not> P (xs ! i)" "P y"
  shows "mset (filter P (xs[i := y])) = add_mset y (mset (filter P xs))"
proof -
  have "filter P xs = filter P (take i xs) @ filter P (drop (Suc i) xs)"
    using assms(2) by (subst id_take_nth_drop [OF assms(1)]) simp
  then show ?thesis using assms(3) by (simp add: upd_conv_take_nth_drop [OF assms(1)])
qed

text \<open>What the client of the hooks relies on.\<close>

lemma int_hook_free:
  assumes ok: "hooks_ok s" and h: "h \<noteq> null" and free: "length (handlers s n) < 4"
  shows "\<exists>i t. int_hook n h s = (i, t) \<and> i < 4 \<and> isr_hooks s ! unat n ! unat i = null \<and>
    t = s\<lparr>isr_hooks := (isr_hooks s)[unat n := (isr_hooks s ! unat n)[unat i := h]]\<rparr> \<and>
    mset (handlers t n) = add_mset h (mset (handlers s n))"
proof -
  let ?hs = "isr_hooks s ! unat n"
  let ?i = "free_hook 4 ?hs 0"
  from hooks_ok_places [OF ok] have l: "length ?hs = 4" "unat n < length (isr_hooks s)" by auto
  have i: "?i < 4" "?hs ! unat ?i = null"
    using free_hook_finds [OF l(1)] free l(1) by (auto simp: handlers_def)
  then have "unat ?i < length ?hs" using l(1) by (simp add: word_less_nat_alt)
  from filter_update_mset [OF this, of "\<lambda>h. h \<noteq> null" h] i h l(2) show ?thesis
    by (auto simp: int_hook_def Let_def ISR_MAX_HOOKS_def handlers_def)
qed

lemma int_hook_full:
  assumes ok: "hooks_ok s" and full: "h = null \<or> length (handlers s n) = 4"
  shows "int_hook n h s = (0xFF, s)"
proof -
  let ?hs = "isr_hooks s ! unat n"
  from hooks_ok_places [OF ok] have l: "length ?hs = 4" by auto
  have "free_hook 4 ?hs 0 = 4" if "length (handlers s n) = 4"
  proof (rule ccontr)
    assume "free_hook 4 ?hs 0 \<noteq> 4"
    then have i: "free_hook 4 ?hs 0 < 4" "?hs ! unat (free_hook 4 ?hs 0) = null"
      using free_hook_finds [OF l] by auto
    then have "unat (free_hook 4 ?hs 0) < length ?hs" using l by (simp add: word_less_nat_alt)
    from nth_mem [OF this] i(2) have "null \<in> set ?hs" by simp
    then show False using that l length_filter_less [of null ?hs "\<lambda>h. h \<noteq> null"] by (simp add: handlers_def)
  qed
  then show ?thesis using full by (auto simp: int_hook_def Let_def ISR_MAX_HOOKS_def)
qed

lemma int_unhook_restores:
  assumes ok: "hooks_ok s" and i: "i < 4" "isr_hooks s ! unat n ! unat i = null"
    and t: "isr_hooks t = (isr_hooks s)[unat n := (isr_hooks s ! unat n)[unat i := h]]"
  shows "int_unhook n i t = (True, t\<lparr>isr_hooks := isr_hooks s\<rparr>)"
proof -
  from hooks_ok_places [OF ok] have l: "length (isr_hooks s ! unat n) = 4" "unat n < length (isr_hooks s)" by auto
  have "(isr_hooks s ! unat n)[unat i := null] = isr_hooks s ! unat n" using i(2) by (metis list_update_id)
  then show ?thesis using i(1) l t by (simp add: int_unhook_def ISR_MAX_HOOKS_def not_le)
qed

text \<open>Running a list of handlers one after the other.\<close>

fun run_handlers :: "(u64 \<Rightarrow> 's \<Rightarrow> 's option) \<Rightarrow> u64 list \<Rightarrow> 's \<Rightarrow> 's option" where
  "run_handlers call [] s = Some s"
| "run_handlers call (h # hs) s = do { s \<leftarrow> call h s; run_handlers call hs s }"

lemma exec_hooks_run:
  assumes "\<And>h s s'. h \<in> set hs \<Longrightarrow> h \<noteq> null \<Longrightarrow> call h s = Some s' \<Longrightarrow> hooks s' = hooks s"
    and "hooks s ! n = hs" "i + k = length hs"
  shows "exec_hooks_from call hooks n i k s = run_handlers call (filter (\<lambda>h. h \<noteq> null) (drop i hs)) s"
  using assms(2,3)
proof (induction k arbitrary: i s)
  case (Suc k)
  then have d: "drop i hs = hs ! i # drop (Suc i) hs" by (simp add: Cons_nth_drop_Suc)
  have "hs ! i \<in> set hs" using Suc.prems(2) by simp
  then show ?case
    using Suc assms(1) [of "hs ! i" s] by (auto simp: d split: Option.bind_splits)
qed simp


text \<open>
  C36: Hooking a handler to a vector with a free place stores it in one of the four places,
  changes nothing else, and unhooking it with the returned number restores the state; a
  full vector and a null handler are refused without a change.
\<close>

theorem int_hook_roundtrip:
  assumes ok: "hooks_ok s"
  shows "(if h \<noteq> null \<and> length (handlers s n) < 4
    then \<exists>i t. int_hook n h s = (i, t) \<and> i < 4 \<and> hooks_ok t \<and>
      mset (handlers t n) = add_mset h (mset (handlers s n)) \<and> (\<forall>m. m \<noteq> n \<longrightarrow> handlers t m = handlers s m) \<and>
      int_unhook n i t = (True, s)
    else int_hook n h s = (0xFF, s))"
proof (cases "h \<noteq> null \<and> length (handlers s n) < 4")
  case True
  from int_hook_free [OF ok] True obtain i t where i: "int_hook n h s = (i, t)" "i < 4"
    "isr_hooks s ! unat n ! unat i = null"
    and t: "t = s\<lparr>isr_hooks := (isr_hooks s)[unat n := (isr_hooks s ! unat n)[unat i := h]]\<rparr>"
    and m: "mset (handlers t n) = add_mset h (mset (handlers s n))" by blast
  have "hooks_ok t" using hooks_ok_update [OF ok] hooks_ok_places [OF ok] by (simp add: t)
  moreover have "int_unhook n i t = (True, s)"
    using int_unhook_restores [OF ok i(2,3), of t h] by (simp add: t)
  moreover have "\<forall>m. m \<noteq> n \<longrightarrow> handlers t m = handlers s m"
    by (auto simp: t handlers_def nth_list_update word_unat_eq_iff)
  ultimately show ?thesis using True i m by auto
next
  case False
  have "length (handlers s n) \<le> length (isr_hooks s ! unat n)" by (simp add: handlers_def)
  with hooks_ok_places [OF ok, of n] have "length (handlers s n) \<le> 4" by linarith
  with False have "h = null \<or> length (handlers s n) = 4" by auto
  from int_hook_full [OF ok this] False show ?thesis by auto
qed

lemma demo_hooks [simp]: "hooks_ok demo_kernel" "handlers demo_kernel n = []"
  by (simp_all add: hooks_ok_def handlers_def)

theorem int_hook_roundtrip_witness:
  "\<exists>i t. int_hook 0x17 0x5000 demo_kernel = (i, t) \<and> handlers t 0x17 = [0x5000] \<and> int_unhook 0x17 i t = (True, demo_kernel)"
  using int_hook_roundtrip [OF demo_hooks(1), where h = "0x5000" and n = "0x17"] by auto

text \<open>
  C35: Executing the hooks of a vector calls its handlers one after the other in the order of
  their places, each on the state the one before left, for handlers that do not hook or
  unhook themselves.
\<close>

theorem int_exec_hooks_runs:
  assumes ok: "hooks_ok s" and keep: "\<forall>h\<in>set (handlers s n). \<forall>t u. call h t = Some u \<longrightarrow> isr_hooks u = isr_hooks t"
  shows "int_exec_hooks call n s = run_handlers call (handlers s n) s"
proof -
  have "exec_hooks_from call isr_hooks (unat n) 0 4 s =
      run_handlers call (filter (\<lambda>h. h \<noteq> null) (drop 0 (isr_hooks s ! unat n))) s"
  proof (rule exec_hooks_run)
    fix h t u
    assume h: "h \<in> set (isr_hooks s ! unat n)" "h \<noteq> null" and c: "call h t = Some u"
    from h have "h \<in> set (handlers s n)" by (simp add: handlers_def)
    with keep c show "isr_hooks u = isr_hooks t" by blast
  qed (simp_all add: hooks_ok_places [OF ok])
  then show ?thesis by (simp add: int_exec_hooks_def handlers_def)
qed

theorem int_exec_hooks_runs_witness:
  "run_handlers (\<lambda>h s. Some (s\<lparr>term_command := h\<rparr>)) [5, 7] (demo_kernel\<lparr>isr_hooks := replicate 256 [null, 5, null, 7]\<rparr>) =
   int_exec_hooks (\<lambda>h s. Some (s\<lparr>term_command := h\<rparr>)) 0x17 (demo_kernel\<lparr>isr_hooks := replicate 256 [null, 5, null, 7]\<rparr>)"
proof -
  let ?s = "demo_kernel\<lparr>isr_hooks := replicate 256 [null, 5, null, 7]\<rparr>"
  have ok: "hooks_ok ?s" by (simp add: hooks_ok_def)
  have h: "handlers ?s 0x17 = [5, 7]" by (simp add: handlers_def)
  have keep: "isr_hooks (t\<lparr>term_command := h\<rparr>) = isr_hooks t" for t :: "(u32 \<times> (u32 \<Rightarrow> u32)) acpi_state" and h
    by simp
  show ?thesis
    by (subst int_exec_hooks_runs [OF ok]) (use keep in \<open>simp_all only: h\<close>, auto)
qed

section \<open>Sleeping\<close>

lemma wait_while_done: "\<not> flag s \<Longrightarrow> wait_while flag idle s = Some s"
  by (simp add: wait_while.simps)

lemma wait_while_step: "flag s \<Longrightarrow> idle s = Some t \<Longrightarrow> wait_while flag idle s = wait_while flag idle t"
  by (subst wait_while.simps) simp

lemma send_eoi_device: "\<exists>d. send_eoi B s = s\<lparr>device := d\<rparr>"
proof -
  have "\<exists>d. for_loop n (\<lambda>_. lapic_write B LAPIC_EOI_REGISTER 0) s = s\<lparr>device := d\<rparr>" for n
  proof (induction n)
    case 0
    show ?case by (rule exI [of _ "device s"]) simp
  next
    case (Suc n)
    then show ?case by (auto simp: lapic_write_def write32_def)
  qed
  then show ?thesis unfolding send_eoi_def by blast
qed

lemma irq0_wakes:
  fixes s :: "('d, 'z) keyboard_state_scheme"
  assumes ok: "hooks_ok s" and h: "handlers s 0x17 = [notify]" and c: "\<forall>t. call notify t = Some (sleep_notify t)"
  shows "\<exists>d. irq0 B call s = Some (s\<lparr>sleep_in_progress := False, interrupts_enabled := True, device := d\<rparr>)"
proof -
  have "exec_hooks_from call isr_hooks (unat (0x17 :: u8)) 0 4 s =
      run_handlers call (filter (\<lambda>h. h \<noteq> null) (drop 0 (isr_hooks s ! unat (0x17 :: u8)))) s"
  proof (rule exec_hooks_run)
    fix h t u
    assume "h \<in> set (isr_hooks s ! unat (0x17 :: u8))" "h \<noteq> null" and r: "call h t = Some u"
    then have "h \<in> set (handlers s 0x17)" by (simp add: handlers_def)
    with assms(2) have "h = notify" by simp
    with r c show "isr_hooks u = isr_hooks t" by (auto simp: sleep_notify_def)
  next
    show "0 + 4 = length (isr_hooks s ! unat (0x17 :: u8))" using hooks_ok_places [OF ok, of "0x17"] by simp
  qed simp
  with h c have "int_exec_hooks call 23 s = Some (sleep_notify s)" by (simp add: int_exec_hooks_def handlers_def)
  then show ?thesis
    using send_eoi_device [of B "enable_int (sleep_notify s)"] by (auto simp: irq0_def enable_int_def sleep_notify_def)
qed

text \<open>Each tick of the timer ends one of the waits.\<close>

lemma sleep_ticks_end:
  fixes s :: "('d, 'z) keyboard_state_scheme"
  assumes "hooks_ok s" "handlers s 0x17 = [notify]" and c: "\<forall>t. call notify t = Some (sleep_notify t)"
  shows "\<exists>t. sleep_ticks (irq0 B call) n s = Some t \<and> isr_hooks t = isr_hooks s \<and>
    system_ioapics t = system_ioapics s \<and> pit_ready t = pit_ready s \<and> (n = 0 \<or> \<not> sleep_in_progress t)"
  using assms(1,2)
proof (induction n arbitrary: s)
  case (Suc n)
  let ?s = "s\<lparr>sleep_in_progress := True\<rparr>"
  have "hooks_ok ?s" "handlers ?s 0x17 = [notify]"
    using Suc.prems by (simp_all add: hooks_ok_def handlers_def)
  from irq0_wakes [where s = ?s and call = call and notify = notify and B = B, OF this c] obtain d
    where d: "irq0 B call ?s = Some (?s\<lparr>sleep_in_progress := False, interrupts_enabled := True, device := d\<rparr>)"
    by blast
  let ?u = "?s\<lparr>sleep_in_progress := False, interrupts_enabled := True, device := d\<rparr>"
  have w: "wait_while sleep_in_progress (irq0 B call) ?s = Some ?u"
    using wait_while_step [where flag = sleep_in_progress and idle = "irq0 B call" and s = ?s and t = ?u] d wait_while_done [of sleep_in_progress ?u] by simp
  have "hooks_ok ?u" "handlers ?u 0x17 = [notify]"
    using Suc.prems by (simp_all add: hooks_ok_def handlers_def)
  from Suc.IH [of ?u, OF this] obtain t where t: "sleep_ticks (irq0 B call) n ?u = Some t" "isr_hooks t = isr_hooks ?u"
    "system_ioapics t = system_ioapics ?u" "pit_ready t = pit_ready ?u" "n = 0 \<or> \<not> sleep_in_progress t" by blast
  moreover have "n = 0 \<Longrightarrow> t = ?u" using t(1) by simp
  ultimately show ?case using w by auto
qed simp

text \<open>
  C16: A \<^verbatim>\<open>sleep\<close> during which the timer interrupt arrives ends: when the PIT is ready, the
  vector 0x17 has no other handler and what happens while waiting is its interrupt routine
  \<^verbatim>\<open>irq0\<close>, which calls \<^verbatim>\<open>sleep_notify\<close> through the hook, the call returns true for every number
  of milliseconds, no wait is left in progress and the hooks are those before the call.
\<close>

theorem sleep_returns:
  fixes s :: "('d, 'z) keyboard_state_scheme"
  assumes "pit_ready s" and ok: "hooks_ok s" "ioapics_ok s" and free: "handlers s 0x17 = []" and nn: "notify \<noteq> null"
    and c: "\<forall>t. call notify t = Some (sleep_notify t)"
  shows "\<exists>t. sleep B (irq0 B call) notify ms s = Some (True, t) \<and> isr_hooks t = isr_hooks s \<and>
    (ms = 0 \<or> \<not> sleep_in_progress t)"
proof (cases "ms = 0")
  case True
  then show ?thesis using assms(1) by (simp add: sleep_def)
next
  case False
  from int_hook_free [OF ok(1) nn, of "0x17"] free obtain i t where i: "int_hook 0x17 notify s = (i, t)" "i < 4"
    "isr_hooks s ! unat (0x17 :: u8) ! unat i = null"
    and t: "t = s\<lparr>isr_hooks := (isr_hooks s)[unat (0x17 :: u8) := (isr_hooks s ! unat (0x17 :: u8))[unat i := notify]]\<rparr>"
    and m: "mset (handlers t 0x17) = {#notify#}" by auto
  have hok: "hooks_ok t" using hooks_ok_update [OF ok(1), of _ "0x17"] hooks_ok_places [OF ok(1), of "0x17"] by (simp add: t)
  have "handlers t 0x17 = [notify]" using m by (simp only: mset_single_iff)
  then have hl: "handlers (t\<lparr>device := e\<rparr>) 0x17 = [notify]" for e by (simp add: handlers_def)
  from i(2) have i255: "i \<noteq> 0xFF" by auto
  let ?u = "pit_write B 0 0x04 (pit_write B 0 0xA6 (pit_command B
    (PIT_COMM_BIN OR PIT_COMM_RATE_GENERATOR OR PIT_COMM_CHANNEL0 OR PIT_COMM_LOBYTE_HIBYTE) t))"
  obtain d where u: "?u = t\<lparr>device := d\<rparr>"
    using assms(1) by (simp add: t pit_write_def pit_command_def outb_def)
  have okt: "ioapics_ok (t\<lparr>device := d\<rparr>)" using ok(2) by (simp add: t ioapics_ok_def)
  from apic_set_mask_total [OF this, of B PIT_IRQ False] obtain b e
    where run: "apic_set_mask B PIT_IRQ False (t\<lparr>device := d\<rparr>) = Some (b, t\<lparr>device := e\<rparr>)" by auto
  let ?v = "t\<lparr>device := e\<rparr>"
  have "hooks_ok ?v" "handlers ?v 0x17 = [notify]" using hok hl by (simp_all add: hooks_ok_def)
  from sleep_ticks_end [where s = ?v and call = call and notify = notify and B = B and n = "unat ms", OF this c] obtain w where w:
    "sleep_ticks (irq0 B call) (unat ms) ?v = Some w" "isr_hooks w = isr_hooks t" "system_ioapics w = system_ioapics t"
    "pit_ready w" "\<not> sleep_in_progress w"
    using assms(1) False by (auto simp: t unat_eq_zero)
  have "ioapics_ok w" using okt w(3) by (simp add: ioapics_ok_def)
  from apic_set_mask_total [OF this, of B PIT_IRQ True] obtain b' e'
    where stop: "apic_set_mask B PIT_IRQ True w = Some (b', w\<lparr>device := e'\<rparr>)" by auto
  have un: "int_unhook 0x17 i (w\<lparr>device := e'\<rparr>) = (True, w\<lparr>device := e', isr_hooks := isr_hooks s\<rparr>)"
    using int_unhook_restores [OF ok(1) i(2,3), of "w\<lparr>device := e'\<rparr>" notify] w(2) by (simp add: t)
  have "sleep B (irq0 B call) notify ms s = Some (True, w\<lparr>device := e', isr_hooks := isr_hooks s\<rparr>)"
    using assms(1) False i(1) i255 u run w stop un
    by (simp add: sleep_def Let_def pit_run_def pit_stop_def t)
  then show ?thesis using w(5) by simp
qed

theorem sleep_returns_witness:
  "\<exists>t. sleep demo_bus (irq0 demo_bus (\<lambda>_ s. Some (sleep_notify s))) 0x5000 3 demo_kernel = Some (True, t) \<and>
    isr_hooks t = replicate 256 (replicate 4 null) \<and> \<not> sleep_in_progress t"
  using sleep_returns [where s = demo_kernel and B = demo_bus and ms = 3 and notify = "0x5000" and
    call = "\<lambda>_ s. Some (sleep_notify s)"] by simp

end
