(* ===== verification/Acpi_Props.thy ===== *)
theory Acpi_Props
  imports Apic_Props
begin

text \<open>
  The ACPI parser: the table that a signature and a number select, and when the loop over
  the entries of the MADT ends.
\<close>

section \<open>Finding a table\<close>

definition xsdt_entry :: "memory \<Rightarrow> u64 \<Rightarrow> nat \<Rightarrow> u64" where
  "xsdt_entry m xsdt i = load64 m (xsdt + HEADER_SIZE + of_nat i * 8)"

definition is_table :: "memory \<Rightarrow> u8 list \<Rightarrow> u64 \<Rightarrow> bool" where
  "is_table m sig p \<longleftrightarrow> acpi_validate_checksum m p \<and> signature (header_at m p) = sig"

lemma locate_from_nth:
  assumes "seen \<le> n"
  shows "locate_from i k m xsdt sig n seen =
    (let ps = filter (is_table m sig) (map (xsdt_entry m xsdt) [i..<i + k]); j = unat n - unat seen
     in if j < length ps then ps ! j else null)"
  using assms
proof (induction k arbitrary: i seen)
  case (Suc k)
  have u: "[i..<Suc (i + k)] = i # [Suc i..<Suc (i + k)]" by (simp add: upt_conv_Cons)
  let ?p = "xsdt_entry m xsdt i"
  show ?case
  proof (cases "is_table m sig ?p \<and> seen \<noteq> n")
    case True
    with Suc.prems have lt: "seen < n" by (simp only: order_le_less) blast
    then have "seen + 1 \<le> n" by (simp add: inc_le)
    moreover have "unat n - unat seen = Suc (unat n - unat (seen + 1))"
      using lt unat_Suc_less [OF lt] by (simp add: word_less_nat_alt)
    ultimately show ?thesis using True Suc.IH [of "seen + 1" "Suc i"]
      by (simp add: u is_table_def xsdt_entry_def Let_def del: upt_Suc)
  next
    case False
    then show ?thesis using Suc.prems Suc.IH [of seen "Suc i"]
      by (cases "is_table m sig ?p") (auto simp: u is_table_def xsdt_entry_def Let_def simp del: upt_Suc)
  qed
qed simp

text \<open>
  C21: Once the parser is ready, \<^verbatim>\<open>acpi_locate_table\<close> returns for every signature but DSDT the
  \<open>n\<close>-th (from 0) of the tables listed by the XSDT whose bytes sum up to 0 and whose
  signature is the given one, and null when there are not so many.
\<close>

theorem acpi_locate_table_nth:
  assumes "acpi_manager_ready s" and "sig \<noteq> bytes_of ''DSDT''" and "36 \<le> table_length (header_at (vmem s) (acpi_xsdt s))"
  shows "acpi_locate_table sig n s =
    (let len = unat (table_length (header_at (vmem s) (acpi_xsdt s)));
         ps = filter (is_table (vmem s) sig) (map (xsdt_entry (vmem s) (acpi_xsdt s)) [0..<(len - 36) div 8])
     in if unat n < length ps then ps ! unat n else null)"
proof -
  let ?len = "table_length (header_at (vmem s) (acpi_xsdt s))"
  have "36 \<le> (ucast ?len :: u64)" using assms(3) by (simp add: word_le_nat_alt)
  then have "unat ((ucast ?len - HEADER_SIZE) div 8 :: u64) = (unat ?len - 36) div 8"
    by (simp add: HEADER_SIZE_def unat_div unat_sub)
  moreover have "(unat ?len - 36) div 8 < 4294967296" using unat_less_32 [of ?len] by linarith
  ultimately have "unat (ucast ((ucast ?len - HEADER_SIZE) div 8 :: u64) :: u32) = (unat ?len - 36) div 8"
    by (simp add: unsigned_ucast_eq take_bit_nat_eq_self)
  then show ?thesis
    using assms(1,2) by (simp add: acpi_locate_table_def Let_def locate_from_nth)
qed

lemma load_le_4: "load_le 4 m a = ucast (m a) OR push_bit 8 (ucast (m (a + 1)) OR push_bit 8 (ucast (m (a + 2)) OR
    push_bit 8 (ucast (m (a + 3)))))"
proof -
  have "load_le 4 m a = load_le (Suc (Suc (Suc (Suc 0)))) m a" by (simp add: eval_nat_numeral)
  then show ?thesis by (simp add: add.assoc)
qed

lemma load64_8: "load64 m a = load_le 4 m a OR push_bit 32 (load_le 4 m (a + 4))"
proof -
  have "load64 m a = load_le (Suc (Suc (Suc (Suc (Suc (Suc (Suc (Suc 0)))))))) m a" by (simp add: load64_def eval_nat_numeral)
  then show ?thesis by (simp add: load_le_4 add.assoc push_bit_or or.assoc)
qed

text \<open>An XSDT at address 0 with one entry, an empty table at \<open>0x100\<close>.\<close>

definition demo_xsdt :: "(u32 \<times> (u32 \<Rightarrow> u32)) acpi_state" where
  "demo_xsdt = demo_kernel\<lparr>vmem := (\<lambda>_. 0)(4 := 44, 37 := 1), acpi_manager_ready := True, acpi_xsdt := 0\<rparr>"

theorem acpi_locate_table_nth_witness: "acpi_locate_table [0, 0, 0, 0] 0 demo_xsdt = 0x100"
proof -
  have l: "table_length (header_at (vmem demo_xsdt) (acpi_xsdt demo_xsdt)) = 44"
    by (simp add: header_at_def demo_xsdt_def load_le_4)
  have e: "xsdt_entry (vmem demo_xsdt) (acpi_xsdt demo_xsdt) 0 = 0x100"
    by (simp add: xsdt_entry_def demo_xsdt_def HEADER_SIZE_def load64_8 load_le_4)
  have t: "is_table (vmem demo_xsdt) [0, 0, 0, 0] 0x100"
    by (simp add: is_table_def acpi_validate_checksum_def header_at_def demo_xsdt_def load_le_4 read_bytes_def upt_rec)
  have "[0, 0, 0, 0] \<noteq> bytes_of ''DSDT''" by (simp add: bytes_of_def)
  from acpi_locate_table_nth [OF _ this, of demo_xsdt 0] show ?thesis
    by (simp add: l e t) (simp add: demo_xsdt_def)
qed

section \<open>The entries of the MADT\<close>

definition madt_bytes :: "memory \<Rightarrow> u64 \<Rightarrow> u64" where
  "madt_bytes m madt = ucast (table_length (header_at m madt)) - MADT_SIZE"

definition entry_type_at :: "memory \<Rightarrow> u64 \<Rightarrow> u64 \<Rightarrow> u8" where
  "entry_type_at m madt off = m (madt + MADT_SIZE + off)"

definition entry_size_at :: "memory \<Rightarrow> u64 \<Rightarrow> u64 \<Rightarrow> u8" where
  "entry_size_at m madt off = m (madt + MADT_SIZE + off + 1)"

text \<open>The offsets the loop visits.\<close>

inductive visited :: "memory \<Rightarrow> u64 \<Rightarrow> u64 \<Rightarrow> u64 \<Rightarrow> bool" for m madt where
  here: "visited m madt off off"
| there: "visited m madt (off + ucast (entry_size_at m madt off)) off' \<Longrightarrow> off < madt_bytes m madt \<Longrightarrow> visited m madt off off'"

text \<open>An entry of a known type is processed without touching the memory.\<close>

lemma switch_known:
  assumes ok: "ioapics_ok s" and ty: "ty \<le> 5"
  shows "\<exists>t. acpi_switch_madt_entry B F entry ty s = Some t \<and> vmem t = vmem s \<and> ioapics_ok t"
proof -
  have tys: "ty = 0 \<or> ty = 1 \<or> ty = 2 \<or> ty = 3 \<or> ty = 4 \<or> ty = 5"
  proof -
    have "unat ty \<le> 5" using ty by (simp add: word_le_nat_alt)
    then have "unat ty \<in> {0, 1, 2, 3, 4, 5}" by auto
    then show ?thesis by (auto simp: word_unat_eq_iff)
  qed
  show ?thesis
  proof (cases "ty = 1")
    case True
    let ?e = "madt_io_apic_at (vmem s) entry"
    have "\<exists>t. save_ioapic_info B n addr gsib s = Some t \<and> vmem t = vmem s \<and> ioapics_ok t" for n addr gsib
      using save_ioapic_info_total [OF ok] by blast
    with True show ?thesis by (simp add: acpi_switch_madt_entry_def Let_def)
  next
    case False
    with tys ok show ?thesis
      by (auto simp: acpi_switch_madt_entry_def Let_def save_lapic_info_def ioapics_ok_def)
  qed
qed

lemma madt_step:
  assumes "off < madt_bytes (vmem s) madt"
    and "acpi_switch_madt_entry B F (madt + MADT_SIZE + off) (entry_type_at (vmem s) madt off) s = Some t"
  shows "madt_entries_from B F madt off s = madt_entries_from B F madt (off + ucast (entry_size_at (vmem s) madt off)) t"
  using assms by (subst madt_entries_from.simps) (simp add: madt_bytes_def entry_type_at_def entry_size_at_def Let_def)

lemma madt_end: "\<not> off < madt_bytes (vmem s) madt \<Longrightarrow> madt_entries_from B F madt off s = Some s"
  by (subst madt_entries_from.simps) (simp add: madt_bytes_def)

text \<open>A MADT whose entries are of known types, from an offset on.\<close>

definition known_from :: "memory \<Rightarrow> u64 \<Rightarrow> u64 \<Rightarrow> bool" where
  "known_from m madt off \<longleftrightarrow> (\<forall>o'. visited m madt off o' \<longrightarrow> o' < madt_bytes m madt \<longrightarrow> entry_type_at m madt o' \<le> 5)"

definition sized_from :: "memory \<Rightarrow> u64 \<Rightarrow> u64 \<Rightarrow> bool" where
  "sized_from m madt off \<longleftrightarrow> (\<forall>o'. visited m madt off o' \<longrightarrow> o' < madt_bytes m madt \<longrightarrow> entry_size_at m madt o' \<noteq> 0)"

lemma known_from_next:
  assumes "known_from m madt off" "off < madt_bytes m madt"
  shows "entry_type_at m madt off \<le> 5" "known_from m madt (off + ucast (entry_size_at m madt off))"
  using assms by (auto simp: known_from_def intro: visited.intros)

lemma sized_from_next:
  assumes "off < madt_bytes m madt"
  shows "sized_from m madt off \<longleftrightarrow>
    entry_size_at m madt off \<noteq> 0 \<and> sized_from m madt (off + ucast (entry_size_at m madt off))"
  using assms by (auto simp: sized_from_def elim: visited.cases intro: visited.intros)

text \<open>With sizes other than 0 the offset grows up to the end of the table.\<close>

lemma madt_entries_return:
  assumes "ioapics_ok s" "known_from (vmem s) madt off" "sized_from (vmem s) madt off"
    and small: "unat (madt_bytes (vmem s) madt) < 4294967296"
  shows "\<exists>t. madt_entries_from B F madt off s = Some t"
  using assms
proof (induction "unat (madt_bytes (vmem s) madt) - unat off" arbitrary: off s rule: less_induct)
  case less
  show ?case
  proof (cases "off < madt_bytes (vmem s) madt")
    case True
    note k = known_from_next [OF less.prems(2) True]
    let ?n = "entry_size_at (vmem s) madt off"
    have sz: "?n \<noteq> 0" "sized_from (vmem s) madt (off + ucast ?n)"
      using less.prems(3) by (simp_all add: sized_from_next [OF True])
    from switch_known [OF less.prems(1) k(1)] obtain t where
      t: "acpi_switch_madt_entry B F (madt + MADT_SIZE + off) (entry_type_at (vmem s) madt off) s = Some t"
      "vmem t = vmem s" "ioapics_ok t" by blast
    have lt: "unat off < unat (madt_bytes (vmem s) madt)" using True by (simp add: word_less_nat_alt)
    with less.prems(4) have "unat off + unat ?n < 18446744073709551616" using unat_less_8 [of ?n] by linarith
    then have u: "unat (off + ucast ?n) = unat off + unat ?n" by (simp add: unat_add_64)
    have "0 < unat ?n" using sz(1) by (simp add: unat_gt_0)
    with lt u have "unat (madt_bytes (vmem t) madt) - unat (off + ucast ?n) < unat (madt_bytes (vmem s) madt) - unat off"
      by (simp add: t(2))
    from less.hyps [OF this] t k(2) sz(2) less.prems(4) show ?thesis
      by (simp add: madt_step [OF True t(1)])
  next
    case False
    then show ?thesis by (simp add: madt_end)
  qed
qed

text \<open>A run that returns has met no entry of size 0.\<close>

lemma madt_entries_sized:
  assumes "madt_entries_from B F madt off s = Some t" "ioapics_ok s" "known_from (vmem s) madt off"
  shows "sized_from (vmem s) madt off"
proof -
  let ?P = "\<lambda>B F madt off s t. ioapics_ok s \<longrightarrow> known_from (vmem s) madt off \<longrightarrow> sized_from (vmem s) madt off"
  have "?P B F madt off s t"
  proof (rule madt_entries_from.raw_induct [where P = ?P, OF _ assms(1)], goal_cases)
    case (1 rec B F madt off s y)
    show ?case
    proof (intro impI)
      assume ok: "ioapics_ok s" and known: "known_from (vmem s) madt off"
      show "sized_from (vmem s) madt off"
      proof (cases "off < madt_bytes (vmem s) madt")
        case True
        note k = known_from_next [OF known True]
        let ?n = "entry_size_at (vmem s) madt off"
        from switch_known [OF ok k(1)] obtain u where
          u: "acpi_switch_madt_entry B F (madt + MADT_SIZE + off) (entry_type_at (vmem s) madt off) s = Some u"
          "vmem u = vmem s" "ioapics_ok u" by blast
        have r: "rec B F madt (off + ucast ?n) u = Some y"
          using 1(2) True u(1) by (simp add: madt_bytes_def entry_type_at_def entry_size_at_def Let_def)
        from 1(1) [OF r] u k(2) have s: "sized_from (vmem s) madt (off + ucast ?n)" by simp
        moreover have "?n \<noteq> 0"
        proof
          assume z: "?n = 0"
          with s have "sized_from (vmem s) madt off" by simp
          with True z show False by (auto simp: sized_from_def intro: visited.here)
        qed
        ultimately show ?thesis by (simp add: sized_from_next [OF True])
      next
        case False
        then show ?thesis by (auto simp: sized_from_def elim: visited.cases)
      qed
    qed
  qed
  with assms(2,3) show ?thesis by blast
qed

text \<open>
  C20: Parsing a MADT of at least 44 bytes whose visited entries are of the known types ends
  exactly when no visited entry has the size 0: each other entry brings the offset closer to
  the end of the table, and at an entry of size 0 the loop stays for ever.
\<close>

theorem acpi_parse_madt_returns:
  assumes "ioapics_ok s" and "44 \<le> table_length (header_at (vmem s) madt)"
    and "\<forall>off. visited (vmem s) madt 0 off \<and> off < madt_bytes (vmem s) madt \<longrightarrow> entry_type_at (vmem s) madt off \<le> 5"
  shows "(\<exists>t. acpi_parse_madt B F madt s = Some t) \<longleftrightarrow>
    (\<forall>off. visited (vmem s) madt 0 off \<and> off < madt_bytes (vmem s) madt \<longrightarrow> entry_size_at (vmem s) madt off \<noteq> 0)"
proof -
  let ?s = "s\<lparr>lapic_address := ucast (madt_local_apic_addr (vmem s) madt)\<rparr>"
  have ok: "ioapics_ok ?s" using assms(1) by (simp add: ioapics_ok_def)
  have known: "known_from (vmem ?s) madt 0" using assms(3) by (simp add: known_from_def)
  let ?len = "table_length (header_at (vmem s) madt)"
  have "44 \<le> (ucast ?len :: u64)" using assms(2) by (simp add: word_le_nat_alt)
  then have "unat (madt_bytes (vmem ?s) madt) = unat ?len - 44"
    by (simp add: madt_bytes_def MADT_SIZE_def unat_sub)
  then have "unat (madt_bytes (vmem ?s) madt) < 4294967296" using unat_less_32 [of ?len] by linarith
  from madt_entries_return [OF ok known _ this, of B F] madt_entries_sized [OF _ ok known]
  have "(\<exists>t. acpi_parse_madt B F madt s = Some t) \<longleftrightarrow> sized_from (vmem ?s) madt 0"
    by (auto simp: acpi_parse_madt_def)
  then show ?thesis by (auto simp: sized_from_def)
qed

text \<open>A table with one entry, of type 4, at address 0: the entry has size 0 or goes to the end.\<close>

definition demo_madt :: "u8 \<Rightarrow> (u32 \<times> (u32 \<Rightarrow> u32)) acpi_state" where
  "demo_madt z = demo_kernel\<lparr>vmem := (\<lambda>_. 0)(4 := 50, 44 := 4, 45 := z)\<rparr>"

lemma demo_madt_length: "table_length (header_at (vmem (demo_madt z)) 0) = 50"
  by (simp add: header_at_def demo_madt_def load_le_4)

lemma demo_madt_bytes: "madt_bytes (vmem (demo_madt z)) 0 = 6"
  by (simp add: madt_bytes_def demo_madt_length MADT_SIZE_def)

lemma demo_madt_entry: "entry_type_at (vmem (demo_madt z)) 0 0 = 4" "entry_size_at (vmem (demo_madt z)) 0 0 = z"
  by (simp_all add: entry_type_at_def entry_size_at_def demo_madt_def MADT_SIZE_def)

lemma demo_madt_visited:
  assumes "visited (vmem (demo_madt z)) 0 0 off" "z = 0 \<or> z = 6" "off < madt_bytes (vmem (demo_madt z)) 0"
  shows "off = 0"
proof -
  have "off = 0 \<or> off = 6" if "visited (vmem (demo_madt z)) 0 o' off" "o' = 0 \<or> o' = 6" for o'
    using that
  proof (induction rule: visited.induct)
    case (there o' off)
    then have "o' = 0" by (auto simp: demo_madt_bytes)
    then show ?case using there assms(2) by (auto simp: demo_madt_entry)
  qed
  with assms(1,3) show ?thesis by (auto simp: demo_madt_bytes)
qed

theorem acpi_parse_madt_returns_witness:
  "(\<exists>t. acpi_parse_madt demo_bus demo_frame 0 (demo_madt 6) = Some t) \<and> \<not> (\<exists>t. acpi_parse_madt demo_bus demo_frame 0 (demo_madt 0) = Some t)"
proof -
  have ok: "ioapics_ok (demo_madt z)" for z using demo_ioapics by (simp add: ioapics_ok_def demo_madt_def)
  have len: "44 \<le> table_length (header_at (vmem (demo_madt z)) 0)" for z by (simp add: demo_madt_length)
  have known: "\<forall>off. visited (vmem (demo_madt z)) 0 0 off \<and> off < madt_bytes (vmem (demo_madt z)) 0 \<longrightarrow>
      entry_type_at (vmem (demo_madt z)) 0 off \<le> 5" if "z = 0 \<or> z = 6" for z
  proof (intro allI impI)
    fix off assume "visited (vmem (demo_madt z)) 0 0 off \<and> off < madt_bytes (vmem (demo_madt z)) 0"
    with demo_madt_visited that have "off = 0" by blast
    then show "entry_type_at (vmem (demo_madt z)) 0 off \<le> 5" by (simp add: demo_madt_entry)
  qed
  have "entry_size_at (vmem (demo_madt 6)) 0 off \<noteq> 0"
    if "visited (vmem (demo_madt 6)) 0 0 off" "off < madt_bytes (vmem (demo_madt 6)) 0" for off
  proof -
    have "off = 0" using demo_madt_visited [OF that(1) _ that(2)] by blast
    then show ?thesis by (simp add: demo_madt_entry)
  qed
  then have "\<exists>t. acpi_parse_madt demo_bus demo_frame 0 (demo_madt 6) = Some t"
    unfolding acpi_parse_madt_returns [OF ok len known [of 6, simplified]] by blast
  moreover have "\<not> (\<exists>t. acpi_parse_madt demo_bus demo_frame 0 (demo_madt 0) = Some t)"
    unfolding acpi_parse_madt_returns [OF ok len known [of 0, simplified]]
    by (auto simp: demo_madt_entry demo_madt_bytes intro!: exI [of _ 0] visited.here)
  ultimately show ?thesis by blast
qed

end
