(* ===== verification/Keyboard_Props.thy ===== *)
theory Keyboard_Props
  imports Keyboard
begin

text \<open>
  What the keyboard code makes of the bytes it gets: the table of the scancodes, the status
  of the modifier keys along any sequence of key codes.
\<close>

section \<open>Scancodes\<close>

lemma length_keyboard_codes [simp]: "length keyboard_codes = 75"
  by (simp add: keyboard_codes_def)

lemma keyboard_codes_classes:
  "\<forall>c \<in> set keyboard_codes. c \<noteq> KEYCODE_NULL \<and> c < 128 \<and> \<not> (IS_KEYBOARD_CONTROL c \<and> IS_TERMINAL_CONTROL c)"
  by (simp add: keyboard_codes_def c_macros IS_KEYBOARD_CONTROL_def IS_TERMINAL_CONTROL_def word_le_nat_alt)

lemma key_at_classes:
  assumes "unat i < 75"
  shows "\<exists>c. key_at i = Some c \<and> c \<noteq> KEYCODE_NULL \<and> c < 128 \<and> \<not> (IS_KEYBOARD_CONTROL c \<and> IS_TERMINAL_CONTROL c)"
  using assms keyboard_codes_classes by (simp add: key_at_def)

lemma unat_minus_8: "(y :: u8) \<le> x \<Longrightarrow> unat (x - y) = unat x - unat y"
  by (rule unat_sub)

text \<open>
  C39: Every byte that the keyboard sends has a key code, found without a read outside the
  table; the code has seven bits and is not both a control code of the keyboard and of the
  terminal; and exactly the bytes that the tables do not list give the null code.
\<close>

theorem ps2_switch_scancode_total:
  "\<exists>c. ps2_switch_scancode sc = Some c \<and> c < 128 \<and> \<not> (IS_KEYBOARD_CONTROL c \<and> IS_TERMINAL_CONTROL c) \<and>
     (c = KEYCODE_NULL \<longleftrightarrow> \<not> (1 \<le> sc \<and> sc \<le> 0x3A \<or> 0x47 \<le> sc \<and> sc \<le> 0x53 \<or> sc \<in> {0x9D, 0xAA, 0xB6, 0xB8}))"
proof -
  consider (low) "1 \<le> sc \<and> sc \<le> 0x3A" | (pad) "0x47 \<le> sc \<and> sc \<le> 0x53"
    | (other) "\<not> (1 \<le> sc \<and> sc \<le> 0x3A)" "\<not> (0x47 \<le> sc \<and> sc \<le> 0x53)" by blast
  then show ?thesis
  proof cases
    case low
    then have "unat (sc - 1) < 75" by (auto simp: unat_minus_8 word_le_nat_alt)
    from key_at_classes [OF this] low show ?thesis by (auto simp: ps2_switch_scancode_def)
  next
    case pad
    then have "unat (sc - 0x47) < 75" by (auto simp: unat_minus_8 word_le_nat_alt)
    moreover from pad have "\<not> sc \<le> 0x3A" by (simp add: word_le_nat_alt)
    ultimately show ?thesis using key_at_classes [of "sc - 0x47"] pad by (auto simp: ps2_switch_scancode_def)
  next
    case other
    then show ?thesis
      by (cases "sc \<in> {0x9D, 0xAA, 0xB6, 0xB8}")
        (auto simp: ps2_switch_scancode_def c_macros IS_KEYBOARD_CONTROL_def IS_TERMINAL_CONTROL_def)
  qed
qed

text \<open>
  A key of the keypad, whose codes stand from index 58 on, has the code of a key of the top
  row, as the table is read from its begin: 7 on the keypad is the escape key.
\<close>

theorem keypad_reads_top_row:
  assumes "0x47 \<le> sc" and "sc \<le> 0x53"
  shows "ps2_switch_scancode sc = ps2_switch_scancode (sc - 0x46)"
proof -
  from assms have "1 \<le> sc - 0x46" "sc - 0x46 \<le> 0x3A" "\<not> sc \<le> 0x3A"
    by (simp_all add: word_le_nat_alt unat_minus_8)
  with assms show ?thesis by (simp add: ps2_switch_scancode_def)
qed

section \<open>The modifier keys\<close>

text \<open>
  Whether a modifier with the given press and release codes is on after the codes \<open>cs\<close>: what
  the last of its codes says, or as before when there is none.
\<close>

definition held :: "u8 set \<Rightarrow> u8 set \<Rightarrow> u8 list \<Rightarrow> bool \<Rightarrow> bool" where
  "held press release cs before =
     (case rev (filter (\<lambda>c. c \<in> press \<union> release) cs) of [] \<Rightarrow> before | c # _ \<Rightarrow> c \<in> press)"

lemma held_Nil [simp]: "held p r [] b = b"
  by (simp add: held_def)

lemma held_snoc [simp]: "held p r (cs @ [c]) b = (if c \<in> p then True else if c \<in> r then False else held p r cs b)"
  by (simp add: held_def)

lemma modifier_codes:
  "keyboard_status_after c k =
     k\<lparr>shift := (if c \<in> {KEYCODE_LSHIFT_DOWN, KEYCODE_RSHIFT_DOWN} then True
                else if c \<in> {KEYCODE_LSHIFT_UP, KEYCODE_RSHIFT_UP} then False else shift k),
       ctrl := (if c \<in> {KEYCODE_LCTRL_DOWN, KEYCODE_RCTRL_DOWN} then True
                else if c \<in> {KEYCODE_LCTRL_UP, KEYCODE_RCTRL_UP} then False else ctrl k),
       alt := (if c = KEYCODE_ALT_DOWN then True else if c = KEYCODE_ALT_UP then False else alt k),
       altgr := (if c = KEYCODE_ALTGR_DOWN then True else if c = KEYCODE_ALTGR_UP then False else altgr k),
       capslock := (if c = KEYCODE_CAPS_LOCK then \<not> capslock k else capslock k)\<rparr>"
  by (cases k; cases "c \<in> {1, 2, 3, 4, 5, 6, 7, 11, 12, 14, 15, 16, 21}")
    (auto simp: keyboard_status_after_def c_macros)

lemma modifier_is_control: "c \<in> {1, 2, 3, 4, 5, 6, 7, 11, 12, 14, 15, 16, 21} \<Longrightarrow> IS_KEYBOARD_CONTROL c"
  by (auto simp: IS_KEYBOARD_CONTROL_def word_le_nat_alt)

lemma not_control_no_modifier: "\<not> IS_KEYBOARD_CONTROL c \<Longrightarrow> keyboard_status_after c k = k"
  by (cases "c \<in> {1, 2, 3, 4, 5, 6, 7, 11, 12, 14, 15, 16, 21}")
    (auto simp: modifier_is_control keyboard_status_after_def c_macros)

lemma ks_keyboard_control: "ks (keyboard_control c s) = keyboard_status_after c (ks s)"
  by (simp add: keyboard_control_def not_control_no_modifier)

text \<open>
  C38: After any sequence of key codes shift and control are on exactly when the last code of
  one of the two keys was a press, alt and altgr when the last code of the key was, and caps
  lock has changed when it was pressed an odd number of times; the other fields and the rest
  of the kernel's state are as before.
\<close>

theorem keyboard_control_tracks:
  "ks (fold keyboard_control cs s) =
     (ks s)\<lparr>shift := held {KEYCODE_LSHIFT_DOWN, KEYCODE_RSHIFT_DOWN} {KEYCODE_LSHIFT_UP, KEYCODE_RSHIFT_UP} cs (shift (ks s)),
       ctrl := held {KEYCODE_LCTRL_DOWN, KEYCODE_RCTRL_DOWN} {KEYCODE_LCTRL_UP, KEYCODE_RCTRL_UP} cs (ctrl (ks s)),
       alt := held {KEYCODE_ALT_DOWN} {KEYCODE_ALT_UP} cs (alt (ks s)),
       altgr := held {KEYCODE_ALTGR_DOWN} {KEYCODE_ALTGR_UP} cs (altgr (ks s)),
       capslock := (capslock (ks s) \<noteq> odd (count_list cs KEYCODE_CAPS_LOCK))\<rparr> \<and>
   (fold keyboard_control cs s)\<lparr>ks := ks s\<rparr> = s"
proof (induction cs rule: rev_induct)
  case Nil
  show ?case by simp
next
  case (snoc c cs)
  let ?t = "fold keyboard_control cs s"
  have "(keyboard_control c ?t)\<lparr>ks := ks s\<rparr> = ?t\<lparr>ks := ks s\<rparr>" by (simp add: keyboard_control_def)
  moreover have "ks (keyboard_control c ?t) = keyboard_status_after c (ks ?t)" by (rule ks_keyboard_control)
  ultimately show ?case using snoc by (simp add: modifier_codes)
qed

text \<open>Releasing one shift key switches shift off although the other one is still held.\<close>

theorem shift_lost_while_held:
  "\<not> shift (ks (fold keyboard_control [KEYCODE_LSHIFT_DOWN, KEYCODE_RSHIFT_DOWN, KEYCODE_RSHIFT_UP] s))"
  by (simp add: ks_keyboard_control keyboard_status_after_def c_macros)

end
