(* ===== verification/Rtc_Props.thy ===== *)
theory Rtc_Props
  imports Timers Demo
begin

text \<open>Reading the clock of \<^verbatim>\<open>io/rtc.c\<close>: what the conversion from BCD makes of its registers.\<close>

definition bcd :: "nat \<Rightarrow> u8" where
  "bcd n = of_nat (16 * (n div 10) + n mod 10)"

lemma digit_cases: "(d :: nat) < 10 \<Longrightarrow> d \<in> {0, 1, 2, 3, 4, 5, 6, 7, 8, 9}"
  by auto

lemma BCD_digits:
  assumes "t < 10" and "u < 10"
  shows "BCD_TO_BINARY_BYTE (of_nat (16 * t + u)) = of_nat (if t < 8 then 10 * t + u else 10 * t + u + 48)"
proof -
  have "\<forall>t \<in> {0, 1, 2, 3, 4, 5, 6, 7, 8, 9}. \<forall>u \<in> {0, 1, 2, 3, 4, 5, 6, 7, 8, 9}.
      BCD_TO_BINARY_BYTE (of_nat (16 * t + u)) = of_nat (if t < 8 then 10 * t + u else 10 * t + u + 48)"
    by (simp add: BCD_TO_BINARY_BYTE_def)
  with assms show ?thesis using digit_cases by blast
qed

lemma BCD_bcd:
  assumes "n < 100"
  shows "BCD_TO_BINARY_BYTE (bcd n) = of_nat (if n < 80 then n else n + 48)"
proof -
  have "n div 10 < 10" "n mod 10 < 10" "n div 10 < 8 \<longleftrightarrow> n < 80" using assms by auto
  moreover have "10 * (n div 10) + n mod 10 = n" by simp
  ultimately show ?thesis using BCD_digits [of "n div 10" "n mod 10"] by (simp only: bcd_def)
qed

lemma cmos_select_mask: "(reg OR push_bit 7 (of_bool b)) AND 0x7F = reg AND (0x7F :: u8)"
  by (cases b) (simp_all add: bit.conj_disj_distrib2)

text \<open>
  C40: Let the clock of a CMOS device show a time and a date in BCD.  The function returns,
  and with the values that the registers stand for, except that the day of the week is left in
  BCD and that a year from 80 on is read as 48 more, since the conversion keeps the highest
  bit of the tens.
\<close>

theorem rtc_reads_bcd:
  assumes "\<And>reg d. fst (dev_inb B CMOS_DATA_PORT (dev_outb B CMOS_SELECT_PORT reg d)) = r (reg AND 0x7F)"
    and "\<not> bit (r CMOS_STATUS_A_REGISTER) 7" and "\<not> bit (r CMOS_STATUS_B_REGISTER) 2"
    and "r CMOS_SECONDS_REGISTER = bcd sec" "sec < 60" and "r CMOS_MINUTES_REGISTER = bcd mi" "mi < 60"
    and "r CMOS_HOURS_REGISTER = bcd hr" "hr < 24" and "r CMOS_WEEK_DAY_REGISTER = bcd wd"
    and "r CMOS_MONTH_DAY_REGISTER = bcd md" "md < 32" and "r CMOS_MONTH_REGISTER = bcd mo" "mo < 13"
    and "r CMOS_YEAR_REGISTER = bcd yr" "yr < 100" and "r CMOS_CENTURY_REGISTER = bcd cen" "cen < 80"
  shows "\<exists>t. rtc_read_timedate B s =
    Some (\<lparr>td_time = \<lparr>millisecond = 0, second = of_nat sec, minute = of_nat mi, hour = of_nat hr\<rparr>,
           td_date = \<lparr>week_day = bcd wd, month_day = of_nat md, month = of_nat mo,
             year = 2000 + of_nat (if yr < 80 then yr else yr + 48), century = of_nat cen\<rparr>\<rparr>, t)"
proof -
  define after where "after reg s = snd (cmos_read_register B reg s)"
    for reg and s :: "('a, 'b) machine_state_scheme"
  have rd: "cmos_read_register B reg s = (r reg, after reg s)"
    if "reg AND 0x7F = reg" for reg and s :: "('a, 'b) machine_state_scheme"
    using assms(1) that
    by (auto simp: after_def cmos_read_register_def inb_def outb_def cmos_select_mask prod_eq_iff split_beta)
  have busy: "cmos_wait B s = Some (after CMOS_STATUS_A_REGISTER s)" for s :: "('a, 'b) machine_state_scheme"
    using assms(2) by (subst cmos_wait.simps) (simp add: cmos_update_in_progress_def rd c_macros shift_and_one_bit)
  have bcd: "(BCD_TO_BINARY_BYTE (bcd sec)) = of_nat sec" "(BCD_TO_BINARY_BYTE (bcd mi)) = of_nat mi"
    "(BCD_TO_BINARY_BYTE (bcd hr)) = of_nat hr" "(BCD_TO_BINARY_BYTE (bcd md)) = of_nat md"
    "(BCD_TO_BINARY_BYTE (bcd mo)) = of_nat mo" "(BCD_TO_BINARY_BYTE (bcd cen)) = of_nat cen"
    "(BCD_TO_BINARY_BYTE (bcd yr)) = of_nat (if yr < 80 then yr else yr + 48)"
    using assms by (simp_all add: BCD_bcd)
  have up: "ucast (of_nat k :: u8) = (of_nat k :: u16)" if "k < 256" for k
    using that by (simp add: unsigned_of_nat take_bit_nat_eq_self)
  have regs: "CMOS_STATUS_B_REGISTER AND 0x7F = CMOS_STATUS_B_REGISTER" "CMOS_SECONDS_REGISTER AND 0x7F = CMOS_SECONDS_REGISTER"
    "CMOS_MINUTES_REGISTER AND 0x7F = CMOS_MINUTES_REGISTER" "CMOS_HOURS_REGISTER AND 0x7F = CMOS_HOURS_REGISTER"
    "CMOS_WEEK_DAY_REGISTER AND 0x7F = CMOS_WEEK_DAY_REGISTER" "CMOS_MONTH_DAY_REGISTER AND 0x7F = CMOS_MONTH_DAY_REGISTER"
    "CMOS_MONTH_REGISTER AND 0x7F = CMOS_MONTH_REGISTER" "CMOS_YEAR_REGISTER AND 0x7F = CMOS_YEAR_REGISTER"
    "CMOS_CENTURY_REGISTER AND 0x7F = CMOS_CENTURY_REGISTER"
    by (simp_all add: c_macros)
  have binary: "drop_bit 2 (r CMOS_STATUS_B_REGISTER) AND 1 = 0"
    using assms(3) shift_and_one_bit [of 2 "r CMOS_STATUS_B_REGISTER"] by simp
  show ?thesis
    using assms by (simp add: rtc_read_timedate_def rd regs busy binary bcd up RTC_BASE_YEAR_def)
qed

text \<open>A clock that shows 23:59:58 on Friday 2085-12-31, whose state is the selected register.\<close>

definition clock_registers :: "u8 \<Rightarrow> u8" where
  "clock_registers reg =
     (if reg = 0 then 0x58 else if reg = 2 then 0x59 else if reg = 4 then 0x23 else if reg = 6 then 5
      else if reg = 7 then 0x31 else if reg = 8 then 0x12 else if reg = 9 then 0x85 else if reg = 0x32 then 0x20 else 0)"

definition clock_bus :: "u8 bus" where
  "clock_bus = \<lparr>dev_inb = \<lambda>p d. (if p = 0x71 then clock_registers (d AND 0x7F) else 0, d),
     dev_outb = \<lambda>p v d. if p = 0x70 then v else d, dev_inw = \<lambda>_ d. (0, d), dev_outw = \<lambda>_ _ d. d,
     dev_inl = \<lambda>_ d. (0, d), dev_outl = \<lambda>_ _ d. d, dev_read32 = \<lambda>_ d. (0, d), dev_write32 = \<lambda>_ _ d. d,
     dev_cpuid = \<lambda>_ _. (0, 0, 0, 0), dev_rdmsr = \<lambda>_ _. (0, 0), dev_wrmsr = \<lambda>_ _ d. d, dev_cr2 = \<lambda>_. 0\<rparr>"

theorem rtc_reads_bcd_witness:
  "\<exists>t. rtc_read_timedate clock_bus (machine_with 0) =
    Some (\<lparr>td_time = \<lparr>millisecond = 0, second = 58, minute = 59, hour = 23\<rparr>,
           td_date = \<lparr>week_day = 5, month_day = 31, month = 12, year = 2133, century = 20\<rparr>\<rparr>, t)"
  using rtc_reads_bcd [of clock_bus clock_registers 58 59 23 5 31 12 85 20 "machine_with 0"]
  by (simp add: clock_bus_def clock_registers_def c_macros bcd_def)

end
