(* ===== verification/Pci_Props.thy ===== *)
theory Pci_Props
  imports Pcie Demo
begin

text \<open>
  The linked lists of the device tree as lists of addresses: installing a device or a bridge
  appends it, whatever the heap gave as the memory of the nodes.
\<close>

section \<open>Nodes in memory\<close>

lemma load64_store64_apart: "blocks_apart a 8 c 8 \<Longrightarrow> load64 (store64 m a v) c = load64 m c"
  by (rule bytes.ld_st_other) (simp_all add: blocks_apart_def)

lemma byte_store64_apart: "blocks_apart a 8 c 1 \<Longrightarrow> store64 m a v c = m c"
  by (simp add: blocks_apart_def store64_def store_le_apply)

lemma load64_byte_apart: "blocks_apart a 1 c 8 \<Longrightarrow> load64 (m(a := v)) c = load64 m c"
  unfolding load64_def blocks_apart_def
  by (rule load_le_cong) (auto simp: unat_of_nat_64 dest!: arg_cong [where f = "\<lambda>x. unat (x - c)"])

definition disjoint_nodes :: "nat \<Rightarrow> u64 list \<Rightarrow> bool" where
  "disjoint_nodes sz xs \<longleftrightarrow> distinct xs \<and> (\<forall>x \<in> set xs. \<forall>y \<in> set xs. x \<noteq> y \<longrightarrow> blocks_apart x sz y sz)"

section \<open>Lists linked by a pointer\<close>

text \<open>From \<open>p\<close> on the nodes are \<open>ds\<close>, where the pointer to the next one is at offset \<open>off\<close>.\<close>

primrec node_chain :: "u64 \<Rightarrow> memory \<Rightarrow> u64 \<Rightarrow> u64 list \<Rightarrow> bool" where
  "node_chain off m p [] \<longleftrightarrow> p = null"
| "node_chain off m p (d # ds) \<longleftrightarrow> p = d \<and> d \<noteq> null \<and> node_chain off m (load64 m (d + off)) ds"

lemma chain_null_iff: "node_chain off m p ds \<Longrightarrow> p = null \<longleftrightarrow> ds = []"
  by (cases ds) auto

lemma chain_nonnull: "node_chain off m p ds \<Longrightarrow> d \<in> set ds \<Longrightarrow> d \<noteq> null"
  by (induction ds arbitrary: p) auto

lemma chain_cong:
  "(\<And>x. x \<in> set ds \<Longrightarrow> load64 m' (x + off) = load64 m (x + off)) \<Longrightarrow> node_chain off m' p ds = node_chain off m p ds"
  by (induction ds arbitrary: p) auto

lemma last_node_chain: "node_chain off m p (ds @ [d]) \<Longrightarrow> last_node off m p = Some d"
proof (induction ds arbitrary: p)
  case Nil
  then show ?case by (subst last_node.simps) simp
next
  case (Cons e ds)
  then have "node_chain off m (load64 m (e + off)) (ds @ [d])" "p = e" by auto
  moreover from this have "load64 m (e + off) \<noteq> null" by (auto dest: chain_null_iff)
  ultimately show ?case using Cons.IH by (subst last_node.simps) simp
qed

text \<open>What every list of nodes has whose link lies inside the node.\<close>

locale node_list =
  fixes off :: u64 and node_size :: nat
  assumes link_inside: "unat off + 8 \<le> node_size"
begin

lemma links_apart:
  assumes "disjoint_nodes node_size xs" and "x \<in> set xs" "y \<in> set xs" "x \<noteq> y"
  shows "blocks_apart (x + off) 8 (y + off) 8"
  using assms link_inside by (intro blocks_apart_field [of x node_size y node_size]) (auto simp: disjoint_nodes_def)

lemma chain_extend:
  assumes "node_chain off m p (ds @ [d])" and "disjoint_nodes node_size (e # ds @ [d])"
    and "e \<noteq> null" and "load64 m (e + off) = null"
  shows "node_chain off (store64 m (d + off) e) p (ds @ [d, e])"
  using assms
proof (induction ds arbitrary: p)
  case Nil
  then have "blocks_apart (d + off) 8 (e + off) 8" by (intro links_apart [OF Nil.prems(2)]) (auto simp: disjoint_nodes_def)
  with Nil show ?case by (simp add: bytes.ld_st_same load64_store64_apart)
next
  case (Cons x ds)
  have "disjoint_nodes node_size (e # ds @ [d])" using Cons.prems(2) by (simp add: disjoint_nodes_def)
  moreover have "blocks_apart (d + off) 8 (x + off) 8"
    using Cons.prems(2) by (intro links_apart [OF Cons.prems(2)]) (auto simp: disjoint_nodes_def)
  ultimately show ?case using Cons by (simp add: load64_store64_apart)
qed

end

interpretation devices: node_list 16 24
  by unfold_locales simp

interpretation bridges: node_list 24 32
  by unfold_locales simp

section \<open>Installing\<close>

lemma fields_apart:
  assumes "disjoint_nodes sz xs" "x \<in> set xs" "y \<in> set xs" "x \<noteq> y" "unat i + 8 \<le> sz" "unat j + 8 \<le> sz"
  shows "blocks_apart (x + i) 8 (y + j) 8"
  using assms by (intro blocks_apart_field [of x sz y sz]) (auto simp: disjoint_nodes_def)

lemma offset0_apart: "8 \<le> unat i \<Longrightarrow> 8 \<le> unat (- i) \<Longrightarrow> blocks_apart (x + i) 8 x 8"
  by (simp add: blocks_apart_def)

lemma offset_apart: "8 \<le> unat (i - j) \<Longrightarrow> 8 \<le> unat (j - i) \<Longrightarrow> blocks_apart (x + i) 8 (x + j) 8"
  by (simp add: blocks_apart_def algebra_simps)

lemma byte_store64_other: "\<not> in_region x a 8 \<Longrightarrow> store64 m a v x = m x"
  by (simp add: store64_def store_le_apply in_region_def)

lemma in_region_fields:
  assumes "\<not> in_region x (a + 8) 16"
  shows "\<not> in_region x (a + 8) 8" "\<not> in_region x (a + 16) 8"
proof -
  show "\<not> in_region x (a + 16) 8"
  proof
    assume "in_region x (a + 16) 8"
    then have less: "unat (x - (a + 16)) < 8" by (simp add: in_region_def)
    have "x - (a + 8) = (x - (a + 16)) + 8" by simp
    then have "unat (x - (a + 8)) = unat (x - (a + 16)) + 8"
      using less by (simp only: unat_word_ariths(1)) simp
    with less assms show False by (simp add: in_region_def)
  qed
qed (use assms in \<open>simp add: in_region_def\<close>)

text \<open>
  C23: Let the list of devices of a bus be \<open>ds\<close>, and let the bus, the new node and the nodes
  of the list be different objects that do not overlap.  Then installing the node makes the list
  \<open>ds\<close> followed by it, and it points to the bus; what the nodes stand for and the bridges
  of the bus stay as they are.  The only bytes that may change are the two pointers of the
  new node, at its offsets 8 and 16, and the link that ended the list: the pointer at
  offset 16 of the last node or, in an empty list, of the bus.
\<close>

theorem pci_tree_install_device_appends:
  assumes "node_chain 16 (vmem s) (bus_devs (vmem s) b) ds" and "disjoint_nodes 24 (b # dv # ds)"
    and "b \<noteq> null" and "dv \<noteq> null"
  shows "\<exists>m. pci_tree_install_device dv b s = Some (True, s\<lparr>vmem := m\<rparr>) \<and>
    node_chain 16 m (bus_devs m b) (ds @ [dv]) \<and> node_bus m dv = b \<and>
    (\<forall>x \<in> set (ds @ [dv]). node_dev m x = node_dev (vmem s) x) \<and> bus_bridges m b = bus_bridges (vmem s) b \<and>
    (\<forall>x. \<not> in_region x (dv + 8) 16 \<and> \<not> in_region x ((if ds = [] then b else last ds) + 16) 8 \<longrightarrow>
      m x = vmem s x)"
proof -
  let ?m1 = "store64 (vmem s) (dv + 8) b"
  let ?m2 = "store64 ?m1 (dv + 16) null"
  have dis: "x \<noteq> y \<Longrightarrow> x \<in> set (b # dv # ds) \<Longrightarrow> y \<in> set (b # dv # ds) \<Longrightarrow> unat i + 8 \<le> 24 \<Longrightarrow> unat j + 8 \<le> 24 \<Longrightarrow>
      blocks_apart (x + i) 8 (y + j) 8" for x y i j :: u64
    using fields_apart [OF assms(2)] by blast
  have ne: "b \<noteq> dv" "b \<notin> set ds" "dv \<notin> set ds" using assms(2) by (auto simp: disjoint_nodes_def)
  have m2: "load64 ?m2 (y + i) = load64 (vmem s) (y + i)" if "y \<in> set (b # ds)" "unat i + 8 \<le> 24" for y i :: u64
  proof -
    have "blocks_apart (dv + 8) 8 (y + i) 8" "blocks_apart (dv + 16) 8 (y + i) 8" using that ne by (auto intro!: dis)
    then show ?thesis by (simp add: load64_store64_apart)
  qed
  have "blocks_apart (dv + 16) 8 dv 8" "blocks_apart (dv + 8) 8 dv 8" by (simp_all add: offset0_apart)
  then have dv: "load64 ?m2 (dv + 16) = null" "load64 ?m2 (dv + 8) = b" "load64 ?m2 dv = load64 (vmem s) dv"
    by (simp_all add: bytes.ld_st_same load64_store64_apart offset_apart)
  have old: "node_chain 16 ?m2 (load64 (vmem s) (b + 16)) ds" "load64 ?m2 (b + 16) = load64 (vmem s) (b + 16)"
    using assms(1) m2 chain_cong [of ds ?m2 16 "vmem s"] by (auto simp: bus_devs_def)
  show ?thesis
  proof (cases ds rule: rev_cases)
    case Nil
    let ?m3 = "store64 ?m2 (b + 16) dv"
    have z: "load64 (vmem s) (b + 16) = null" using assms(1) Nil by (simp add: bus_devs_def)
    have m3: "load64 ?m3 (dv + i) = load64 ?m2 (dv + i)" if "unat i + 8 \<le> 24" for i
      using that ne by (intro load64_store64_apart dis) auto
    show ?thesis
    proof (intro exI [of _ ?m3] conjI ballI allI impI)
      show "pci_tree_install_device dv b s = Some (True, s\<lparr>vmem := ?m3\<rparr>)"
        using assms(3,4) z old(2) by (simp add: pci_tree_install_device_def bus_devs_def)
      show "node_chain 16 ?m3 (bus_devs ?m3 b) (ds @ [dv])"
        using Nil assms(4) m3 [of 16] dv(1) by (simp add: bus_devs_def bytes.ld_st_same)
      show "node_bus ?m3 dv = b" using m3 [of 8] dv(2) by (simp add: node_bus_def)
      show "node_dev ?m3 x = node_dev (vmem s) x" if "x \<in> set (ds @ [dv])" for x
        using that Nil m3 [of 0] dv(3) by (simp add: node_dev_def)
      show "bus_bridges ?m3 b = bus_bridges (vmem s) b"
        using m2 [of b 8] by (simp add: bus_bridges_def load64_store64_apart offset_apart)
      show "?m3 x = vmem s x"
        if "\<not> in_region x (dv + 8) 16 \<and> \<not> in_region x ((if ds = [] then b else last ds) + 16) 8" for x
        using that Nil in_region_fields [of x dv] by (simp add: byte_store64_other)
    qed
  next
    case (snoc es d)
    let ?m3 = "store64 ?m2 (d + 16) dv"
    have nz: "load64 (vmem s) (b + 16) \<noteq> null" using old(1) snoc by (auto dest: chain_null_iff)
    have last: "last_node 16 ?m2 (load64 (vmem s) (b + 16)) = Some d" using old(1) snoc by (auto intro: last_node_chain)
    have "disjoint_nodes 24 (dv # es @ [d])" using assms(2) snoc by (simp add: disjoint_nodes_def)
    then have ext: "node_chain 16 ?m3 (load64 (vmem s) (b + 16)) (es @ [d, dv])"
      using old(1) snoc assms(4) dv(1) by (auto intro: devices.chain_extend)
    have m3: "load64 ?m3 (y + i) = load64 ?m2 (y + i)"
      if "y \<in> set (b # dv # ds)" "unat i + 8 \<le> 24" "y \<noteq> d \<or> i = 8 \<or> i = 0" for y i :: u64
    proof (cases "y = d")
      case True
      then show ?thesis using that by (auto simp: load64_store64_apart offset_apart offset0_apart)
    next
      case False
      then have "blocks_apart (d + 16) 8 (y + i) 8" using that snoc by (intro dis) auto
      then show ?thesis by (rule load64_store64_apart)
    qed
    show ?thesis
    proof (intro exI [of _ ?m3] conjI ballI allI impI)
      show "pci_tree_install_device dv b s = Some (True, s\<lparr>vmem := ?m3\<rparr>)"
        using assms(3,4) nz last old(2) by (simp add: pci_tree_install_device_def bus_devs_def)
      show "node_chain 16 ?m3 (bus_devs ?m3 b) (ds @ [dv])"
        using ext m3 [of b 16] old(2) snoc ne by (simp add: bus_devs_def)
      show "node_bus ?m3 dv = b" using m3 [of dv 8] dv(2) by (simp add: node_bus_def)
      show "node_dev ?m3 x = node_dev (vmem s) x" if "x \<in> set (ds @ [dv])" for x
        using that m3 [of x 0] m2 [of x 0] dv(3) by (auto simp: node_dev_def)
      show "bus_bridges ?m3 b = bus_bridges (vmem s) b" using m3 [of b 8] m2 [of b 8] by (simp add: bus_bridges_def)
      show "?m3 x = vmem s x"
        if "\<not> in_region x (dv + 8) 16 \<and> \<not> in_region x ((if ds = [] then b else last ds) + 16) 8" for x
        using that snoc in_region_fields [of x dv] by (simp add: byte_store64_other)
    qed
  qed
qed

text \<open>A bus at \<open>0x1000\<close> with one device node at \<open>0x2000\<close>, and a second node at \<open>0x3000\<close>.\<close>

definition pci_with :: "'d \<Rightarrow> memory \<Rightarrow> 'd pci_state" where
  "pci_with d m = acpi_state.extend ((kernel_with d)\<lparr>vmem := m\<rparr>) (pci_state.fields 0x1000)"

lemma pci_with_simps [simp]: "vmem (pci_with d m) = m" "pci_tree_root (pci_with d m) = 0x1000" "device (pci_with d m) = d"
  by (simp_all add: pci_with_def acpi_state.extend_def pci_state.fields_def demo_defs)

definition demo_pci :: "(u32 \<times> (u32 \<Rightarrow> u32)) pci_state" where
  "demo_pci = pci_with (0, \<lambda>r. 0) (store64 (\<lambda>_. 0) 0x1010 0x2000)"

lemma vmem_demo_pci: "vmem demo_pci = store64 (\<lambda>_. 0) 0x1010 0x2000"
  by (simp add: demo_pci_def)

theorem pci_tree_install_device_appends_witness:
  "\<exists>m. pci_tree_install_device 0x3000 0x1000 demo_pci = Some (True, demo_pci\<lparr>vmem := m\<rparr>) \<and>
    node_chain 16 m (bus_devs m 0x1000) [0x2000, 0x3000] \<and> node_bus m 0x3000 = 0x1000"
proof -
  have "bus_devs (vmem demo_pci) 0x1000 = 0x2000"
    by (simp add: vmem_demo_pci bus_devs_def bytes.ld_st_same)
  moreover have "load64 (vmem demo_pci) 0x2010 = 0"
    by (simp add: vmem_demo_pci load64_store64_apart blocks_apart_def)
  ultimately show ?thesis
    using pci_tree_install_device_appends [of demo_pci "0x1000" "[0x2000]" "0x3000"]
    by (auto simp: disjoint_nodes_def blocks_apart_def)
qed

text \<open>
  The same for a bridge, whose node comes from the heap: \<open>s\<close> is the state before the call and
  \<open>s1\<close> the one after the \<^verbatim>\<open>kmalloc\<close> in it.
\<close>

theorem pci_tree_install_bus_appends:
  assumes "kmalloc 32 s = Some (r, s1)" and "r \<noteq> null" "pri \<noteq> null" "sec \<noteq> null"
    and "node_chain 24 (vmem s1) (bus_bridges (vmem s1) pri) rs" and "disjoint_nodes 32 (r # rs)"
    and "\<forall>x \<in> set (r # rs). blocks_apart pri 24 x 32"
  shows "\<exists>m. pci_tree_install_bus pri sec config s = Some (True, s1\<lparr>vmem := m\<rparr>) \<and>
    node_chain 24 m (bus_bridges m pri) (rs @ [r]) \<and>
    bridge_primary m r = pri \<and> bridge_secondary m r = sec \<and> bridge_config m r = config \<and>
    bus_devs m pri = bus_devs (vmem s1) pri"
proof -
  let ?m = "store64 (store64 (store64 (store64 (vmem s1) (r + 16) config) r pri) (r + 8) sec) (r + 24) null"
  have r: "load64 ?m r = pri" "load64 ?m (r + 8) = sec" "load64 ?m (r + 16) = config" "load64 ?m (r + 24) = null"
    by (simp_all add: bytes.ld_st_same load64_store64_apart offset_apart offset0_apart blocks_apart_sym [OF offset0_apart])
  have nodes: "blocks_apart (r + i) 8 (x + j) 8" if "x \<in> set rs" "unat i + 8 \<le> 32" "unat j + 8 \<le> 32" for x i j :: u64
    using fields_apart [OF assms(6)] that assms(6) by (auto simp: disjoint_nodes_def)
  have bus: "blocks_apart (x + i) 8 (pri + j) 8" if "x \<in> set (r # rs)" "unat i + 8 \<le> 32" "unat j + 8 \<le> 24" for x i j :: u64
    using that assms(7) by (intro blocks_apart_sym [OF blocks_apart_field [of pri 24 x 32]]) auto
  have m_bus: "load64 ?m (pri + j) = load64 (vmem s1) (pri + j)" if "unat j + 8 \<le> 24" for j
    using bus [of r 0 j] bus [of r 8 j] bus [of r 16 j] bus [of r 24 j] that by (simp add: load64_store64_apart)
  have m_rs: "load64 ?m (x + 24) = load64 (vmem s1) (x + 24)" if "x \<in> set rs" for x
    using nodes [OF that, of 0 24] nodes [OF that, of 8 24] nodes [OF that, of 16 24] nodes [OF that, of 24 24]
    by (simp add: load64_store64_apart)
  have old: "node_chain 24 ?m (load64 (vmem s1) (pri + 8)) rs" "load64 ?m (pri + 8) = load64 (vmem s1) (pri + 8)"
    using assms(5) m_rs m_bus [of 8] chain_cong [of rs ?m 24 "vmem s1"] by (auto simp: bus_bridges_def)
  note unfold = pci_tree_install_bus_def bus_bridges_def bus_devs_def bridge_primary_def bridge_secondary_def bridge_config_def
  show ?thesis
  proof (cases rs rule: rev_cases)
    case Nil
    let ?m' = "store64 ?m (pri + 8) r"
    have keep: "load64 ?m' (r + j) = load64 ?m (r + j)" if "unat j + 8 \<le> 32" for j
      using that by (intro load64_store64_apart blocks_apart_sym [OF bus]) auto
    have "load64 (vmem s1) (pri + 8) = null" using assms(5) Nil by (simp add: bus_bridges_def)
    moreover have "load64 ?m' (pri + 16) = load64 ?m (pri + 16)" by (simp add: load64_store64_apart offset_apart)
    ultimately show ?thesis
      using assms(1-4) Nil old(2) r keep [of 0] keep [of 8] keep [of 16] keep [of 24] m_bus [of 16]
      by (intro exI [of _ ?m']) (simp add: unfold bytes.ld_st_same)
  next
    case (snoc qs d)
    let ?m' = "store64 ?m (d + 24) r"
    have "disjoint_nodes 32 (r # qs @ [d])" using assms(6) snoc by simp
    then have ext: "node_chain 24 ?m' (load64 (vmem s1) (pri + 8)) (qs @ [d, r])"
      using old(1) snoc assms(2) r(4) by (auto intro: bridges.chain_extend)
    have last: "last_node 24 ?m (load64 (vmem s1) (pri + 8)) = Some d" "load64 (vmem s1) (pri + 8) \<noteq> null"
      using old(1) snoc by (auto intro: last_node_chain dest: chain_null_iff)
    have keep: "load64 ?m' (r + j) = load64 ?m (r + j)" if "unat j + 8 \<le> 32" for j
      using that snoc by (intro load64_store64_apart blocks_apart_sym [OF nodes]) auto
    have "load64 ?m' (pri + j) = load64 ?m (pri + j)" if "unat j + 8 \<le> 24" for j
      using that snoc by (intro load64_store64_apart bus) auto
    from this [of 8] this [of 16] ext last snoc show ?thesis
      using assms(1-4) old(2) r keep [of 0] keep [of 8] keep [of 16] m_bus [of 16]
      by (intro exI [of _ ?m']) (simp add: unfold)
  qed
qed

section \<open>Finding a bus\<close>

text \<open>
  The tree in memory as a tree of addresses: a bus with its number, and for each of its
  bridges the bridge node, the highest bus number behind it, and the bus it leads to.
\<close>

datatype bus_tree = Bus (bus_addr: u64) u8 "(u64 \<times> u8 \<times> bus_tree) list"

fun is_tree :: "memory \<Rightarrow> bus_tree \<Rightarrow> bool" where
  "is_tree m (Bus b k ls) \<longleftrightarrow> bus_id m b = k \<and> node_chain 24 m (bus_bridges m b) (map fst ls) \<and>
     (\<forall>(r, sub, t) \<in> set ls. bridge_primary m r = b \<and> bridge_secondary m r = bus_addr t \<and>
        subordinate_bus_number m (bridge_config m r) = sub \<and> is_tree m t)"

fun buses :: "bus_tree \<Rightarrow> (u8 \<times> u64) list" where
  "buses (Bus b k ls) = (k, b) # concat (map (\<lambda>(r, sub, t). buses t) ls)"

text \<open>
  The numbering that the firmware makes: the buses behind a bridge have numbers above that of
  its bus, up to the highest one of the bridge, and those behind a later bridge are above.
\<close>

definition ordered_links :: "u8 \<Rightarrow> (u64 \<times> u8 \<times> bus_tree) list \<Rightarrow> bool" where
  "ordered_links k ls \<longleftrightarrow> (\<forall>(r, sub, t) \<in> set ls. \<forall>i \<in> fst ` set (buses t). k < i \<and> i \<le> sub) \<and>
     sorted_wrt (\<lambda>(r, sub, t) (r', sub', t'). \<forall>i \<in> fst ` set (buses t'). sub < i) ls"

fun well_numbered :: "bus_tree \<Rightarrow> bool" where
  "well_numbered (Bus b k ls) \<longleftrightarrow> ordered_links k ls \<and> (\<forall>(r, sub, t) \<in> set ls. well_numbered t)"

lemma find_bridge_links:
  assumes "node_chain 24 m p (map fst ls)" and "ls \<noteq> []"
    and "\<forall>(r, sub, t) \<in> set ls. bus_id m (bridge_primary m r) = k \<and> subordinate_bus_number m (bridge_config m r) = sub"
  shows "find_bridge m n p =
    Some (case List.find (\<lambda>(r, sub, t). k \<le> n \<and> n \<le> sub) ls of None \<Rightarrow> null | Some (r, sub, t) \<Rightarrow> r)"
  using assms
proof (induction ls arbitrary: p)
  case (Cons l ls)
  obtain r sub t where l: "l = (r, sub, t)" by (cases l)
  have nxt: "bridge_next m r = null \<longleftrightarrow> ls = []"
    using Cons.prems(1) l by (cases ls) (auto simp: bridge_next_def)
  show ?case
  proof (cases "k \<le> n \<and> n \<le> sub \<or> ls = []")
    case True
    then show ?thesis using Cons.prems l nxt by (subst find_bridge.simps) auto
  next
    case False
    then show ?thesis using Cons l nxt by (subst find_bridge.simps) (auto simp: bridge_next_def)
  qed
qed simp

lemma map_of_links:
  assumes "ordered_links k ls"
  shows "map_of (concat (map (\<lambda>(r, sub, t). buses t) ls)) n =
    (case List.find (\<lambda>(r, sub, t). k \<le> n \<and> n \<le> sub) ls of None \<Rightarrow> None | Some (r, sub, t) \<Rightarrow> map_of (buses t) n)"
  using assms
proof (induction ls)
  case (Cons l ls)
  obtain r sub t where l: "l = (r, sub, t)" by (cases l)
  have ls: "ordered_links k ls" using Cons.prems by (auto simp: ordered_links_def)
  have t: "map_of (buses t) n = None" if "\<not> (k \<le> n \<and> n \<le> sub)"
    using Cons.prems that l by (force simp: ordered_links_def map_of_eq_None_iff)
  have later: "map_of (concat (map (\<lambda>(r, sub, t). buses t) ls)) n = None" if "n \<le> sub"
    using Cons.prems that l by (force simp: ordered_links_def map_of_eq_None_iff)
  show ?case using Cons.IH [OF ls] t later l
    by (cases "k \<le> n \<and> n \<le> sub") (auto simp: map_add_def split: option.splits)
qed simp

lemma bus_by_id_tree:
  assumes "is_tree m t" and "well_numbered t"
  shows "bus_by_id m n (bus_addr t) = Some (case map_of (buses t) n of None \<Rightarrow> null | Some b \<Rightarrow> b)"
  using assms
proof (induction t)
  case (Bus b k ls)
  show ?case
  proof (cases "k = n \<or> ls = []")
    case True
    then show ?thesis using Bus.prems by (subst bus_by_id.simps) auto
  next
    case False
    then have nz: "bus_bridges m b \<noteq> null" using Bus.prems by (auto dest: chain_null_iff)
    have find: "find_bridge m n (bus_bridges m b) =
        Some (case List.find (\<lambda>(r, sub, t). k \<le> n \<and> n \<le> sub) ls of None \<Rightarrow> null | Some (r, sub, t) \<Rightarrow> r)"
      using Bus.prems False by (intro find_bridge_links) auto
    have links: "ordered_links k ls" using Bus.prems(2) by simp
    show ?thesis
    proof (cases "List.find (\<lambda>(r, sub, t). k \<le> n \<and> n \<le> sub) ls")
      case None
      then show ?thesis using False nz find map_of_links [OF links, of n] Bus.prems(1)
        by (subst bus_by_id.simps) auto
    next
      case (Some l)
      obtain r sub t where l: "l = (r, sub, t)" by (cases l)
      have mem: "(r, sub, t) \<in> set ls" using Some l by (auto simp: find_Some_iff in_set_conv_nth)
      then have "r \<noteq> null" using Bus.prems(1) chain_nonnull by fastforce
      moreover have "bus_by_id m n (bus_addr t) = Some (case map_of (buses t) n of None \<Rightarrow> null | Some b \<Rightarrow> b)"
      proof (rule Bus.IH [OF mem, of "(sub, t)" t])
        show "is_tree m t" using Bus.prems(1) mem by fastforce
        show "well_numbered t" using Bus.prems(2) mem by fastforce
      qed simp_all
      moreover have "bridge_secondary m r = bus_addr t" using Bus.prems(1) mem by auto
      ultimately show ?thesis using False nz find Some l map_of_links [OF links, of n] Bus.prems(1)
        by (subst bus_by_id.simps) auto
    qed
  qed
qed

text \<open>
  C22: In a tree that is numbered as the firmware numbers the buses, the search for a number
  ends, at the bus that has it, or with null when no bus of the tree has.
\<close>

theorem pci_tree_get_bus_by_id_finds:
  assumes "is_tree (vmem s) t" and "well_numbered t" and "pci_tree_root s = bus_addr t"
  shows "pci_tree_get_bus_by_id n s = Some (case map_of (buses t) n of None \<Rightarrow> null | Some b \<Rightarrow> b)"
  using assms bus_by_id_tree by (simp add: pci_tree_get_bus_by_id_def)

text \<open>Bus 0 at \<open>0x1000\<close>, its bridge node at \<open>0x2000\<close> and the bus 1 behind it at \<open>0x3000\<close>.\<close>

definition demo_buses :: "u8 \<Rightarrow> (u32 \<times> (u32 \<Rightarrow> u32)) pci_state" where
  "demo_buses sub = demo_pci\<lparr>vmem := (store64 (store64 (store64 (store64 (\<lambda>_. 0) 0x1008 0x2000)
     0x2000 0x1000) 0x2008 0x3000) 0x2010 0x4000)(0x401A := sub, 0x3000 := 1)\<rparr>"

theorem pci_tree_get_bus_by_id_finds_witness:
  "pci_tree_get_bus_by_id 1 (demo_buses 1) = Some 0x3000"
proof -
  have "is_tree (vmem (demo_buses 1)) (Bus 0x1000 0 [(0x2000, 1, Bus 0x3000 1 [])])"
    by (simp add: demo_buses_def bus_id_def bus_bridges_def bridge_primary_def bridge_secondary_def bridge_config_def
        bridge_next_def subordinate_bus_number_def load64_byte_apart load64_store64_apart byte_store64_apart
        bytes.ld_st_same blocks_apart_def)
  moreover have "pci_tree_root (demo_buses 1) = 0x1000"
    by (simp add: demo_buses_def demo_pci_def)
  ultimately show ?thesis
    using pci_tree_get_bus_by_id_finds [of "demo_buses 1" "Bus 0x1000 0 [(0x2000, 1, Bus 0x3000 1 [])]" 1]
    by (simp add: ordered_links_def)
qed

section \<open>Addresses of the functions\<close>

lemma unat_push_byte: "k \<le> 56 \<Longrightarrow> unat (push_bit k (ucast (x :: u8)) :: u64) = unat x * 2 ^ k"
proof -
  assume k: "k \<le> 56"
  have "unat x * 2 ^ k < 2 ^ 8 * 2 ^ k" using unsigned_less [of x] by simp
  also have "\<dots> = 2 ^ (8 + k)" by (simp add: power_add)
  also have "\<dots> \<le> (2 :: nat) ^ 64" using k by (intro power_increasing) auto
  finally show ?thesis by (simp add: unsigned_push_bit_eq push_bit_eq_mult [of k "unat x"] take_bit_nat_eq_self)
qed

lemma not_bit_small: "unat (x :: 'a::len word) < 2 ^ k \<Longrightarrow> k \<le> n \<Longrightarrow> \<not> bit x n"
proof
  assume h: "unat x < 2 ^ k" "k \<le> n" "bit x n"
  then have "bit (take_bit k (unat x)) n" by (simp add: take_bit_nat_eq_self bit_unsigned_iff)
  with h(2) show False by (simp add: bit_take_bit_iff)
qed

text \<open>Shifted fields that do not overlap are added.\<close>

lemma or_push_field:
  assumes "unat (y :: u64) < 2 ^ k"
  shows "push_bit k x OR y = push_bit k x + y"
  using not_bit_small [OF assms] by (intro disjunctive_add_eq_or [symmetric] bit_word_eqI) (auto simp: bit_simps)

text \<open>
  The configuration spaces of the functions of the 256 buses, with 32 devices of 8
  functions each, are the consecutive blocks of 4096 bytes of a window of 256 MiB: two
  functions have the same address only when they are the same.
\<close>

theorem PCIE_FNC_ADDRESS_decodes:
  assumes "dv < 32" and "fnc < 8"
  shows "unat (PCIE_FNC_ADDRESS config b dv fnc - config) = 4096 * ((unat b * 32 + unat dv) * 8 + unat fnc)"
proof -
  let ?b = "push_bit 20 (ucast b) :: u64" and ?d = "push_bit 15 (ucast dv) :: u64" and ?f = "push_bit 12 (ucast fnc) :: u64"
  have u: "unat ?b = unat b * 2 ^ 20" "unat ?d = unat dv * 2 ^ 15" "unat ?f = unat fnc * 2 ^ 12"
    by (simp_all only: unat_push_byte)
  have lt: "unat dv < 32" "unat fnc < 8" "unat b < 256" using assms by (simp_all add: word_less_nat_alt)
  have df: "unat (?d + ?f) = unat dv * 2 ^ 15 + unat fnc * 2 ^ 12"
    using lt u(2,3) by (subst unat_add_64) simp_all
  have "?d OR ?f = ?d + ?f" using lt u(3) by (intro or_push_field) simp
  moreover have "?b OR (?d + ?f) = ?b + (?d + ?f)" using lt df by (intro or_push_field) simp
  ultimately have "PCIE_FNC_ADDRESS config b dv fnc - config = ?b + (?d + ?f)"
    by (simp add: PCIE_FNC_ADDRESS_def or.assoc)
  moreover have "unat (?b + (?d + ?f)) = unat b * 2 ^ 20 + (unat dv * 2 ^ 15 + unat fnc * 2 ^ 12)"
  proof -
    have "unat b * 2 ^ 20 + (unat dv * 2 ^ 15 + unat fnc * 2 ^ 12) < (18446744073709551616 :: nat)" using lt by (simp del: unat_less_8)
    then show ?thesis using unat_add_64 [of ?b "?d + ?f"] u(1) df by (simp only:)
  qed
  ultimately show ?thesis by simp
qed

theorem PCIE_FNC_ADDRESS_decodes_witness:
  "unat (PCIE_FNC_ADDRESS 0xB0000000 1 31 7 - 0xB0000000) = 4096 * ((1 * 32 + 31) * 8 + 7)"
  using PCIE_FNC_ADDRESS_decodes [of 31 7 "0xB0000000" 1] by simp

end
