(* ===== verification/Ide_Props.thy ===== *)
theory Ide_Props
  imports Ide_Setup Pci_Props
begin

text \<open>
  The IDE driver: which address and count the drive is told, and that a read stores what the
  drive offers.
\<close>

section \<open>The address of a transaction\<close>

text \<open>The values written to a register, in order.\<close>

definition written :: "u8 \<Rightarrow> (u8 \<times> u16) list \<Rightarrow> nat list" where
  "written reg rs = map (\<lambda>(r, v). unat v) (filter (\<lambda>(r, v). r = reg) rs)"

lemma written_simps [simp]:
  "written reg [] = []"
  "written reg ((r, v) # rs) = (if r = reg then unat v # written reg rs else written reg rs)"
  by (simp_all add: written_def)

text \<open>
  What a drive makes of them: with 28 bits the last three bytes and the low half of the drive
  register; with 48 bits a register is written twice, the high byte first.
\<close>

definition told_address :: "u32 \<Rightarrow> (u8 \<times> u16) list \<Rightarrow> nat" where
  "told_address mode rs =
     (let lo = written IDE_BAR_OFFSET_LBA_LO rs; mid = written IDE_BAR_OFFSET_LBA_MID rs;
          hi = written IDE_BAR_OFFSET_LBA_HI rs; head = written IDE_BAR_OFFSET_DRIVE_HEAD rs
      in if mode = lba48
         then lo ! 1 + 2 ^ 8 * mid ! 1 + 2 ^ 16 * hi ! 1 + 2 ^ 24 * lo ! 0 + 2 ^ 32 * mid ! 0 + 2 ^ 40 * hi ! 0
         else lo ! 0 + 2 ^ 8 * mid ! 0 + 2 ^ 16 * hi ! 0 + 2 ^ 24 * (head ! 0 mod 16))"

definition told_count :: "u32 \<Rightarrow> (u8 \<times> u16) list \<Rightarrow> nat" where
  "told_count mode rs =
     (let c = written IDE_BAR_OFFSET_SECTOR_COUNT rs in if mode = lba48 then c ! 1 + 2 ^ 8 * c ! 0 else c ! 0)"

lemma and_255: "x AND 0xFF = take_bit 8 (x :: 'a::len word)"
  by (simp add: take_bit_eq_mask mask_eq_exp_minus_1)

lemma and_15: "x AND 0x0F = take_bit 4 (x :: 'a::len word)"
  by (simp add: take_bit_eq_mask mask_eq_exp_minus_1)

lemma unat_byte_of:
  "unat (ucast (drop_bit k (x :: u64) AND 0xFF) :: u16) = unat x div 2 ^ k mod 256"
  by (simp add: and_255 unsigned_ucast_eq unsigned_take_bit_eq unsigned_drop_bit_eq take_bit_eq_mod [symmetric]
      take_bit_eq_mod [of 8, simplified, symmetric] drop_bit_eq_div [symmetric] take_bit_nat_eq_self)

lemma unat_shifted_byte:
  "unat (ucast (drop_bit 8 (x :: u64) AND 0xFF) :: u16) = unat x div 256 mod 256"
  "unat (ucast (drop_bit 16 x AND 0xFF) :: u16) = unat x div 65536 mod 256"
  "unat (ucast (drop_bit 24 x AND 0xFF) :: u16) = unat x div 16777216 mod 256"
  "unat (ucast (drop_bit 32 x AND 0xFF) :: u16) = unat x div 4294967296 mod 256"
  "unat (ucast (drop_bit 40 x AND 0xFF) :: u16) = unat x div 1099511627776 mod 256"
  by (simp_all only: unat_byte_of) simp_all

lemma unat_byte_0: "unat (ucast ((x :: u64) AND 0xFF) :: u16) = unat x mod 256"
  using unat_byte_of [of 0 x] by simp

lemma mod_split: "(x :: nat) mod (2 ^ 8 * m) = x mod 2 ^ 8 + 2 ^ 8 * (x div 2 ^ 8 mod m)"
  by (simp add: mod_mult2_eq)

lemma bytes_28:
  "(x :: nat) mod 256 + 256 * (x div 256 mod 256) + 65536 * (x div 65536 mod 256) + 16777216 * (x div 16777216 mod 16) =
   x mod 268435456"
  using mod_mult2_eq [of x 256 "1048576"] mod_mult2_eq [of "x div 256" 256 4096] mod_mult2_eq [of "x div 65536" 256 16]
  by (simp add: div_mult2_eq [symmetric])

lemma bytes_48:
  "(x :: nat) mod 256 + 256 * (x div 256 mod 256) + 65536 * (x div 65536 mod 256) + 16777216 * (x div 16777216 mod 256) +
   4294967296 * (x div 4294967296 mod 256) + 1099511627776 * (x div 1099511627776 mod 256) = x mod 281474976710656"
  using mod_mult2_eq [of x 256 "1099511627776"] mod_mult2_eq [of "x div 256" 256 4294967296]
    mod_mult2_eq [of "x div 65536" 256 16777216] mod_mult2_eq [of "x div 16777216" 256 65536]
    mod_mult2_eq [of "x div 4294967296" 256 256]
  by (simp add: div_mult2_eq [symmetric])

lemma head_low:
  fixes x :: u64 and y :: u8
  assumes "y AND 0x0F = 0"
  shows "unat (ucast (y OR ucast (drop_bit 24 x AND 0x0F) :: u8) :: u16) mod 16 = unat x div 16777216 mod 16"
proof -
  let ?z = "ucast (drop_bit 24 x AND 0x0F) :: u8"
  have "take_bit 4 (y OR ?z) = take_bit 4 ?z" using assms by (simp only: and_15 take_bit_or) simp
  then have "unat (take_bit 4 (y OR ?z)) = take_bit 4 (unat ?z)" by (simp add: unsigned_take_bit_eq)
  also have "unat ?z = take_bit 4 (drop_bit 24 (unat x))"
    by (simp only: and_15 unsigned_ucast_eq unsigned_take_bit_eq unsigned_drop_bit_eq) (simp add: take_bit_nat_eq_self)
  finally have "unat (take_bit 4 (y OR ?z)) = unat x div 16777216 mod 16"
    by (simp only: take_bit_take_bit) (simp add: take_bit_eq_mod drop_bit_eq_div)
  moreover have "unat (ucast (y OR ?z) :: u16) = unat (y OR ?z)" by (rule unat_ucast_up) simp
  moreover have "unat (take_bit 4 (y OR ?z)) = unat (y OR ?z) mod 16"
    by (simp only: unsigned_take_bit_eq) (simp add: take_bit_eq_mod)
  ultimately show ?thesis by (simp only:)
qed

text \<open>
  C28: With 28 or 48 bits a transaction that does not ask for more sectors than the drive has
  is sent, and the drive is told the address modulo 2 to the 28 or 48 and the count modulo
  256 or 65536: the address itself is not compared with the size of the drive.
\<close>

theorem ide_init_transaction_address:
  assumes "addr_mode dv = lba28 \<or> addr_mode dv = lba48" and "n \<noteq> 0" and "n \<le> sectors dv"
    and "ide_bus dv \<noteq> null" and "ucast (drive dv) AND (0x0F :: u8) = 0"
  shows "\<exists>rs. ide_init_transaction B (Some dv) address n s = (True, ide_write_regs B (ide_bus dv) rs s) \<and>
    told_address (addr_mode dv) rs = unat address mod (if addr_mode dv = lba28 then 2 ^ 28 else 2 ^ 48) \<and>
    told_count (addr_mode dv) rs = unat n mod (if addr_mode dv = lba28 then 2 ^ 8 else 2 ^ 16)"
proof -
  have ne: "lba28 \<noteq> chs" "lba48 \<noteq> chs" "lba48 \<noteq> lba28" "lba28 \<noteq> lba48" by (simp_all add: c_macros)
  obtain rs where rs: "transaction_regs dv address n = Some rs"
    using assms(1) ne by (auto simp: transaction_regs_def Let_def)
  have sent: "ide_init_transaction B (Some dv) address n s = (True, ide_write_regs B (ide_bus dv) rs s)"
    using assms rs by (simp add: ide_init_transaction_def not_less)
  have regs: "IDE_BAR_OFFSET_DRIVE_HEAD = 6" "IDE_BAR_OFFSET_SECTOR_COUNT = 2" "IDE_BAR_OFFSET_LBA_LO = 3"
    "IDE_BAR_OFFSET_LBA_MID = 4" "IDE_BAR_OFFSET_LBA_HI = 5" by (simp_all add: c_macros)
  have "(ucast (drive dv) OR 0x40) AND (0x0F :: u8) = 0" using assms(5) by (simp add: bit.conj_disj_distrib2)
  note head = head_low [OF this, of address]
  have count: "unat (ucast (ucast n :: u8) :: u16) = unat n mod 256"
    by (subst unat_ucast_up) (simp_all add: unsigned_ucast_eq take_bit_eq_mod)
  show ?thesis
  proof (cases "addr_mode dv = lba28")
    case True
    define h c a0 a1 a2 where "h = (ucast (ucast (drive dv) OR 0x40 OR ucast (drop_bit 24 address AND 0x0F) :: u8) :: u16)"
      and "c = (ucast (ucast n :: u8) :: u16)"
      and "a0 = (ucast (address AND 0xFF) :: u16)" and "a1 = (ucast (drop_bit 8 address AND 0xFF) :: u16)"
      and "a2 = (ucast (drop_bit 16 address AND 0xFF) :: u16)"
    note defs = this
    have h: "unat h mod 16 = unat address div 16777216 mod 16" using head by (simp add: h_def or.assoc)
    have a: "unat a0 = unat address mod 256" "unat a1 = unat address div 256 mod 256" "unat a2 = unat address div 65536 mod 256"
      "unat c = unat n mod 256"
      unfolding defs by (rule unat_byte_0 unat_shifted_byte count)+
    have e: "rs = [(6, h), (2, c), (3, a0), (4, a1), (5, a2)]"
      using rs True ne by (simp only: transaction_regs_def Let_def regs defs if_False if_True option.inject refl)
    have "told_address (addr_mode dv) rs = unat address mod 2 ^ 28"
      using True ne by (simp add: told_address_def e regs a h bytes_28)
    moreover have "told_count (addr_mode dv) rs = unat n mod 256"
      using True ne by (simp add: told_count_def e regs a)
    ultimately show ?thesis using sent True by auto
  next
    case False
    then have m: "addr_mode dv = lba48" using assms(1) by simp
    define h c0 c1 a0 a1 a2 a3 a4 a5 where "h = (ucast (ucast (drive dv) OR 0x40 :: u8) :: u16)"
      and "c0 = (ucast (n AND 0xFF) :: u16)" and "c1 = (ucast (drop_bit 8 n AND 0xFF) :: u16)"
      and "a0 = (ucast (address AND 0xFF) :: u16)" and "a1 = (ucast (drop_bit 8 address AND 0xFF) :: u16)"
      and "a2 = (ucast (drop_bit 16 address AND 0xFF) :: u16)" and "a3 = (ucast (drop_bit 24 address AND 0xFF) :: u16)"
      and "a4 = (ucast (drop_bit 32 address AND 0xFF) :: u16)" and "a5 = (ucast (drop_bit 40 address AND 0xFF) :: u16)"
    note defs = this
    have a: "unat a0 = unat address mod 256" "unat a1 = unat address div 256 mod 256" "unat a2 = unat address div 65536 mod 256"
      "unat a3 = unat address div 16777216 mod 256" "unat a4 = unat address div 4294967296 mod 256"
      "unat a5 = unat address div 1099511627776 mod 256" "unat c0 = unat n mod 256" "unat c1 = unat n div 256 mod 256"
      unfolding defs by (rule unat_byte_0 unat_shifted_byte)+
    have e: "rs = [(6, h), (2, c1), (3, a3), (4, a4), (5, a5), (2, c0), (3, a0), (4, a1), (5, a2)]"
      using rs m ne by (simp only: transaction_regs_def Let_def regs defs if_False if_True option.inject refl)
    have "told_address (addr_mode dv) rs = unat address mod 2 ^ 48"
      using m by (simp add: told_address_def e regs a bytes_48)
    moreover have "told_count (addr_mode dv) rs = unat n mod 65536"
      using m mod_mult2_eq [of "unat n" 256 256] by (simp add: told_count_def e regs a)
    ultimately show ?thesis using sent m ne by auto
  qed
qed

definition demo_drive :: "u32 \<Rightarrow> ide_device_t" where
  "demo_drive mode = \<lparr>ide_bus = 0x5000, ide_type = ide_pata, addr_mode = mode, sectors = 1000, drive = 0xA0, magic = 0xC0\<rparr>"

theorem ide_init_transaction_address_witness:
  "\<exists>rs. ide_init_transaction demo_bus (Some (demo_drive lba28)) 0x12345678 300 demo_pci =
      (True, ide_write_regs demo_bus 0x5000 rs demo_pci) \<and>
    told_address lba28 rs = 0x2345678 \<and> told_count lba28 rs = 44"
  using ide_init_transaction_address [of "demo_drive lba28" 300 demo_bus "0x12345678" demo_pci]
  by (simp add: demo_drive_def)

section \<open>Reading\<close>

text \<open>
  A drive at the base address \<open>io\<close> that is never busy and has no error; the words that it
  still has to deliver are \<open>pending\<close>.  It asks for the data register while there are some, the
  command \<open>cmd\<close> makes them \<open>ws\<close>, and no other access to its registers changes them.
\<close>

definition reg_port :: "u32 \<Rightarrow> u8 \<Rightarrow> u16" where
  "reg_port io reg = ucast (io + ucast reg)"

definition status_ok :: "u16 \<Rightarrow> bool \<Rightarrow> bool" where
  "status_ok v drq \<longleftrightarrow> \<not> bit v 7 \<and> \<not> bit v 0 \<and> \<not> bit v 5 \<and> (bit v 3 \<longleftrightarrow> drq)"

definition pio_drive :: "'d bus \<Rightarrow> u32 \<Rightarrow> u16 \<Rightarrow> u16 list \<Rightarrow> ('d \<Rightarrow> u16 list) \<Rightarrow> bool" where
  "pio_drive B io cmd ws pending \<longleftrightarrow>
     (\<forall>d. status_ok (fst (dev_inw B (reg_port io 7) d)) (pending d \<noteq> []) \<and>
       (\<forall>reg \<in> {6, 7}. pending (snd (dev_inw B (reg_port io reg) d)) = pending d) \<and>
       (\<forall>reg \<in> {2, 3, 4, 5, 6}. \<forall>v. pending (dev_outw B (reg_port io reg) v d) = pending d) \<and>
       pending (dev_outw B (reg_port io 7) cmd d) = ws \<and>
       (\<forall>w us. pending d = w # us \<longrightarrow>
          fst (dev_inw B (reg_port io 0) d) = w \<and> pending (snd (dev_inw B (reg_port io 0) d)) = us))"

text \<open>Two states that agree but for the device, in which the same words are pending.\<close>

definition same_pending :: "('d \<Rightarrow> u16 list) \<Rightarrow> ('d, 'z) pci_state_scheme \<Rightarrow> ('d, 'z) pci_state_scheme \<Rightarrow> bool" where
  "same_pending pending s t \<longleftrightarrow> (\<exists>d. t = s\<lparr>device := d\<rparr> \<and> pending d = pending (device s))"

lemma same_pending_refl [simp]: "same_pending p s s"
  by (auto simp: same_pending_def intro: exI [of _ "device s"])

lemma same_pending_trans: "same_pending p s t \<Longrightarrow> same_pending p t u \<Longrightarrow> same_pending p s u"
  by (auto simp: same_pending_def)

lemma io_bar_device [simp]: "io_bar (s\<lparr>device := d\<rparr>) b = io_bar s b"
  by (simp add: io_bar_def)

lemma io_bar_same_pending: "same_pending p s t \<Longrightarrow> io_bar t b = io_bar s b"
  by (auto simp: same_pending_def)

lemma ide_read_reg_port: "ide_read_reg B io reg s =
    (fst (dev_inw B (reg_port io reg) (device s)), s\<lparr>device := snd (dev_inw B (reg_port io reg) (device s))\<rparr>)"
  by (simp add: ide_read_reg_def inw_def reg_port_def split_beta)

lemma ide_write_reg_port: "ide_write_reg B io reg v s = s\<lparr>device := dev_outw B (reg_port io reg) v (device s)\<rparr>"
  by (simp add: ide_write_reg_def outw_def reg_port_def)

lemma ide_status_ok:
  assumes "pio_drive B io cmd ws p" and "io_bar s b = io"
  obtains st t where "ide_status B b s = (st, t)" "same_pending p s t" "\<not> bit st 7" "\<not> bit st 0" "\<not> bit st 5"
    "bit st 3 \<longleftrightarrow> p (device s) \<noteq> []"
proof
  let ?r = "dev_inw B (reg_port io 7) (device s)"
  show "ide_status B b s = (ucast (fst ?r), s\<lparr>device := snd ?r\<rparr>)"
    using assms(2) by (simp add: ide_status_def ide_read_reg_port c_macros)
  show "same_pending p s (s\<lparr>device := snd ?r\<rparr>)"
    using assms(1) unfolding pio_drive_def same_pending_def by blast
  have "status_ok (fst ?r) (p (device s) \<noteq> [])" using assms(1) by (simp add: pio_drive_def)
  then show "\<not> bit (ucast (fst ?r) :: u8) 7" "\<not> bit (ucast (fst ?r) :: u8) 0" "\<not> bit (ucast (fst ?r) :: u8) 5"
    "bit (ucast (fst ?r) :: u8) 3 \<longleftrightarrow> p (device s) \<noteq> []"
    by (simp_all add: status_ok_def bit_simps)
qed

lemma wait_busy_ok:
  assumes "pio_drive B io cmd ws p" and "io_bar s b = io"
  shows "\<exists>t. wait_busy B b s = Some t \<and> same_pending p s t"
proof -
  obtain st t where "ide_status B b s = (st, t)" "same_pending p s t" "\<not> bit st 7"
    by (rule ide_status_ok [OF assms])
  then show ?thesis by (subst wait_busy.simps) simp
qed

lemma ide_wait_ok:
  assumes "pio_drive B io cmd ws p" and "io_bar s b = io"
  shows "same_pending p s (ide_wait B b s)"
proof -
  have "same_pending p s (snd (ide_status B b t))" if "same_pending p s t" for t
    using ide_status_ok [OF assms(1), of t b] that assms(2) io_bar_same_pending same_pending_trans
    by (metis snd_conv)
  then show ?thesis unfolding ide_wait_def by (intro for_loop_invariant [where P = "\<lambda>_. same_pending p s"]) simp_all
qed

lemma ide_check_error_ok:
  assumes "pio_drive B io cmd ws p" and "io_bar s b = io"
  obtains t where "ide_check_error B b s = (False, t)" "same_pending p s t"
proof -
  obtain st t where "ide_status B b s = (st, t)" "same_pending p s t" "\<not> bit st 0" "\<not> bit st 5"
    by (rule ide_status_ok [OF assms])
  then show ?thesis using that [of t] by (simp add: ide_check_error_def)
qed

lemma ide_poll_ok:
  assumes "pio_drive B io cmd ws p" and "io_bar s b = io" and "p (device s) \<noteq> []"
  obtains t where "ide_poll B b s = Some t" "same_pending p s t"
proof -
  obtain st u where u: "ide_status B b s = (st, u)" "same_pending p s u" "\<not> bit st 7"
    by (rule ide_status_ok [OF assms(1,2)])
  then have io: "io_bar u b = io" and ne: "p (device u) \<noteq> []" using assms(2,3) by (auto simp: same_pending_def)
  obtain st' t where t: "ide_status B b u = (st', t)" "same_pending p u t" "bit st' 3"
    using ne by (auto intro: ide_status_ok [OF assms(1) io])
  then have "ide_poll B b s = Some t" using u by (subst ide_poll.simps) (simp add: not_ready_def)
  then show ?thesis using that u(2) t(2) same_pending_trans by blast
qed

lemma ide_write_regs_ok:
  assumes "pio_drive B io cmd ws p" and "io_bar s b = io" and "fst ` set rs \<subseteq> {2, 3, 4, 5, 6}"
  shows "same_pending p s (ide_write_regs B b rs s)"
  using assms(2,3)
proof (induction rs arbitrary: s)
  case Nil
  then show ?case by (simp add: ide_write_regs_def)
next
  case (Cons r rs)
  obtain reg v where r: "r = (reg, v)" by (cases r)
  let ?t = "ide_write_reg B io reg v s"
  have t: "same_pending p s ?t"
    using assms(1) Cons.prems(2) r unfolding same_pending_def ide_write_reg_port pio_drive_def by auto
  then have "same_pending p ?t (ide_write_regs B b rs ?t)"
    using Cons io_bar_same_pending [OF t] by (intro Cons.IH) auto
  with t show ?case using same_pending_trans Cons.prems(1) r by (simp add: ide_write_regs_def)
qed

lemma ide_select_drive_ok:
  assumes "pio_drive B io cmd ws p" and "io_bar s b = io"
  shows "\<exists>t. ide_select_drive B b drv s = Some t \<and> same_pending p s t"
proof -
  let ?u = "s\<lparr>device := snd (dev_inw B (reg_port io 6) (device s))\<rparr>"
  have u: "same_pending p s ?u" using assms(1) unfolding pio_drive_def same_pending_def by blast
  obtain v where v: "wait_busy B b ?u = Some v" "same_pending p ?u v"
    using wait_busy_ok [OF assms(1), of ?u b] assms(2) by (metis io_bar_device)
  let ?w = "ide_write_reg B io 6 (ucast (drv AND 0xFF)) v"
  have bar: "io_bar v b = io" using io_bar_same_pending [OF v(2), of b] assms(2) by simp
  have w: "same_pending p v ?w"
    using assms(1) unfolding pio_drive_def same_pending_def ide_write_reg_port by blast
  then have "io_bar ?w b = io" using io_bar_same_pending [OF w, of b] bar by simp
  from ide_wait_ok [OF assms(1) this] have "same_pending p s (ide_wait B b ?w)"
    by (rule same_pending_trans [OF same_pending_trans [OF same_pending_trans [OF u v(2)] w]])
  note w = this
  have "ide_select_drive B b drv s = Some s \<or> ide_select_drive B b drv s = Some ?u \<or>
      ide_select_drive B b drv s = Some (ide_wait B b ?w)"
    unfolding ide_select_drive_def assms(2) ide_read_reg_port IDE_BAR_OFFSET_DRIVE_HEAD_def Let_def split
    by (simp add: v(1) bar)
  then show ?thesis using u w by (auto simp del: for_loop_numeral)
qed

lemma ide_command_ok:
  assumes "pio_drive B io (ucast c) ws p" and "io_bar s b = io" and "b \<noteq> null"
  shows "\<exists>d. ide_command B b c s = Some (s\<lparr>device := d\<rparr>) \<and> p d = ws"
proof -
  obtain t where t: "wait_busy B b s = Some t" "same_pending p s t"
    using wait_busy_ok [OF assms(1,2)] by auto
  obtain d where d: "t = s\<lparr>device := d\<rparr>" using t(2) by (auto simp: same_pending_def)
  have "ide_command B b c s = Some (ide_write_reg B (io_bar t b) 7 (ucast c) t)"
    using t(1) assms(3) by (simp only: ide_command_def IDE_BAR_OFFSET_COMMAND_def if_False bind.bind_lunit)
  also have "\<dots> = Some (s\<lparr>device := dev_outw B (reg_port io 7) (ucast c) d\<rparr>)"
    using assms(2) by (simp add: d ide_write_reg_port)
  finally show ?thesis using assms(1) unfolding pio_drive_def by blast
qed

section \<open>The words of the buffer\<close>

fun store_words :: "memory \<Rightarrow> u64 \<Rightarrow> u16 list \<Rightarrow> memory" where
  "store_words m a [] = m"
| "store_words m a (w # ws) = store_words (store_le 2 m a w) (a + 2) ws"

lemma store_words_other:
  assumes "2 * length ws \<le> unat (x - a)" and "2 * length ws < 18446744073709551616"
  shows "store_words m a ws x = m x"
  using assms
proof (induction ws arbitrary: m a)
  case (Cons w ws)
  have "2 \<le> x - a" using Cons.prems(1) by (simp add: word_le_nat_alt)
  then have "unat (x - a - 2) = unat (x - a) - 2" by (simp add: unat_sub)
  then have "2 * length ws \<le> unat (x - (a + 2))" using Cons.prems(1) by (simp add: algebra_simps)
  then show ?case using Cons by (simp add: store_le_apply)
qed simp

lemma load_store_words:
  assumes "j < length ws" and "2 * length ws < 18446744073709551616"
  shows "load_le 2 (store_words m a ws) (a + 2 * of_nat j) = ws ! j"
  using assms
proof (induction ws arbitrary: m a j)
  case (Cons w ws)
  show ?case
  proof (cases j)
    case 0
    have "unat (a + of_nat i - (a + 2)) = 18446744073709551614 + i" if "i < 2" for i
    proof -
      have m: "unat (- 2 :: u64) = 18446744073709551614" "unat (- 1 :: u64) = 18446744073709551615"
        using unat_uminus_64 [of 2] unat_uminus_64 [of 1] by simp_all
      from that have "i = 0 \<or> i = 1" by auto
      then show ?thesis by (elim disjE) (simp_all add: m)
    qed
    then have "(load_le 2 (store_words (store_le 2 m a w) (a + 2) ws) a :: u16) = load_le 2 (store_le 2 m a w) a"
      using Cons.prems by (intro load_le_cong store_words_other) auto
    moreover have "load_le 2 (store_le 2 m a w) a = w" by (rule load_store_same) simp_all
    ultimately show ?thesis using 0 by simp
  next
    case (Suc k)
    have "load_le 2 (store_words (store_le 2 m a w) (a + 2) ws) ((a + 2) + 2 * of_nat k) = ws ! k"
      using Cons.prems Suc by (intro Cons.IH) auto
    then show ?thesis using Suc by (simp add: algebra_simps)
  qed
qed simp

lemma ide_read_words_ok:
  assumes "pio_drive B io cmd cs p" and "io_bar s b = io" and "p (device s) = ws @ rest"
    and "\<And>j. i \<le> j \<Longrightarrow> j < i + length ws \<Longrightarrow> blocks_apart (buffer + 2 * of_nat j) 2 b 4"
  shows "\<exists>d. ide_read_words B b buffer i (length ws) s =
      Some (True, s\<lparr>device := d, vmem := store_words (vmem s) (buffer + 2 * of_nat i) ws\<rparr>)"
  using assms(2-)
proof (induction ws arbitrary: i s)
  case Nil
  show ?case by (auto intro: exI [of _ "device s"])
next
  case (Cons w ws)
  obtain t where t: "ide_poll B b s = Some t" "same_pending p s t"
    using ide_poll_ok [OF assms(1) Cons.prems(1)] Cons.prems(2) by auto
  then have tb: "io_bar t b = io" using Cons.prems(1) io_bar_same_pending by fastforce
  obtain u where u: "ide_check_error B b t = (False, u)" "same_pending p t u"
    by (rule ide_check_error_ok [OF assms(1) tb])
  then have ub: "io_bar u b = io" using tb io_bar_same_pending by fastforce
  have su: "same_pending p s u" using t(2) u(2) same_pending_trans by blast
  then obtain d where d: "u = s\<lparr>device := d\<rparr>" "p d = w # ws @ rest" using Cons.prems(2) by (auto simp: same_pending_def)
  let ?r = "dev_inw B (reg_port io 0) d"
  have r: "fst ?r = w" "p (snd ?r) = ws @ rest" using assms(1) d(2) unfolding pio_drive_def by blast+
  let ?v = "s\<lparr>device := snd ?r, vmem := store_le 2 (vmem s) (buffer + 2 * of_nat i) w\<rparr>"
  have "blocks_apart (buffer + 2 * of_nat i) 2 b 4" using Cons.prems(3) [of i] by simp
  then have "(load_le 4 (store_le 2 (vmem s) (buffer + 2 * of_nat i) w) b :: u32) = load_le 4 (vmem s) b"
    by (intro load_store_other) (simp_all add: blocks_apart_def)
  then have vb: "io_bar ?v b = io" using Cons.prems(1) by (simp add: io_bar_def)
  have "\<exists>d. ide_read_words B b buffer (Suc i) (length ws) ?v =
      Some (True, ?v\<lparr>device := d, vmem := store_words (vmem ?v) (buffer + 2 * of_nat (Suc i)) ws\<rparr>)"
    using Cons.prems(3) r(2) vb by (intro Cons.IH) auto
  moreover have "ide_read_words B b buffer i (Suc (length ws)) s = ide_read_words B b buffer (Suc i) (length ws) ?v"
    using t(1) u(1) ub d(1) r(1) by (simp add: ide_read_reg_port IDE_BAR_OFFSET_DATA_REG_def)
  ultimately show ?case by (simp add: algebra_simps)
qed

text \<open>The product \<^verbatim>\<open>sectors * 256\<close> of \<^verbatim>\<open>uint32_t\<close> wraps around from \<open>2 ^ 24\<close> sectors on.\<close>

lemma words_to_read: "unat ((n :: u32) * 256) = 256 * (unat n mod 2 ^ 24)"
proof -
  have "unat (n * 256) = (256 * unat n) mod (256 * 2 ^ 24)" by (simp add: unat_word_ariths(2) mult.commute)
  then show ?thesis by (simp only: mult_mod_right)
qed

text \<open>
  C12: Let a drive be never busy and without error, let its sectors be at least as many as
  asked for, let it deliver the words \<open>ws\<close> after the read command that belongs to its
  addressing mode, 256 words for each sector asked for, where the number of sectors is
  counted modulo \<open>2 ^ 24\<close>, and let that many bytes of the buffer not overlap
  the bus object.  Then a read of at least one sector into a buffer that is not null, from a
  drive of the type and mode that the driver knows, returns true, the buffer holds these words and all memory
  outside of their place is as before.  So a read of fewer than \<open>2 ^ 24\<close> sectors fills the buffer with all
  of them; from there on \<^verbatim>\<open>sectors * 256\<close> wraps around, and a read of exactly \<open>2 ^ 24\<close>
  sectors returns true and stores nothing.
\<close>

theorem ide_read_fills_buffer:
  assumes "pio_drive B (io_bar s (ide_bus dv)) (if addr_mode dv = lba48 then 0x24 else 0x20) ws pending"
    and "addr_mode dv \<in> {chs, lba28, lba48}" and "ide_check_type dv" and "ide_bus dv \<noteq> null"
    and "buffer \<noteq> null" and "n \<noteq> 0" and "ucast n \<le> sectors dv"
    and "length ws = 256 * (unat n mod 2 ^ 24)" and "blocks_apart buffer (2 * length ws) (ide_bus dv) 4"
  shows "\<exists>t. ide_read B (Some dv) address n buffer s = Some (True, t) \<and>
    (\<forall>j < length ws. load_le 2 (vmem t) (buffer + 2 * of_nat j) = ws ! j) \<and>
    (\<forall>x. \<not> in_region x buffer (2 * length ws) \<longrightarrow> vmem t x = vmem s x)"
proof -
  let ?b = "ide_bus dv"
  let ?io = "io_bar s ?b"
  let ?c = "if addr_mode dv = chs \<or> addr_mode dv = lba28 then IDE_COMM_READ_PIO else IDE_COMM_READ_PIO_EXT"
  have ne: "lba48 \<noteq> chs" "lba48 \<noteq> lba28" "lba28 \<noteq> chs" by (simp_all add: c_macros)
  have "ucast ?c = (if addr_mode dv = lba48 then 0x24 else (0x20 :: u16))"
    using assms(2) ne by (auto simp: IDE_COMM_READ_PIO_def IDE_COMM_READ_PIO_EXT_def)
  with assms(1) have D: "pio_drive B ?io (ucast ?c) ws pending" by simp
  obtain s1 where s1: "ide_select_drive B ?b (drive dv) s = Some s1" "same_pending pending s s1"
    using ide_select_drive_ok [OF D refl] by blast
  obtain rs where rs: "transaction_regs dv address (ucast n) = Some rs" "fst ` set rs \<subseteq> {2, 3, 4, 5, 6}"
    using assms(2) ne by (auto simp: transaction_regs_def Let_def IDE_BAR_OFFSET_DRIVE_HEAD_def IDE_BAR_OFFSET_SECTOR_COUNT_def
        IDE_BAR_OFFSET_LBA_LO_def IDE_BAR_OFFSET_LBA_MID_def IDE_BAR_OFFSET_LBA_HI_def)
  have "(ucast n :: u64) \<noteq> 0" using assms(6) by (metis unat_ucast_32_64 unat_eq_zero)
  then have tr: "ide_init_transaction B (Some dv) address (ucast n) s1 = (True, ide_write_regs B ?b rs s1)"
    using rs(1) assms(4,7) by (simp add: ide_init_transaction_def not_less)
  let ?s2 = "ide_write_regs B ?b rs s1"
  have s2: "same_pending pending s ?s2"
    using same_pending_trans [OF s1(2) ide_write_regs_ok [OF D io_bar_same_pending [OF s1(2)] rs(2)]] .
  obtain d where d: "ide_command B ?b ?c ?s2 = Some (?s2\<lparr>device := d\<rparr>)" "pending d = ws"
    using ide_command_ok [OF D io_bar_same_pending [OF s2] assms(4)] by blast
  then obtain e where e: "?s2\<lparr>device := d\<rparr> = s\<lparr>device := e\<rparr>" "e = d" using s2 by (auto simp: same_pending_def)
  have small: "2 * length ws < 18446744073709551616"
    using mod_less_divisor [of "2 ^ 24" "unat n"] unfolding assms(8) by simp
  have words: "blocks_apart (buffer + 2 * of_nat j) 2 ?b 4" if "j < length ws" for j
  proof -
    have "unat (2 * of_nat j :: u64) = 2 * j" using that small unat_of_nat_64 [of "2 * j"] by simp
    then show ?thesis using blocks_apart_field [OF assms(9), of "2 * of_nat j" 2 0 4] that by simp
  qed
  have len: "unat (n * 256) = length ws" by (simp only: words_to_read assms(8))
  obtain f where f: "ide_read_words B ?b buffer 0 (length ws) (s\<lparr>device := e\<rparr>) =
      Some (True, s\<lparr>device := f, vmem := store_words (vmem s) buffer ws\<rparr>)"
    using ide_read_words_ok [OF D, of "s\<lparr>device := e\<rparr>" ?b ws "[]" 0 buffer] words d(2) e(2) by auto
  have "ide_read B (Some dv) address n buffer s = Some (True, s\<lparr>device := f, vmem := store_words (vmem s) buffer ws\<rparr>)"
    using assms(3-6) s1(1) tr d(1) f e(1) len by (simp add: ide_read_def)
  then show ?thesis
    using small load_store_words [of _ ws "vmem s" buffer] store_words_other [of ws _ buffer "vmem s"]
    by (auto simp: in_region_def)
qed

text \<open>A drive whose state is the list of the words it still has to deliver.\<close>

definition pio_bus :: "u16 list bus" where
  "pio_bus = \<lparr>dev_inb = \<lambda>_ d. (0, d), dev_outb = \<lambda>_ _ d. d,
     dev_inw = \<lambda>p d. if p = 0x1F7 then (if d = [] then 0 else 8, d)
       else if p = 0x1F0 then (case d of [] \<Rightarrow> (0, []) | w # ws \<Rightarrow> (w, ws)) else (0, d),
     dev_outw = \<lambda>p v d. if p = 0x1F7 then replicate 256 0x1234 else d,
     dev_inl = \<lambda>_ d. (0, d), dev_outl = \<lambda>_ _ d. d, dev_read32 = \<lambda>_ d. (0, d), dev_write32 = \<lambda>_ _ d. d,
     dev_cpuid = \<lambda>_ _. (0, 0, 0, 0), dev_rdmsr = \<lambda>_ _. (0, 0), dev_wrmsr = \<lambda>_ _ d. d, dev_cr2 = \<lambda>_. 0\<rparr>"

lemma pio_bus_drive: "pio_drive pio_bus 0x1F0 v (replicate 256 0x1234) (\<lambda>d. d)"
  by (auto simp: pio_drive_def pio_bus_def reg_port_def status_ok_def)

theorem ide_read_fills_buffer_witness:
  "\<exists>t. ide_read pio_bus (Some (demo_drive lba28)) 200 1 0x8000 (pci_with [] (store_le 4 (\<lambda>_. 0) 0x5000 (0x1F0 :: u32))) = Some (True, t) \<and>
    load_le 2 (vmem t) (0x8000 + 2 * of_nat 255) = (0x1234 :: u16)"
proof -
  let ?s = "pci_with ([] :: u16 list) (store_le 4 (\<lambda>_. 0) 0x5000 (0x1F0 :: u32))"
  have "io_bar ?s 0x5000 = 0x1F0" unfolding io_bar_def pci_with_simps by (rule load_store_same) simp_all
  then have "pio_drive pio_bus (io_bar ?s (ide_bus (demo_drive lba28))) (if addr_mode (demo_drive lba28) = lba48 then 0x24 else 0x20)
      (replicate 256 0x1234) (\<lambda>d. d)" by (simp add: demo_drive_def pio_bus_drive)
  from ide_read_fills_buffer [OF this, of "0x8000" 1 200] show ?thesis
    by (auto simp: demo_drive_def ide_check_type_def blocks_apart_def c_macros dest: spec [of _ "255 :: nat"])
qed

end
