(* ===== verification/Ahci_Props.thy ===== *)
theory Ahci_Props
  imports Pci_Props
begin

text \<open>Sending a command to an AHCI device: which slot it takes.\<close>

text \<open>The number of slots that the search looks at, from the field NCS of the capabilities.\<close>

definition searched_slots :: "memory \<Rightarrow> ahci_device_t \<Rightarrow> nat" where
  "searched_slots m dv = unat (drop_bit 8 (host_capability m (ctrl_address dv)) AND 0x1F)"

lemma free_slot_find:
  "free_slot i k p m =
     (case List.find (\<lambda>j. \<not> bit (command_issue m p) j) [i..<i + k] of None \<Rightarrow> (None, m)
      | Some j \<Rightarrow> (Some j, store_le 4 m (p + 0x38) (command_issue m p OR push_bit j 1)))"
  by (induction k arbitrary: i) (auto simp: upt_conv_Cons simp del: upt_Suc)

lemma searched_slots_less: "searched_slots m dv < 32"
proof -
  have "x AND 0x1F = take_bit 5 x" for x :: u32 by (simp add: take_bit_eq_mask mask_eq_exp_minus_1)
  then show ?thesis
    using take_bit_nat_less_exp [of 5 "unat (drop_bit 8 (host_capability m (ctrl_address dv)))"]
    by (simp add: searched_slots_def unsigned_take_bit_eq)
qed

lemma find_upt_Some:
  "List.find P [0..<n] = Some j \<longleftrightarrow> j < n \<and> P j \<and> (\<forall>i < j. \<not> P i)"
  by (auto simp: find_Some_iff)

text \<open>
  C18: A command for a device whose port has a command list takes the first of the searched
  slots whose bit in the register of the issued commands is clear: the bit is set, the
  command header is copied to the slot, and true is returned; when all their bits are set
  nothing changes and false is returned.
\<close>

theorem ahci_command_first_free:
  assumes "port_address dv = p" "p \<noteq> null" "command_list (vmem s) p = cl" "cl \<noteq> null" "unat cl + 1024 < 2 ^ 64"
    and "blocks_apart (p + 0x38) 4 cl 1024" and "blocks_apart (p + 0x38) 4 comm 32" and "blocks_apart cl 1024 comm 32"
  shows "(\<exists>j m. j < searched_slots (vmem s) dv \<and> \<not> bit (command_issue (vmem s) p) j \<and>
      (\<forall>i < j. bit (command_issue (vmem s) p) i) \<and>
      ahci_command (Some dv) comm s = (True, s\<lparr>vmem := m\<rparr>) \<and>
      command_issue m p = command_issue (vmem s) p OR push_bit j 1 \<and>
      (\<forall>i < 32. m (cl + 32 * of_nat j + of_nat i) = vmem s (comm + of_nat i))) \<or>
    (\<forall>i < searched_slots (vmem s) dv. bit (command_issue (vmem s) p) i) \<and> ahci_command (Some dv) comm s = (False, s)"
proof -
  let ?n = "searched_slots (vmem s) dv" and ?ci = "command_issue (vmem s) p"
  have slot: "ahci_cl_get_slot (Some dv) s =
      (case List.find (\<lambda>j. \<not> bit ?ci j) [0..<?n] of None \<Rightarrow> (null, s)
       | Some j \<Rightarrow> (cl + 32 * of_nat j, s\<lparr>vmem := store_le 4 (vmem s) (p + 0x38) (?ci OR push_bit j 1)\<rparr>))"
    using assms(1-4) by (simp add: ahci_cl_get_slot_def Let_def free_slot_find searched_slots_def split: option.splits)
  have n: "?n < 32" by (rule searched_slots_less)
  show ?thesis
  proof (cases "List.find (\<lambda>j. \<not> bit ?ci j) [0..<?n]")
    case None
    then have "\<forall>i < ?n. bit ?ci i" by (auto simp: find_None_iff)
    with None slot show ?thesis by (simp add: ahci_command_def)
  next
    case (Some j)
    then have j: "j < ?n" "\<not> bit ?ci j" "\<forall>i < j. bit ?ci i" by (simp_all add: find_upt_Some)
    let ?m = "store_le 4 (vmem s) (p + 0x38) (?ci OR push_bit j 1)" and ?d = "cl + 32 * of_nat j"
    let ?m' = "memcpy ?d comm 32 ?m"
    have "32 * j < 1024" using j(1) n by simp
    then have u: "unat (32 * of_nat j :: u64) = 32 * j" using unat_of_nat_64 [of "32 * j"] by simp
    with assms(5) \<open>32 * j < 1024\<close> have "unat ?d = unat cl + 32 * j" by (subst unat_add_64) simp_all
    then have "?d \<noteq> null" using assms(4) by (metis add_is_0 unat_0 unat_eq_zero)
    then have res: "ahci_command (Some dv) comm s = (True, s\<lparr>vmem := ?m'\<rparr>)"
      using slot Some by (simp add: ahci_command_def)
    have pd: "blocks_apart (p + 0x38 + i) 1 ?d 32" if "unat i < 4" for i
      using blocks_apart_field [OF assms(6), of i 1 "32 * of_nat j" 32] u that j(1) n by simp
    have dc: "blocks_apart ?d 32 comm 32"
      using blocks_apart_field [OF assms(8), of "32 * of_nat j" 32 0 32] u j(1) n by simp
    have copy: "?m' x = (if in_region x ?d 32 then ?m (comm + (x - ?d)) else ?m x)" for x
      using dc by (subst memcpy_apply) (simp_all add: blocks_apart_def)
    have src: "?m (comm + of_nat i) = vmem s (comm + of_nat i)" if "i < 32" for i
    proof -
      have "blocks_apart (p + 0x38 + 0) 4 (comm + of_nat i) 1"
        using that by (intro blocks_apart_field [OF assms(7)]) (simp_all add: unat_of_nat_64)
      then show ?thesis by (simp add: store_le_apply blocks_apart_def)
    qed
    have "(load_le 4 ?m' (p + 0x38) :: u32) = load_le 4 ?m (p + 0x38)"
    proof (rule load_le_cong)
      fix i :: nat
      assume "i < 4"
      then have "\<not> in_region (p + 0x38 + of_nat i) ?d 32" using pd [of "of_nat i"] by (simp add: in_region_def blocks_apart_def)
      then show "?m' (p + 0x38 + of_nat i) = ?m (p + 0x38 + of_nat i)" by (simp only: copy if_False)
    qed
    also have "\<dots> = ?ci OR push_bit j 1" by (rule load_store_same) simp_all
    finally have "command_issue ?m' p = ?ci OR push_bit j 1" by (simp add: command_issue_def)
    moreover have "\<forall>i < 32. ?m' (?d + of_nat i) = vmem s (comm + of_nat i)"
    proof (intro allI impI)
      fix i :: nat
      assume i: "i < 32"
      then have "in_region (?d + of_nat i) ?d 32" by (simp add: in_region_offset)
      then show "?m' (?d + of_nat i) = vmem s (comm + of_nat i)"
        using src [OF i] by (simp only: copy if_True add_diff_cancel_left')
    qed
    ultimately show ?thesis using j res by blast
  qed
qed

text \<open>A port with the first of three searched slots in use.\<close>

definition ahci_with :: "'d \<Rightarrow> memory \<Rightarrow> 'd ahci_state" where
  "ahci_with d m = ide_state.extend (pci_state.extend (pci_with d m) (ide_state.fields 0 0 [])) (ahci_state.fields 0 0 [])"

lemma vmem_ahci_with [simp]: "vmem (ahci_with d m) = m"
  by (simp add: ahci_with_def pci_with_def ide_state.extend_def ide_state.fields_def ahci_state.fields_def pci_state.extend_def
      acpi_state.extend_def pci_state.fields_def demo_defs)

definition demo_ports :: memory where
  "demo_ports = store_le 4 (store_le 4 (store_le 4 (\<lambda>_. 0) 0x100000 (0x200000 :: u32)) 0x90000 (0x0300 :: u32)) 0x100038 (1 :: u32)"

lemma load4_store4_apart: "blocks_apart a 4 b 4 \<Longrightarrow> (load_le 4 (store_le 4 m a (v :: u32)) b :: u32) = load_le 4 m b"
  by (rule load_store_other) (simp_all add: blocks_apart_def)

lemma load4_store4: "(load_le 4 (store_le 4 m a v) a :: u32) = v"
  by (rule load_store_same) simp_all

lemma load4_zero: "load_le n (\<lambda>_. 0) a = 0"
  by (induction n arbitrary: a) auto

lemma demo_ports:
  "command_list demo_ports 0x100000 = 0x200000" "command_issue demo_ports 0x100000 = 1"
  "searched_slots demo_ports \<lparr>ctrl_address = 0x90000, port_address = 0x100000\<rparr> = 3"
  by (simp_all add: demo_ports_def command_list_def clb_lo_def clb_hi_def command_issue_def searched_slots_def host_capability_def
      load4_store4 load4_store4_apart load4_zero blocks_apart_def)

theorem ahci_command_first_free_witness:
  "\<exists>m. ahci_command (Some \<lparr>ctrl_address = 0x90000, port_address = 0x100000\<rparr>) 0x300000 (ahci_with () demo_ports) =
      (True, (ahci_with () demo_ports)\<lparr>vmem := m\<rparr>) \<and> command_issue m 0x100000 = 3"
proof -
  have bits: "bit (1 :: u32) i \<longleftrightarrow> i = 0" for i by (simp add: bit_1_iff)
  let ?dv = "\<lparr>ctrl_address = 0x90000, port_address = 0x100000\<rparr>" and ?s = "ahci_with () demo_ports"
  have "\<exists>j m. j < 3 \<and> \<not> bit (1 :: u32) j \<and> (\<forall>i < j. bit (1 :: u32) i) \<and>
      ahci_command (Some ?dv) 0x300000 ?s = (True, ?s\<lparr>vmem := m\<rparr>) \<and> command_issue m 0x100000 = 1 OR push_bit j 1"
    using ahci_command_first_free [of ?dv "0x100000" ?s "0x200000" "0x300000"] bits
    by (auto simp: demo_ports blocks_apart_def simp del: push_bit_of_1 dest: spec [of _ "1 :: nat"])
  then obtain j m where j: "j < 3" "j \<noteq> 0" "\<forall>i < j. i = 0"
    and m: "ahci_command (Some ?dv) 0x300000 ?s = (True, ?s\<lparr>vmem := m\<rparr>)" "command_issue m 0x100000 = 1 OR push_bit j 1"
    unfolding bits by blast
  from j have "j = 1" using spec [OF j(3), of 1] by arith
  with m show ?thesis by auto
qed

end
