(* ===== verification/Files_Props.thy ===== *)
theory Files_Props
  imports Files Kmalloc_Props
begin

text \<open>
  Files as lists of bytes: a write appends to the content of a file, and a read takes the
  first bytes but removes the last ones.
\<close>

section \<open>What the heap leaves alone\<close>

text \<open>
  The heap functions change only fields of the heap and of what it is made of: all that the
  later components add to the state is the same before and after.
\<close>

lemma kheap_get_more: "kheap_get i s = Some (a, b, t) \<Longrightarrow> kheap_state.more t = kheap_state.more s"
  and kheap_put_more: "kheap_put d i s = Some (a, t) \<Longrightarrow> kheap_state.more t = kheap_state.more s"
  and kheap_pack_more: "kheap_pack s = Some (a, t) \<Longrightarrow> kheap_state.more t = kheap_state.more s"
  by (auto simp: kheap_get_def kheap_put_def kheap_pack_def split: Option.bind_splits)

lemma kheap_select_more: "kheap_select sel j k s = Some (r, t) \<Longrightarrow> kheap_state.more t = kheap_state.more s"
  by (induction sel j k s rule: kheap_select.induct)
    (auto simp: kheap_get_more split: Option.bind_splits if_splits)

lemma kheap_compress_step_more: "kheap_compress_step i bound s = Some (r, t) \<Longrightarrow> kheap_state.more t = kheap_state.more s"
  by (auto simp: kheap_compress_step_def Let_def dest!: kheap_select_more kheap_get_more
      split: Option.bind_splits if_splits option.splits)

lemma kheap_compress_from_more: "kheap_compress_from i bound s = Some t \<Longrightarrow> kheap_state.more t = kheap_state.more s"
proof (induction i bound s rule: kheap_compress_from.induct)
  case (1 i bound s)
  then show ?case
    by (subst (asm) (3) kheap_compress_from.simps)
      (auto dest!: kheap_compress_step_more split: if_splits option.splits bool.splits)
qed

lemma kheap_count_op_more: "kheap_count_op s = Some t \<Longrightarrow> kheap_state.more t = kheap_state.more s"
  by (auto simp: kheap_count_op_def kheap_compress_map_def Let_def dest!: kheap_compress_from_more split: if_splits)

lemma kmalloc_take_more: "kmalloc_take e sz s = Some (p, t) \<Longrightarrow> kheap_state.more t = kheap_state.more s"
  by (auto simp: kmalloc_take_def Let_def dest!: kheap_put_more kheap_pack_more kheap_count_op_more
      split: Option.bind_splits if_splits)

lemma kmalloc_scan_more: "kmalloc_scan i k sz s = Some (p, t) \<Longrightarrow> kheap_state.more t = kheap_state.more s"
  by (induction i k sz s rule: kmalloc_scan.induct)
    (auto dest!: kheap_get_more kmalloc_take_more split: Option.bind_splits if_splits)

lemma kmalloc_more: "kmalloc sz s = Some (p, t) \<Longrightarrow> kheap_state.more t = kheap_state.more s"
  by (auto simp: kmalloc_def kheap_compress_map_def dest!: kmalloc_scan_more kheap_compress_from_more
      split: Option.bind_splits if_splits option.splits)

lemma kfree_scan_more: "kfree_scan i k base s = Some t \<Longrightarrow> kheap_state.more t = kheap_state.more s"
  by (induction i k base s rule: kfree_scan.induct)
    (auto dest!: kheap_get_more kheap_count_op_more split: Option.bind_splits if_splits)

lemma kfree_more: "kfree base s = Some t \<Longrightarrow> kheap_state.more t = kheap_state.more s"
  by (auto simp: kfree_def dest!: kfree_scan_more split: if_splits)

lemma krealloc_scan_more: "krealloc_scan i k base n s = Some (p, t) \<Longrightarrow> kheap_state.more t = kheap_state.more s"
  by (induction i k base n s rule: krealloc_scan.induct)
    (auto simp: Let_def dest!: kheap_get_more kfree_more kmalloc_more split: Option.bind_splits if_splits)

lemma krealloc_more: "krealloc base n s = Some (p, t) \<Longrightarrow> kheap_state.more t = kheap_state.more s"
  by (auto simp: krealloc_def dest!: krealloc_scan_more split: if_splits)

lemma files_of_more:
  assumes "kheap_state.more t = kheap_state.more s"
  shows "files_map t = files_map s" "files_ready t = files_ready s" "files_descr_pool t = files_descr_pool s"
  using assms by (cases s; cases t; simp)+

section \<open>Files\<close>

text \<open>The content of the file at an index, and its buffer: an allocated one that holds the content.\<close>

definition file_content :: "nat \<Rightarrow> 'z files_state_scheme \<Rightarrow> u8 list" where
  "file_content i s = read_bytes (vmem s) (file_ptr (files_map s ! i)) (unat (file_size (files_map s ! i)))"

definition file_ok :: "nat \<Rightarrow> 'z files_state_scheme \<Rightarrow> bool" where
  "file_ok i s \<longleftrightarrow>
     (let f = files_map s ! i
      in if file_ptr f = null then file_size f = 0
         else \<exists>(b, z) \<in> buffers s. file_ptr f = kheap s + b \<and> unat (file_size f) \<le> unat z)"

definition files_inv :: "'z files_state_scheme \<Rightarrow> bool" where
  "files_inv s \<longleftrightarrow> files_ready s \<and> manual_pool (files_descr_pool s) 2048 (pools s)"

lemma get_file_ok: "files_inv s \<Longrightarrow> unat fd < 2048 \<Longrightarrow> get_file fd s = Some (Some (unat fd), s)"
  using obj_pool_get_manual [of "files_descr_pool s" 2048 "pools s" fd]
  by (simp add: files_inv_def get_file_def MAX_FILES_def word_le_nat_alt)

lemma read_bytes_eq:
  "(\<And>i. i < k \<Longrightarrow> m (a + of_nat i) = m' (b + of_nat i)) \<Longrightarrow> read_bytes m a k = read_bytes m' b k"
  by (simp add: read_bytes_def)

lemma take_read_bytes: "k \<le> n \<Longrightarrow> take k (read_bytes m a n) = read_bytes m a k"
  by (simp add: read_bytes_def take_map)

lemma length_read_bytes [simp]: "length (read_bytes m a n) = n"
  by (simp add: read_bytes_def)

lemma ucast_of_nat_32: "n < 4294967296 \<Longrightarrow> ucast (of_nat n :: u64) = (of_nat n :: u32)"
  by (simp add: word_unat_eq_iff unsigned_ucast_eq take_bit_nat_eq_self)

text \<open>
  A read of at most \<open>n\<close> bytes returns how many there are, up to \<open>n\<close>.  When a buffer is
  given they are the first bytes of the content.  What is left of the content is again its
  first bytes: the bytes at the end are lost, and a second read gives the first ones again.
\<close>

theorem file_read_takes_front:
  assumes "files_inv s" and "unat fd < 2048" and "unat fd < length (files_map s)" and "n \<noteq> 0"
    and "k = min (unat n) (unat (file_size (files_map s ! unat fd)))"
    and "buffer \<noteq> null \<longrightarrow>
      blocks_apart buffer k (file_ptr (files_map s ! unat fd)) (unat (file_size (files_map s ! unat fd)))"
  shows "\<exists>t. file_read fd buffer n s = Some (of_nat k, t) \<and>
    (buffer \<noteq> null \<longrightarrow> read_bytes (vmem t) buffer k = take k (file_content (unat fd) s)) \<and>
    file_content (unat fd) t = take (length (file_content (unat fd) s) - k) (file_content (unat fd) s)"
proof -
  let ?f = "files_map s ! unat fd"
  let ?p = "file_ptr ?f" and ?z = "unat (file_size ?f)"
  let ?m = "if buffer \<noteq> null then memcpy buffer ?p (of_nat k) (vmem s) else vmem s"
  let ?t = "s\<lparr>vmem := ?m, files_map := (files_map s)[unat fd := ?f\<lparr>file_size := of_nat (?z - k)\<rparr>]\<rparr>"
  have z: "?z < 4294967296" by simp
  have k: "k \<le> ?z" using assms(5) by simp
  with z have kb: "k < 18446744073709551616" by linarith
  then have kn: "unat (of_nat k :: u64) = k" by (rule unat_of_nat_64)
  have cnt: "(if ucast (file_size ?f) < n then ucast (file_size ?f) else n) = (of_nat k :: u64)"
    using assms(5) by (auto simp: word_less_nat_alt word_unat_eq_iff kn min_def)
  have left: "ucast (ucast (file_size ?f) - (of_nat k :: u64)) = (of_nat (?z - k) :: u32)"
  proof -
    have l: "?z - k < 4294967296" using z by linarith
    have e: "ucast (file_size ?f) - (of_nat k :: u64) = of_nat (?z - k)"
      using k z by (simp add: word_unat_eq_iff unat_sub word_le_nat_alt kn)
    show ?thesis unfolding e by (rule ucast_of_nat_32 [OF l])
  qed
  have run: "file_read fd buffer n s = Some (of_nat k, ?t)"
    using assms(1-4) get_file_ok [OF assms(1,2)] cnt left
    by (simp add: file_read_def files_inv_def MAX_FILES_def word_le_nat_alt obj_load_def set_file_def obj_store_def Let_def)
  have zk: "unat (of_nat (?z - k) :: u32) = ?z - k" using z by (intro unat_of_nat_32) linarith
  have copied: "?m (buffer + of_nat i) = vmem s (?p + of_nat i)" if "buffer \<noteq> null" "i < k" for i
    using assms(6) that k kb by (simp add: memcpy_apply blocks_apart_def kn in_region_offset)
  have kept: "?m (?p + of_nat i) = vmem s (?p + of_nat i)" if "i < ?z" for i
  proof (cases "buffer = null")
    case False
    have "?z \<le> 18446744073709551616" using z by linarith
    then have "\<not> in_region (?p + of_nat i) buffer k"
      by (intro blocks_apart_notin [OF mp [OF assms(6) False] that])
    with mp [OF assms(6) False] k show ?thesis
      by (simp add: False memcpy_apply blocks_apart_def kn)
  qed simp
  show ?thesis
    using run copied kept k assms(3) zk
    by (intro exI [of _ ?t]) (auto simp: file_content_def take_read_bytes intro!: read_bytes_eq)
qed

section \<open>Writing\<close>

text \<open>An allocated buffer lies inside the heap.\<close>

lemma buffer_inside:
  assumes "heap_inv s" and "(b, z) \<in> buffers s"
  shows "0 < unat z" "unat b + unat z \<le> unat (kheap_bytes s)" "contains (kheap s) (b, z) (kheap s + b)"
    "kheap s + b \<noteq> null"
proof -
  obtain d where d: "b = kd_base d" "z = kd_size d" "d \<in># live s" using assms(2) by (auto simp: buffers_def)
  show r: "0 < unat z" "unat b + unat z \<le> unat (kheap_bytes s)"
    using tiling_range [OF map_okD(5) [OF assms(1)] d(3)] d(1,2) by simp_all
  have u: "unat (kheap s + b) = unat (kheap s) + unat b"
    using assms(1) r by (intro unat_add_64) (simp add: heap_inv_def)
  then show "contains (kheap s) (b, z) (kheap s + b)"
    unfolding d(1,2) contains_unat [OF assms(1) d(3)] using r(1) d(1,2) by simp
  show "kheap s + b \<noteq> null" using assms(1) u by (metis add_is_0 heap_inv_def unat_0 unat_eq_zero)
qed

lemma sub_region:
  assumes "in_region x (h + b) n" and "unat b + n \<le> k" and "k \<le> 18446744073709551616"
  shows "in_region x h k"
proof -
  have "x - h = (x - (h + b)) + b" by simp
  moreover have "unat ((x - (h + b)) + b) = unat (x - (h + b)) + unat b"
    using assms by (intro unat_add_64) (simp add: in_region_def)
  ultimately show ?thesis using assms by (simp add: in_region_def)
qed

text \<open>Where the new content goes: a buffer of the new size that holds the old content.\<close>

definition grown :: "u64 \<Rightarrow> nat \<Rightarrow> u64 \<Rightarrow> 'z files_state_scheme \<Rightarrow> 'z files_state_scheme \<Rightarrow> bool" where
  "grown n i r s t \<longleftrightarrow> heap_inv t \<and> kheap t = kheap s \<and> kheap_bytes t = kheap_bytes s \<and>
     kheap_state.more t = kheap_state.more s \<and>
     (r \<noteq> null \<longrightarrow> (\<exists>b. r = kheap s + b \<and> (b, n) \<in> buffers t) \<and>
       (\<forall>x. \<not> in_region x (kheap s) (unat (kheap_bytes s)) \<longrightarrow> vmem t x = vmem s x) \<and>
       read_bytes (vmem t) r (unat (file_size (files_map s ! i))) = file_content i s)"

lemma kmalloc_grown:
  assumes "heap_inv s" and "file_size (files_map s ! i) = 0"
  shows "\<exists>r t. kmalloc n s = Some (r, t) \<and> grown n i r s t"
proof -
  obtain r t where t: "kmalloc n s = Some (r, t)" "heap_inv t" "same_heap s t"
    "if r = null then buffers t = buffers s else (\<exists>b. r = kheap s + b \<and> buffers t = insert (b, n) (buffers s))"
    using kmalloc_total [OF assms(1), of n] by blast
  then have "grown n i r s t"
    using kmalloc_more [OF t(1)] kheap_bytes_same [OF t(3)] assms(2)
    by (auto simp: grown_def same_heap_def file_content_def read_bytes_def split: if_splits)
  with t(1) show ?thesis by blast
qed

lemma krealloc_grown:
  assumes inv: "heap_inv s" and x: "(b, z) \<in> buffers s" and p: "file_ptr (files_map s ! i) = kheap s + b"
    and sz: "unat (file_size (files_map s ! i)) \<le> unat z" "unat z \<le> unat n" "n < kheap_bytes s"
  shows "\<exists>r t. krealloc (kheap s + b) n s = Some (r, t) \<and> grown n i r s t"
proof -
  obtain r t where t: "krealloc (kheap s + b) n s = Some (r, t)" "heap_inv t" "same_heap s (t\<lparr>vmem := vmem s\<rparr>)"
    "if r = null then buffers t = buffers s - {(b, z)} \<and>
       vmem t = (\<lambda>x. if in_region x (kheap s + b) (unat z) then 0 else vmem s x)
     else (\<exists>b'. r = kheap s + b' \<and> buffers t = insert (b', n) (buffers s - {(b, z)})) \<and>
       vmem t = (\<lambda>x. if in_region x r (unat z) then vmem s (kheap s + b + (x - r))
         else if in_region x (kheap s + b) (unat z) then 0 else vmem s x)"
    using krealloc_result [OF inv x buffer_inside(3) [OF inv x] sz(3)] by blast
  have same: "kheap t = kheap s" "kheap_bytes t = kheap_bytes s"
    using t(3) by (simp_all add: same_heap_def kheap_bytes_def)
  have hb: "unat (kheap_bytes s) \<le> 18446744073709551616" by simp
  have "grown n i r s t"
  proof (cases "r = null")
    case True
    then show ?thesis using t(2) same krealloc_more [OF t(1)] by (simp add: grown_def)
  next
    case False
    then obtain b' where b': "r = kheap s + b'" "(b', n) \<in> buffers t"
      and m: "vmem t = (\<lambda>x. if in_region x r (unat z) then vmem s (kheap s + b + (x - r))
         else if in_region x (kheap s + b) (unat z) then 0 else vmem s x)"
      using t(4) by auto
    have "unat b' + unat z \<le> unat (kheap_bytes s)" using buffer_inside(2) [OF t(2) b'(2)] sz(2) same by simp
    note out = sub_region [OF _ this hb] sub_region [OF _ buffer_inside(2) [OF inv x] hb]
    have "vmem t x = vmem s x" if "\<not> in_region x (kheap s) (unat (kheap_bytes s))" for x
      using that out [of x "kheap s"] b'(1) by (auto simp: m)
    moreover have "read_bytes (vmem t) r (unat (file_size (files_map s ! i))) = file_content i s"
      unfolding file_content_def p
    proof (rule read_bytes_eq)
      fix j assume "j < unat (file_size (files_map s ! i))"
      with sz(1) have j: "j < unat z" by linarith
      then have "j < 18446744073709551616" using unat_less_64 [of z] by linarith
      with j show "vmem t (r + of_nat j) = vmem s (kheap s + b + of_nat j)"
        by (simp add: m in_region_offset)
    qed
    ultimately show ?thesis using t(2) same krealloc_more [OF t(1)] b' by (auto simp: grown_def)
  qed
  with t(1) show ?thesis by blast
qed

text \<open>What the write does once the buffer has grown.\<close>

lemma append_bytes:
  assumes "m' = memcpy (r + of_nat k) src n m" and "unat n \<le> unat (r + of_nat k - src)" "unat n \<le> unat (src - (r + of_nat k))"
    and "k + unat n < 18446744073709551616"
  shows "read_bytes m' r (k + unat n) = read_bytes m r k @ read_bytes m src (unat n)"
proof (rule nth_equalityI)
  show "length (read_bytes m' r (k + unat n)) = length (read_bytes m r k @ read_bytes m src (unat n))" by simp
  fix i assume "i < length (read_bytes m' r (k + unat n))"
  then have i: "i < k + unat n" by simp
  have ki: "unat (of_nat i :: u64) = i" "unat (of_nat k :: u64) = k"
    using i assms(4) by (auto intro!: unat_of_nat_64)
  then have u: "unat (of_nat i - of_nat k :: u64) = (if i < k then i + 18446744073709551616 - k else i - k)"
    by (simp add: unat_sub_if' not_less)
  have "r + of_nat i - (r + of_nat k) = (of_nat i - of_nat k :: u64)" by simp
  with u have reg: "in_region (r + of_nat i) (r + of_nat k) (unat n) \<longleftrightarrow> k \<le> i"
    using i assms(4) by (auto simp: in_region_def)
  show "read_bytes m' r (k + unat n) ! i = (read_bytes m r k @ read_bytes m src (unat n)) ! i"
  proof (cases "i < k")
    case True
    with i reg assms(1-3) show ?thesis by (simp add: read_bytes_def nth_append memcpy_apply)
  next
    case False
    then have "src + (r + of_nat i - (r + of_nat k)) = src + of_nat (i - k)" "i - k < unat n"
      using i by (simp_all add: of_nat_diff)
    with i reg False assms(1-3) show ?thesis by (simp add: read_bytes_def nth_append memcpy_apply del: of_nat_diff)
  qed
qed

text \<open>
  C13: Writing \<open>n\<close> bytes to a file whose buffer is an allocated buffer of the heap, or that is empty,
  when the new size fits the machine and the heap: either all the bytes are written, and the
  content of the file is the old content followed by them, in an allocated buffer of exactly
  the new size; or nothing is written, and the file has no buffer any more: its old content is lost.
  The heap is well-formed again.  The bytes written come from outside the heap, and the buffer
  of the file must not be larger than the new content, which a file that was read from before
  does not satisfy.
\<close>

theorem file_write_appends:
  assumes inv: "heap_inv s" "files_inv s" and fd: "unat fd < 2048" "unat fd < length (files_map s)"
    and ok: "file_ok (unat fd) s" and args: "src \<noteq> null" "n \<noteq> 0"
    and fits: "k = unat (file_size (files_map s ! unat fd)) + unat n" "k < 4294967296" "k < unat (kheap_bytes s)"
    and old: "\<forall>(b, z) \<in> buffers s. file_ptr (files_map s ! unat fd) = kheap s + b \<longrightarrow> unat z \<le> k"
    and apart: "blocks_apart src (unat n) (kheap s) (unat (kheap_bytes s))"
  shows "\<exists>r t. file_write fd src n s = Some (r, t) \<and> heap_inv t \<and>
    (r = n \<and> file_content (unat fd) t = file_content (unat fd) s @ read_bytes (vmem s) src (unat n) \<and>
       (\<exists>b. file_ptr (files_map t ! unat fd) = kheap t + b \<and> (b, of_nat k) \<in> buffers t)
     \<or> r = 0 \<and> file_ptr (files_map t ! unat fd) = null)"
proof -
  let ?f = "files_map s ! unat fd"
  let ?z = "unat (file_size ?f)" and ?n = "of_nat k :: u64"
  have nk: "unat ?n = k" using fits(2) by (intro unat_of_nat_64) linarith
  have n32: "unat (ucast n :: u32) = unat n"
    using fits(1,2) by (simp add: unsigned_ucast_eq take_bit_nat_eq_self)
  have size32: "unat (file_size ?f + ucast n) = k"
    using fits(1,2) n32 by (simp add: unat_word_ariths(1))
  then have size: "ucast (file_size ?f + ucast n) = ?n"
    using nk by (simp add: word_unat_eq_iff)
  obtain p t where t: "(if file_ptr ?f \<noteq> null then krealloc (file_ptr ?f) ?n s else kmalloc ?n s) = Some (p, t)"
    and g: "grown ?n (unat fd) p s t"
  proof (cases "file_ptr ?f = null")
    case True
    with ok have "file_size ?f = 0" by (simp add: file_ok_def)
    with that True kmalloc_grown [OF inv(1), of "unat fd" ?n] show thesis by auto
  next
    case False
    with ok obtain b z where b: "(b, z) \<in> buffers s" "file_ptr ?f = kheap s + b" "?z \<le> unat z"
      by (auto simp: file_ok_def Let_def)
    have "unat z \<le> unat ?n" "?n < kheap_bytes s"
      using old b(1,2) fits(3) nk by (auto simp: word_less_nat_alt)
    from krealloc_grown [OF inv(1) b this] obtain r u
      where "krealloc (kheap s + b) ?n s = Some (r, u)" "grown ?n (unat fd) r s u" by blast
    with False b(2) show thesis by (intro that) simp_all
  qed
  note same = files_of_more(1) [of t s] files_of_more(3) [of t s]
  have t_more: "files_map t = files_map s" using g same by (simp add: grown_def)
  let ?m = "memcpy (p + ucast (file_size ?f)) src n (vmem t)"
  let ?u = "if p = null then t\<lparr>files_map := (files_map s)[unat fd := ?f\<lparr>file_ptr := p\<rparr>]\<rparr>
    else t\<lparr>vmem := ?m, files_map := (files_map s)[unat fd := ?f\<lparr>file_ptr := p, file_size := file_size ?f + ucast n\<rparr>]\<rparr>"
  have run: "file_write fd src n s = Some (if p = null then 0 else n, ?u)"
    using args inv(2) fd t t_more size get_file_ok [OF inv(2) fd(1)]
    by (cases "file_ptr ?f = null"; cases "p = null"; simp add: file_write_def files_inv_def MAX_FILES_def word_le_nat_alt obj_load_def set_file_def obj_store_def Let_def)
  have "heap_inv t" using g by (simp add: grown_def)
  then have "heap_inv ?u" by (simp add: heap_inv_def map_ok_def kheap_bytes_def)
  moreover have "file_content (unat fd) ?u = file_content (unat fd) s @ read_bytes (vmem s) src (unat n) \<and>
      (\<exists>b. file_ptr (files_map ?u ! unat fd) = kheap ?u + b \<and> (b, ?n) \<in> buffers ?u)" if "p \<noteq> null"
  proof -
    from that g obtain b where b: "p = kheap s + b" "(b, ?n) \<in> buffers t"
      and outside: "\<And>x. \<not> in_region x (kheap s) (unat (kheap_bytes s)) \<Longrightarrow> vmem t x = vmem s x"
      and kept: "read_bytes (vmem t) p ?z = file_content (unat fd) s"
      by (auto simp: grown_def)
    have h: "unat b + k \<le> unat (kheap_bytes s)"
      using g buffer_inside(2) [of t b ?n] b(2) nk by (simp add: grown_def)
    have "unat b + ?z < 18446744073709551616" using h fits(1) unat_less_64 [of "kheap_bytes s"] by linarith
    then have bz: "unat (b + of_nat ?z) = unat b + ?z" by (subst unat_add_64) simp_all
    have n0: "0 < unat n" using args(2) by (simp add: unat_gt_0)
    have "blocks_apart (src + 0) (unat n) (kheap s + (b + of_nat ?z)) (unat n)"
      by (rule blocks_apart_field [OF apart]) (use h fits(1) n0 bz in simp_all)
    then have ba: "blocks_apart src (unat n) (p + of_nat ?z) (unat n)" by (simp add: b(1) add.assoc)
    have "read_bytes ?m p (?z + unat n) = read_bytes (vmem t) p ?z @ read_bytes (vmem t) src (unat n)"
      by (rule append_bytes) (use ba fits(1,2) in \<open>simp_all add: blocks_apart_def\<close>)
    moreover have "read_bytes (vmem t) src (unat n) = read_bytes (vmem s) src (unat n)"
    proof (rule read_bytes_eq, rule outside)
      fix i assume "i < unat n"
      then show "\<not> in_region (src + of_nat i) (kheap s) (unat (kheap_bytes s))"
        by (intro blocks_apart_notin [OF blocks_apart_sym [OF apart]]) simp_all
    qed
    ultimately have "file_content (unat fd) ?u = file_content (unat fd) s @ read_bytes (vmem s) src (unat n)"
      using that fd(2) size32 fits(1) kept by (simp add: file_content_def)
    with that g b fd(2) show ?thesis by (auto simp: grown_def buffers_def live_def)
  qed
  ultimately show ?thesis using run fd(2) by (intro exI [of _ "if p = null then 0 else n"] exI [of _ ?u]) auto
qed

section \<open>A concrete disk\<close>

text \<open>A heap with an allocated buffer of 100 bytes, and two files: an empty one and one of 100 bytes.\<close>

definition demo_disk :: files_state where
  "demo_disk = tty_state.extend
     (kheap_state.extend
       (demo3\<lparr>pools := \<lparr>obj_pools = [obj_pools (pools demo3) ! 0, (obj_pools (pools demo3) ! 0)\<lparr>pool_id := 1, pool_size := 2048\<rparr>],
          obj_pools_index = 2\<rparr>\<rparr>)
       (tty_state.fields 0x1000 0x9000 24 16 1536 0 2 3 2 8 8 16 TTY_COLOR_WHITE TTY_COLOR_BLACK True True))
     (files_state.fields True 1 3 (zero_file # \<lparr>file_type = data, file_size = 100, file_ptr = 0x100000\<rparr> # replicate 254 zero_file))"

lemmas demo_disk_defs = demo_disk_def tty_state.extend_def kheap_state.extend_def files_state.fields_def tty_state.fields_def

lemma demo_disk_facts [simp]:
  "heap_inv demo_disk" "files_inv demo_disk" "buffers demo_disk = {(0, 100)}"
  "kheap demo_disk = 0x100000" "kheap_bytes demo_disk = 262144" "length (files_map demo_disk) = 256"
  "files_map demo_disk ! 0 = zero_file"
  "files_map demo_disk ! Suc 0 = \<lparr>file_type = data, file_size = 100, file_ptr = 0x100000\<rparr>"
  "vmem demo_disk = (\<lambda>a. ucast a)"
proof -
  show "heap_inv demo_disk" using demo_invs(1)
    by (simp add: demo_disk_defs heap_inv_def map_ok_def manual_pool_def kheap_bytes_def)
      (simp add: demo3_def demo_heap_def)
  show "files_inv demo_disk" by (simp add: demo_disk_defs files_inv_def manual_pool_def demo3_def demo_heap_def)
  show "buffers demo_disk = {(0, 100)}"
    using demo3_facts(4) by (simp add: demo_disk_defs buffers_def live_def)
qed (use demo3_facts in \<open>simp_all add: demo_disk_defs kheap_bytes_def, simp_all add: demo3_def demo_heap_def\<close>)

theorem file_write_appends_witness:
  "\<exists>r t. file_write 0 0x1000 5 demo_disk = Some (r, t) \<and>
     (r = 5 \<and> file_content 0 t = [0, 1, 2, 3, 4] \<or> r = 0)"
proof -
  have pre: "unat (0 :: u32) < 2048" "unat (0 :: u32) < length (files_map demo_disk)" "file_ok (unat (0 :: u32)) demo_disk"
    "(0x1000 :: u64) \<noteq> null" "(5 :: u64) \<noteq> 0"
    "5 = unat (file_size (files_map demo_disk ! unat (0 :: u32))) + unat (5 :: u64)"
    "5 < (4294967296 :: nat)" "5 < unat (kheap_bytes demo_disk)"
    by (simp_all add: file_ok_def zero_file_def)
  have old: "\<forall>(b, z) \<in> buffers demo_disk. file_ptr (files_map demo_disk ! unat (0 :: u32)) = kheap demo_disk + b \<longrightarrow>
      unat z \<le> 5"
    by (simp add: zero_file_def)
  have apart: "blocks_apart 0x1000 (unat (5 :: u64)) (kheap demo_disk) (unat (kheap_bytes demo_disk))"
    by (simp add: blocks_apart_def)
  from file_write_appends [OF demo_disk_facts(1,2) pre old apart] obtain r t where
    "file_write 0 0x1000 5 demo_disk = Some (r, t)"
    "r = 5 \<and> file_content (unat (0 :: u32)) t =
       file_content (unat (0 :: u32)) demo_disk @ read_bytes (vmem demo_disk) 0x1000 (unat (5 :: u64)) \<or> r = 0" by blast
  moreover have "file_content (unat (0 :: u32)) demo_disk = []" by (simp add: file_content_def zero_file_def read_bytes_def)
  moreover have "read_bytes (vmem demo_disk) 0x1000 (unat (5 :: u64)) = [0, 1, 2, 3, 4]"
    by (simp add: read_bytes_def upt_rec)
  ultimately show ?thesis by (intro exI [of _ r] exI [of _ t]) simp
qed

theorem file_read_takes_front_witness:
  "\<exists>t. file_read 1 0x1000 3 demo_disk = Some (3, t) \<and> read_bytes (vmem t) 0x1000 3 = [0, 1, 2] \<and>
     take 3 (file_content 1 t) = [0, 1, 2]"
proof -
  have pre: "unat (1 :: u32) < 2048" "unat (1 :: u32) < length (files_map demo_disk)" "(3 :: u64) \<noteq> 0"
    "3 = min (unat (3 :: u64)) (unat (file_size (files_map demo_disk ! unat (1 :: u32))))"
    "(0x1000 :: u64) \<noteq> null \<longrightarrow> blocks_apart 0x1000 3 (file_ptr (files_map demo_disk ! unat (1 :: u32)))
      (unat (file_size (files_map demo_disk ! unat (1 :: u32))))"
    by (simp_all add: blocks_apart_def)
  have c: "file_content (Suc 0) demo_disk = read_bytes (\<lambda>a. ucast a) 0x100000 100"
    by (simp add: file_content_def)
  have r: "read_bytes (\<lambda>a. ucast a) 0x100000 3 = [0, 1, 2]" by (simp add: read_bytes_def upt_rec)
  from file_read_takes_front [OF demo_disk_facts(2) pre] obtain t where t: "file_read 1 0x1000 3 demo_disk = Some (of_nat 3, t)"
    "read_bytes (vmem t) 0x1000 3 = take 3 (file_content (unat (1 :: u32)) demo_disk)"
    "file_content (unat (1 :: u32)) t =
      take (length (file_content (unat (1 :: u32)) demo_disk) - 3) (file_content (unat (1 :: u32)) demo_disk)"
    by auto
  from t(2,3) have "read_bytes (vmem t) 0x1000 3 = [0, 1, 2]" "take 3 (file_content 1 t) = [0, 1, 2]"
    by (simp_all add: c r take_read_bytes)
  with t(1) show ?thesis by (intro exI [of _ t]) simp
qed

end
