(* ===== verification/Kmain_Props.thy ===== *)
theory Kmain_Props
  imports Kmain Pci_Props
begin

text \<open>How far the start of the kernel gets by the rules of the language.\<close>

lemma load_font_branches:
  "fst (tty_load_font file s) = None \<or> tty_load_font file s = (Some False, s)"
  by (simp add: tty_load_font_def Let_def)

text \<open>
  A static \<^verbatim>\<open>cell_width\<close> is zero before the first font is loaded, so neither branch of
  \<^verbatim>\<open>tty_load_font\<close> lets the terminal start.
\<close>

lemma init_tty_undefined: "\<not> tty_ready s \<Longrightarrow> cell_width s = 0 \<Longrightarrow> init_tty bp s = None"
  using load_font_branches [of "font bp" s] by (cases "tty_load_font (font bp) s") (auto simp: init_tty_def Let_def)

text \<open>
  The start of the kernel by the rules of C.  With boot parameters that lack something it
  halts and changes nothing.  With complete parameters it has no defined continuation:
  the function that loads the font has no return value for a valid font, which the caller
  tests, and for any other font the division by the width of a character divides by zero.
\<close>

theorem kmain_start_undefined:
  assumes "cell_width s = 0"
  shows "kmain E bp s = (if check_boot_param bp then None else Some (sys_hlt s))"
  using init_tty_undefined [of "s\<lparr>tty_ready := False\<rparr>" "boot_screen bp"] assms by (simp add: kmain_def Let_def)

definition demo_params :: "u64 \<Rightarrow> leokernel_boot_params" where
  "demo_params xsdt =
    \<lparr>boot_screen = \<lparr>frame_buffer = 0xE0000000, frame_buffer_size = 1920000, video_height = 600, video_width = 800,
       video_pitch = 800, font = 0x9000\<rparr>,
     boot_mem = \<lparr>boot_map_address = 0x7000, boot_map = [], map_size = 12, boot_frame_bitmap = \<lambda>_. 0\<rparr>, boot_xsdt = xsdt\<rparr>"

definition demo_power_on :: "(u32 \<times> (u32 \<Rightarrow> u32)) pcie_state" where
  "demo_power_on = ahci_state.extend
     (ide_state.extend (pci_state.extend (demo_pci\<lparr>cell_width := 0, tty_ready := False\<rparr>) (ide_state.fields 0 0 []))
       (ahci_state.fields 0 0 []))
     (pcie_state.fields 0 [])"

lemma cell_width_demo [simp]: "cell_width demo_power_on = 0"
  by (simp add: demo_power_on_def ahci_state.extend_def ide_state.extend_def pci_state.extend_def pcie_state.fields_def
      ahci_state.fields_def ide_state.fields_def)

theorem kmain_start_undefined_witness:
  "\<forall>E. kmain E (demo_params 0) demo_power_on = Some (sys_hlt demo_power_on) \<and> kmain E (demo_params 0x8000) demo_power_on = None"
  using kmain_start_undefined [OF cell_width_demo, of _ "demo_params 0"]
    kmain_start_undefined [OF cell_width_demo, of _ "demo_params 0x8000"]
  by (simp add: check_boot_param_def demo_params_def Let_def)

end
