(* ===== verification/Spec2Isabelle.thy ===== *)
theory Spec2Isabelle
  imports Structs Md5 Splash Kmalloc_Props Kmap_Props Page_Cycle Frame_Alloc_Props Obj_Alloc_Props Paging_Props Tty_Props Vsnprintf_Props
    Strings_Props Interrupts_Props Acpi_Props Keyboard_Props Rtc_Props Pci_Props
    Ide_Props Ahci_Props Files_Props Kmain_Props
begin

text \<open>
  A model of LeoKernel, a small kernel for x86-64 written in C, with the theorems that say
  what its parts do.  The names of files below are relative to the directory \<^verbatim>\<open>src\<close> of the
  repository; a definition has the name of the C function it models, unless a theory says
  otherwise.

  \<^bold>\<open>How the program is put together.\<close>  The boot loader passes the screen, a map of the memory and
  the ACPI tables to \<^verbatim>\<open>kmain\<close>.  It starts the text terminal, loads the segment and interrupt
  tables, starts the memory manager (frames, page tables, memory map, object pools, heap), reads
  the ACPI tables, which name the interrupt controllers, starts the timers, enumerates the PCI
  express devices, which starts the disk drivers, and ends in the loop of the command line that
  the keyboard interrupt feeds.

  \<^bold>\<open>How C is modelled.\<close>  Integers are words of their width, pointers are 64-bit words, and a memory
  is a function from addresses to bytes (Kernel_Base, Mem_Ops).  The static variables of a file are
  the fields of a record that extends the record of the files it builds on, from
  \<open>frame_state\<close> up to \<open>pcie_state\<close>, so that a function changes exactly the state it names.  A
  function that can do something the language does not define (an access outside an array, a
  division by zero, a test of a missing return value) or that may not return has an option as
  its result, \<open>None\<close> for either.  Devices, interrupted programs and
  code at function pointers are not part of the repository: a \<open>bus\<close> and functions for them are
  arguments of the definitions.  A loop over an index is recursion on the number of
  rounds left, \<open>function\<close> with a measure where the index decides, and \<open>partial_function\<close> where
  the end depends on a device or on data, as in the waiting loops, strings, linked lists and the MADT.
  No fuel is used: where a loop may be endless the theorems say when it returns.

  \<^bold>\<open>The theories.\<close>
  \<^item> Kernel_Base: the prelude, with the counted loop and facts on words, lists and options.
  \<^item> Mem_Ops: \<^verbatim>\<open>mem.c\<close>, little-endian accesses, blocks of memory that do not overlap.
  \<^item> Strings, Strings_Props: \<^verbatim>\<open>string.c\<close> and the integer part of \<^verbatim>\<open>math.c\<close>.
  \<^item> Vsnprintf, Vsnprintf_Props: \<^verbatim>\<open>tty/vsnprintf.c\<close>.
  \<^item> Frame_Alloc, Frame_Alloc_Props: \<^verbatim>\<open>mm/frame_alloc.c\<close>.  A run of the allocator is an inductive
    relation; along it no frame is handed out twice.
  \<^item> Paging, Paging_Props: \<^verbatim>\<open>mm/paging.c\<close>.  The tables form a tree without sharing, which
    \<^verbatim>\<open>map_page\<close> keeps, whether it succeeds or fails.
  \<^item> Obj_Alloc, Obj_Alloc_Props: \<^verbatim>\<open>mm/obj_alloc.c\<close>.  The contracts of stack, queue and array are
    locales, interpreted on the pools of the three kinds.
  \<^item> Memory_Map, Memory_Manager, Memory_Manager_Props, Kmap_Props, Page_Cycle:
    \<^verbatim>\<open>mm/memory_manager.c\<close>.  Sorting and compressing the map refine operations on the
    sequence of the pages it describes.  An allocation of pages is described on three levels that it changes together: the
    descriptors of the map as a multiset, the set of available frames and the translation of
    pages.  Releasing it makes the frames available while the pages stay mapped;
    mapping a given page leaves the descriptor that covered it in the map.
  \<^item> Kmalloc, Kmalloc_Inv, Kmalloc_Props: \<^verbatim>\<open>mm/kmalloc.c\<close> and \<^verbatim>\<open>init_mm\<close>.  The invariant is that the
    descriptors tile the heap; the operations are described by the set of allocated buffers.
  \<^item> Tty, Tty_Props: \<^verbatim>\<open>tty/tty.c\<close>.  Floats, Splash: the floating point of \<^verbatim>\<open>math.c\<close>, \<^verbatim>\<open>tty/hue.c\<close>
    and \<^verbatim>\<open>launch_splashscreen\<close>; every operation is rounded as IEEE 754 says.
  \<^item> Files, Files_Props: \<^verbatim>\<open>io/files.c\<close>.  A file is the list of bytes in its buffer; writing
    refines appending, on top of the theorems on the heap.
  \<^item> Machine: \<^verbatim>\<open>port_io.c\<close>, \<^verbatim>\<open>low_level.c\<close>, \<^verbatim>\<open>assert.c\<close>, \<^verbatim>\<open>mm/segmentation.c\<close>.
  \<^item> Interrupts, Isr, Interrupts_Props: \<^verbatim>\<open>int/int.c\<close> and \<^verbatim>\<open>int/isr.c\<close>.
  \<^item> Apic, Apic_Props: \<^verbatim>\<open>int/apic.c\<close>.
  \<^item> Timers, Rtc_Props: \<^verbatim>\<open>io/pit.c\<close>, \<^verbatim>\<open>sleep.c\<close>, \<^verbatim>\<open>io/rtc.c\<close>.
  \<^item> Keyboard, Keyboard_Props: \<^verbatim>\<open>io/keyboard.c\<close>, \<^verbatim>\<open>io/ps2_keyboard.c\<close>, \<^verbatim>\<open>keymappings.c\<close>,
    \<^verbatim>\<open>tty/term.c\<close>.
  \<^item> Acpi, Acpi_Props: \<^verbatim>\<open>acpi/acpi_parser.c\<close>.
  \<^item> Pci, Pcie, Pci_Props: \<^verbatim>\<open>io/pci_tree.c\<close>, \<^verbatim>\<open>io/pci.c\<close>, \<^verbatim>\<open>io/pcie.c\<close>, \<^verbatim>\<open>io/devs.c\<close>.  The linked lists
    in memory are related to lists of addresses, once for device and bridge nodes in a locale.
  \<^item> Ide, Ide_Setup, Ide_Props: \<^verbatim>\<open>drv/ide\<close>.
  \<^item> Ahci, Ahci_Props: \<^verbatim>\<open>drv/ahci\<close>.
  \<^item> Kmain, Kmain_Props: \<^verbatim>\<open>leokernel.c\<close>, \<^verbatim>\<open>panic.c\<close> and \<^verbatim>\<open>fail\<close> of \<^verbatim>\<open>tty/tty.c\<close>.
  \<^item> Layouts, Structs: the structures of the headers, \<^verbatim>\<open>include/types.h\<close>.  A structure is a list of
    members, which Layouts places as the ABI does; the theorems say that the readers and sizes
    that the other theories use are those of the structures.
  \<^item> Md5: \<^verbatim>\<open>crypto/md5.c\<close>, as far as it is written.
  \<^item> Demo: a concrete machine on which the properties of the device code are tried.

  \<^bold>\<open>What the theorems show.\<close>
  \<^item> Memory: buffers and frames handed out are apart from all others, null is returned only when
    nothing suitable is left, a mapped page translates to its frame, sorting and compressing
    the map keep what it describes.
  \<^item> Data: the pools are the containers they claim to be; numbers printed are read back; the
    search for a token is a first-occurrence search that leaves out the end of the string.
  \<^item> Devices: what the interrupt controller, the drives and the clock are told and what is read
    from them; that sleeping and reading from a drive return.
  \<^item> Deviations, where the code does not do what it means to: a wrong start of the search for a
    free frame, an unbounded merge of the memory map, a copy beyond the
    new buffer, service routines that are never installed, and others.  They are
    stated as theorems of the same kind.

  \<^bold>\<open>Bounds.\<close>  The theorems about the heap need that it does not wrap around the end of the address
  space; those about tables and lists in memory that the blocks they occupy do not overlap.  The
  kernel has 128 heap descriptors, 64 preallocated frames and 4 handlers per interrupt; the
  models have the same constants.  The invariant of the frame allocator asks that
  \<^verbatim>\<open>last_index\<close> is a multiple of 8; \<^verbatim>\<open>kfree_frame\<close> keeps this only for frames in every eighth byte of
  the bitmap or above \<^verbatim>\<open>last_free_frame\<close>, and the theorems about frames show what goes wrong
  after another one.  Releasing pages is possible below \<^verbatim>\<open>memory_length\<close> only, and the theorems on the
  memory map are about fewer than \<open>2 ^ 20\<close> pages.

  \<^bold>\<open>Not modelled.\<close>  \<^verbatim>\<open>include/stdargs.h\<close> only names builtins of the compiler.  The endless loops
  of \<^verbatim>\<open>panic\<close> and of \<^verbatim>\<open>kmain\<close> are left out at the end of their models, and delay loops that have no
  effect are left out where they stand.  The signs of floating-point zeros are not modelled.
\<close>

end
